theory Spec2Isabelle
  imports Complex_Main
begin

section \<open>DiscretizedPath (modules/planning/common/path/discretized_path.cc)\<close>

text \<open>
  A \<open>double\<close> is modelled as a real number throughout: the theorems below are about the
  arithmetic the code writes, not about rounding, infinities or NaN.

  Modelled from the spec: the declaration of \<open>common::PathPoint\<close> (a protobuf message) is not
  among the sources; the record has the attributes the data model lists for a path point.
\<close>

record PathPoint =
  s :: real
  x :: real
  y :: real
  theta :: real
  kappa :: real
  dkappa :: real
  ddkappa :: real

type_synonym DiscretizedPath = "PathPoint list"

text \<open>
  \<open>std::lower_bound(first, last, value, comp)\<close> as a bisection over the index range
  \<open>[first, first + len)\<close>: the predicate \<open>elem_less\<close> is \<open>\<lambda>e. comp(e, value)\<close>. The probe
  \<open>xs ! (first + len div 2)\<close> is always inside the range being searched.
\<close>

function lower_bound :: "('a \<Rightarrow> bool) \<Rightarrow> 'a list \<Rightarrow> nat \<Rightarrow> nat \<Rightarrow> nat" where
  "lower_bound elem_less xs first len =
     (if len = 0 then first
      else (let half = len div 2; middle = first + half
            in if elem_less (xs ! middle)
               then lower_bound elem_less xs (middle + 1) (len - half - 1)
               else lower_bound elem_less xs first half))"
  by pat_completeness auto
termination
  by (relation "measure (\<lambda>(p, xs, first, len). len)") auto

text \<open>
  \<open>std::upper_bound(first, last, value, comp)\<close> likewise: the predicate \<open>value_less\<close> is
  \<open>\<lambda>e. comp(value, e)\<close>, and the search moves left when it holds at the probe.
\<close>

function upper_bound :: "('a \<Rightarrow> bool) \<Rightarrow> 'a list \<Rightarrow> nat \<Rightarrow> nat \<Rightarrow> nat" where
  "upper_bound value_less xs first len =
     (if len = 0 then first
      else (let half = len div 2; middle = first + half
            in if value_less (xs ! middle)
               then upper_bound value_less xs first half
               else upper_bound value_less xs (middle + 1) (len - half - 1)))"
  by pat_completeness auto
termination
  by (relation "measure (\<lambda>(p, xs, first, len). len)") auto

text \<open>The iterators the queries return are modelled as indices; \<open>end()\<close> is \<open>length xs\<close>.\<close>

definition QueryLowerBound :: "DiscretizedPath \<Rightarrow> real \<Rightarrow> nat" where
  "QueryLowerBound path path_s = lower_bound (\<lambda>tp. s tp < path_s) path 0 (length path)"

definition QueryUpperBound :: "DiscretizedPath \<Rightarrow> real \<Rightarrow> nat" where
  "QueryUpperBound path path_s = upper_bound (\<lambda>tp. s tp < path_s) path 0 (length path)"

text \<open>
  \<open>common::math::InterpolateUsingLinearApproximation\<close> is not among the sources; it is the
  parameter \<open>interpolate\<close>. \<open>ACHECK(!empty())\<close> aborts the process: the result \<open>None\<close>.
\<close>

definition Evaluate ::
  "(PathPoint \<Rightarrow> PathPoint \<Rightarrow> real \<Rightarrow> PathPoint) \<Rightarrow> DiscretizedPath \<Rightarrow> real \<Rightarrow> PathPoint option"
where
  "Evaluate interpolate path path_s =
     (if path = [] then None
      else (let it_lower = QueryLowerBound path path_s
            in if it_lower = 0 then Some (hd path)
               else if it_lower = length path then Some (last path)
               else Some (interpolate (path ! (it_lower - 1)) (path ! it_lower) path_s)))"

definition EvaluateReverse ::
  "(PathPoint \<Rightarrow> PathPoint \<Rightarrow> real \<Rightarrow> PathPoint) \<Rightarrow> DiscretizedPath \<Rightarrow> real \<Rightarrow> PathPoint option"
where
  "EvaluateReverse interpolate path path_s =
     (if path = [] then None
      else (let it_upper = QueryUpperBound path path_s
            in if it_upper = 0 then Some (hd path)
               else if it_upper = length path then Some (last path)
               else Some (interpolate (path ! (it_upper - 1)) (path ! it_upper) path_s)))"

declare lower_bound.simps [simp del] upper_bound.simps [simp del]

section \<open>Collaborators of the speed optimizer\<close>

text \<open>
  Modelled from the spec: \<open>apollo::common::Status\<close>, \<open>common::SpeedPoint\<close>, \<open>SpeedData\<close>,
  \<open>STBoundary\<close>, \<open>StGraphData\<close>, \<open>SpeedLimit\<close>, \<open>ReferenceLineInfo\<close>,
  \<open>PiecewiseJerkTrajectory1d\<close> and the piecewise-jerk problem classes are declared outside the
  sources; each is the record of what the optimizer reads from it or hands to it. A status is
  an error code with a message; a speed point is the tuple \<open>(s, t, v, a, j)\<close>; speed data is
  the ordered sequence of speed points, \<open>clear\<close> leaves it empty and \<open>AppendSpeedPoint\<close> adds
  one point at the end.
\<close>

datatype ErrorCode = OK | PLANNING_ERROR

datatype Status = Status ErrorCode string

fun ok :: "Status \<Rightarrow> bool" where
  "ok (Status code msg) = (code = OK)"

definition Status_OK :: Status where
  "Status_OK = Status OK []"

record SpeedPoint =
  sp_s :: real
  sp_t :: real
  sp_v :: real
  sp_a :: real
  sp_da :: real

type_synonym SpeedData = "SpeedPoint list"

definition AppendSpeedPoint :: "SpeedData \<Rightarrow> real \<Rightarrow> real \<Rightarrow> real \<Rightarrow> real \<Rightarrow> real \<Rightarrow> SpeedData" where
  "AppendSpeedPoint speed_data s_val time_val v_val a_val da_val =
     speed_data @ [\<lparr>sp_s = s_val, sp_t = time_val, sp_v = v_val, sp_a = a_val, sp_da = da_val\<rparr>]"

text \<open>
  The boundary type is an enumeration; the switch of the bounds build names four of its
  values and sends every other one to \<open>default:\<close>, which is the constructor \<open>OTHER\<close> here.
  \<open>GetUnblockSRange(t, &s_upper, &s_lower)\<close> is the boundary's query: \<open>None\<close> when it
  returns false, otherwise the pair \<open>(s_upper, s_lower)\<close> it wrote.
\<close>

datatype BoundaryType = STOP | YIELD | FOLLOW | OVERTAKE | OTHER

record st_gap_poi =
  time :: real
  s_gap :: real

record STBoundary =
  boundary_type :: BoundaryType
  GetUnblockSRange :: "real \<Rightarrow> (real \<times> real) option"
  characteristic_length :: real
  is_end_interaction_point_valid :: bool
  get_end_interaction_poi :: st_gap_poi

record SpeedLimit =
  speed_limit_points :: "(real \<times> real) list"
  GetSpeedLimitByS :: "real \<Rightarrow> real"

record StGraphData =
  path_length :: real
  total_time_by_conf :: real
  init_point_v :: real
  init_point_a :: real
  st_boundaries :: "STBoundary list"
  speed_limit :: SpeedLimit

text \<open>
  Modelled from the spec: \<open>is_st_boundaries_empty\<close> is declared outside the sources; it says
  whether any ST boundaries exist.
\<close>

definition is_st_boundaries_empty :: "StGraphData \<Rightarrow> bool" where
  "is_st_boundaries_empty g = (st_boundaries g = [])"

record ReferenceLineInfo =
  ReachedDestination :: bool
  get_max_speed :: real
  GetCruiseSpeed :: real
  emergency_brake_speed_data :: SpeedData
  st_graph_data :: StGraphData

record PathData =
  discretized_path :: DiscretizedPath

record planning_gflags =
  FLAGS_use_soft_bound_in_nonlinear_speed_opt :: bool
  FLAGS_follow_min_distance :: real
  FLAGS_follow_time_buffer :: real
  FLAGS_longitudinal_jerk_lower_bound :: real
  FLAGS_longitudinal_jerk_upper_bound :: real
  FLAGS_use_smoothed_dp_guide_line :: bool

record vehicle_param =
  max_acceleration :: real
  max_deceleration :: real

record optimizer_config =
  acc_weight :: real
  jerk_weight :: real
  lat_acc_weight :: real
  ref_s_weight :: real
  ref_v_weight :: real
  s_potential_weight :: real
  soft_s_bound_weight :: real
  use_warm_start :: bool

text \<open>
  A piecewise-jerk problem as the optimizer configures it before \<open>Optimize\<close>: the constructor's
  arguments and the value of every setter the code calls. \<open>set_x_bounds\<close> has two overloads,
  one bound pair per knot or one pair for all knots.
\<close>

datatype x_bounds_arg = PerKnot "(real \<times> real) list" | Uniform real real

record PiecewiseJerkProblem =
  num_of_knots :: int
  delta_s :: real
  x_init :: "real \<times> real \<times> real"
  x_bounds :: x_bounds_arg
  dx_bounds :: "real \<times> real"
  ddx_bounds :: "real \<times> real"
  dddx_bound :: "real \<times> real"
  weight_x :: real
  weight_dx :: real
  weight_ddx :: real
  weight_dddx :: real
  weight_x_ref :: real
  x_ref :: "real list"

type_synonym opt_arrays = "real list \<times> real list \<times> real list"

record PiecewiseJerkTrajectory1d =
  traj_init :: "real \<times> real \<times> real"
  segments :: "(real \<times> real) list"

datatype ApplicationReturnStatus = Solve_Succeeded | Solved_To_Acceptable_Level | Solve_Failed

text \<open>What \<open>OptimizeByNLP\<close> hands to the Ipopt interface before the solve.\<close>

record PiecewiseJerkSpeedNonlinearIpoptInterface =
  nlp_s_init :: real
  nlp_s_dot_init :: real
  nlp_s_ddot_init :: real
  nlp_delta_t :: real
  nlp_num_of_knots :: int
  nlp_total_length :: real
  nlp_s_dot_max :: real
  nlp_s_ddot_min :: real
  nlp_s_ddot_max :: real
  nlp_s_dddot_min :: real
  nlp_s_dddot_max :: real
  safety_bounds :: "(real \<times> real) list"
  curvature_curve :: PiecewiseJerkTrajectory1d
  speed_limit_curve :: PiecewiseJerkTrajectory1d
  warm_start :: "real list list option"
  reference_spatial_distance :: "real list"
  w_reference_spatial_distance :: real
  soft_safety_bounds :: "(real \<times> real) list option"
  w_soft_s_bound :: "real option"
  w_overall_a :: real
  w_overall_j :: real
  w_overall_centripetal_acc :: real
  reference_speed :: real
  w_reference_speed :: real

text \<open>
  The code outside the sources that the optimizer calls, as parameters of the model:
  the lookup \<open>SpeedData::EvaluateByTime\<close> (\<open>None\<close> when it returns false), the two QP solvers
  (\<open>None\<close> when \<open>Optimize\<close> returns false, otherwise \<open>opt_x\<close>, \<open>opt_dx\<close>, \<open>opt_ddx\<close>), Ipopt's
  \<open>Initialize\<close> and \<open>OptimizeTNLP\<close> (its status and what \<open>get_optimization_results\<close> then
  yields), the tail padding \<open>SpeedProfileGenerator::FillEnoughSpeedPoints\<close> and the path-point
  interpolation.
\<close>

record externals =
  EvaluateByTime :: "SpeedData \<Rightarrow> real \<Rightarrow> SpeedPoint option"
  speed_problem_Optimize :: "PiecewiseJerkProblem \<Rightarrow> opt_arrays option"
  path_problem_Optimize :: "PiecewiseJerkProblem \<Rightarrow> nat \<Rightarrow> opt_arrays option"
  ipopt_Initialize :: ApplicationReturnStatus
  ipopt_OptimizeTNLP :: "PiecewiseJerkSpeedNonlinearIpoptInterface \<Rightarrow> ApplicationReturnStatus \<times> opt_arrays"
  FillEnoughSpeedPoints :: "SpeedData \<Rightarrow> SpeedData"
  InterpolateUsingLinearApproximation :: "PathPoint \<Rightarrow> PathPoint \<Rightarrow> real \<Rightarrow> PathPoint"

section \<open>PiecewiseJerkSpeedNonlinearOptimizer\<close>

text \<open>The data members of the optimizer; they keep their values between calls. A member
  \<open>name_\<close> of the class is the field \<open>m_name\<close> (no Isabelle name ends in an underscore).\<close>

record optimizer =
  m_max_speed :: real
  m_delta_t :: real
  m_total_length :: real
  m_total_time :: real
  m_num_of_knots :: int
  m_s_init :: real
  m_s_dot_init :: real
  m_s_ddot_init :: real
  m_s_dot_max :: real
  m_s_ddot_max :: real
  m_s_ddot_min :: real
  m_s_dddot_min :: real
  m_s_dddot_max :: real
  m_s_bounds :: "(real \<times> real) list"
  m_s_soft_bounds :: "(real \<times> real) list"
  m_speed_limit :: SpeedLimit
  m_cruise_speed :: real
  m_smoothed_speed_limit :: PiecewiseJerkTrajectory1d
  m_smoothed_path_curvature :: PiecewiseJerkTrajectory1d

definition k_overtake_safe_dist :: real where
  "k_overtake_safe_dist = 10"

definition k_s_bound_error :: real where
  "k_s_bound_error = 1 / 10"

text \<open>\<open>static_cast<int>\<close> of a double truncates toward zero (values outside \<open>int\<close> are
  not modelled: the integer is unbounded here).\<close>

definition static_cast_int :: "real \<Rightarrow> int" where
  "static_cast_int r = (if 0 \<le> r then \<lfloor>r\<rfloor> else \<lceil>r\<rceil>)"

subsection \<open>SetUpStatesAndBounds\<close>

text \<open>The four bounds of one knot: the locals \<open>s_lower_bound\<close>, \<open>s_upper_bound\<close>,
  \<open>s_soft_lower_bound\<close> and \<open>s_soft_upper_bound\<close> of the loop body.\<close>

record knot_bounds =
  s_lower_bound :: real
  s_upper_bound :: real
  s_soft_lower_bound :: real
  s_soft_upper_bound :: real

text \<open>
  The body of the loop over the ST boundaries in the two-tier branch, for one boundary:
  a boundary whose \<open>GetUnblockSRange\<close> fails is skipped by \<open>continue\<close>; otherwise the switch on
  the boundary type, each case in the order of its statements.
\<close>

definition st_boundary_step ::
  "planning_gflags \<Rightarrow> real \<Rightarrow> SpeedPoint \<Rightarrow> STBoundary \<Rightarrow> knot_bounds \<Rightarrow> knot_bounds"
where
  "st_boundary_step fl curr_t dp_speed_point boundary kb =
     (case GetUnblockSRange boundary curr_t of
        None \<Rightarrow> kb
      | Some (drive_s_upper, drive_s_lower) \<Rightarrow>
         (case boundary_type boundary of
            STOP \<Rightarrow>
              (let kb1 = kb\<lparr>s_upper_bound := min (s_upper_bound kb) drive_s_upper\<rparr>;
                   kb2 = kb1\<lparr>s_soft_upper_bound := min (s_soft_upper_bound kb1) drive_s_upper\<rparr>;
                   kb3 = (if s_upper_bound kb2 \<le> s_lower_bound kb2
                          then kb2\<lparr>s_upper_bound := s_lower_bound kb2 + k_s_bound_error\<rparr>
                          else kb2)
               in (if s_soft_upper_bound kb3 \<le> s_soft_lower_bound kb3
                   then kb3\<lparr>s_soft_upper_bound := s_soft_lower_bound kb3 + k_s_bound_error\<rparr>
                   else kb3))
          | YIELD \<Rightarrow>
              (let s_gap0 = characteristic_length boundary;
                   end_interaction_poi = get_end_interaction_poi boundary;
                   s_gap1 = (if is_end_interaction_point_valid boundary
                                \<and> time end_interaction_poi - curr_t < 5 / 100
                                \<and> time end_interaction_poi - curr_t > - (5 / 100)
                             then max s_gap0 (s_gap end_interaction_poi) else s_gap0);
                   yield_upper = drive_s_upper - s_gap1;
                   kb1 = kb\<lparr>s_upper_bound := min (s_upper_bound kb) yield_upper\<rparr>;
                   kb2 = kb1\<lparr>s_soft_upper_bound := min (s_soft_upper_bound kb1) drive_s_upper\<rparr>;
                   kb3 = (if s_upper_bound kb2 \<le> s_lower_bound kb2
                          then kb2\<lparr>s_upper_bound := s_lower_bound kb2 + k_s_bound_error\<rparr>
                          else kb2)
               in (if s_soft_upper_bound kb3 \<le> s_soft_lower_bound kb3
                   then kb3\<lparr>s_soft_upper_bound := s_soft_lower_bound kb3 + k_s_bound_error\<rparr>
                   else kb3))
          | FOLLOW \<Rightarrow>
              (let s_gap0 = characteristic_length boundary;
                   end_interaction_poi = get_end_interaction_poi boundary;
                   s_gap1 = (if is_end_interaction_point_valid boundary
                                \<and> time end_interaction_poi - curr_t < 5 / 100
                                \<and> time end_interaction_poi - curr_t > - (5 / 100)
                             then max s_gap0 (s_gap end_interaction_poi) else s_gap0);
                   follow_upper = drive_s_upper - s_gap1;
                   kb1 = kb\<lparr>s_upper_bound := min (s_upper_bound kb) follow_upper\<rparr>;
                   soft_follow_dist = FLAGS_follow_min_distance fl
                       + min 7 (FLAGS_follow_time_buffer fl * sp_v dp_speed_point);
                   kb2 = kb1\<lparr>s_soft_upper_bound :=
                              min (s_soft_upper_bound kb1) (drive_s_upper - soft_follow_dist)\<rparr>;
                   kb3 = (if s_upper_bound kb2 \<le> s_lower_bound kb2
                          then kb2\<lparr>s_upper_bound := s_lower_bound kb2 + k_s_bound_error\<rparr>
                          else kb2)
               in (if s_soft_upper_bound kb3 \<le> s_soft_lower_bound kb3
                   then kb3\<lparr>s_soft_upper_bound := s_soft_lower_bound kb3 + k_s_bound_error\<rparr>
                   else kb3))
          | OVERTAKE \<Rightarrow>
              (let kb1 = kb\<lparr>s_lower_bound := max (s_lower_bound kb) drive_s_lower\<rparr>;
                   kb2 = kb1\<lparr>s_soft_lower_bound :=
                              max (s_soft_lower_bound kb1) (drive_s_lower + k_overtake_safe_dist)\<rparr>;
                   kb3 = (if s_upper_bound kb2 \<le> s_lower_bound kb2
                          then kb2\<lparr>s_lower_bound := s_upper_bound kb2 - k_s_bound_error\<rparr>
                          else kb2)
               in (if s_soft_upper_bound kb3 \<le> s_soft_lower_bound kb3
                   then kb3\<lparr>s_soft_lower_bound := s_soft_upper_bound kb3 - k_s_bound_error\<rparr>
                   else kb3))
          | OTHER \<Rightarrow> kb))"

definition msg_dp_lookup_failed :: string where
  "msg_dp_lookup_failed = ''rough speed profile estimation for soft follow fence failed''"

definition msg_bounds_crossed :: string where
  "msg_bounds_crossed = ''s_lower_bound larger than s_upper_bound on STGraph''"

text \<open>
  One knot of the two-tier branch up to the validity check. The locals declared before the
  loop (\<open>has_dynamic_constraints_lower\<close>, \<open>dynamic_constraints_lower_point\<close>,
  \<open>dp_speed_point\<close>) are assigned at every knot when ST boundaries exist and are never read
  when none exist (the flag keeps its initial \<open>false\<close>, and the boundary loop has no turn),
  so they are values of the knot here: \<open>ebk\<close> is the emergency-brake point when the flag
  is true. The result is \<open>None\<close> when the lookup in the rough speed profile fails.
\<close>

definition two_tier_knot_bounds ::
  "externals \<Rightarrow> planning_gflags \<Rightarrow> ReferenceLineInfo \<Rightarrow> SpeedData \<Rightarrow> real \<Rightarrow> real \<Rightarrow> knot_bounds option"
where
  "two_tier_knot_bounds ext fl rli speed_data total_length curr_t =
     (let g = st_graph_data rli;
          kb0 = \<lparr>s_lower_bound = 0, s_upper_bound = total_length,
                 s_soft_lower_bound = 0, s_soft_upper_bound = total_length\<rparr>;
          ebk = (if is_st_boundaries_empty g then None
                 else EvaluateByTime ext (emergency_brake_speed_data rli) curr_t);
          dp = (if is_st_boundaries_empty g
                then Some \<lparr>sp_s = 0, sp_t = 0, sp_v = 0, sp_a = 0, sp_da = 0\<rparr>
                else EvaluateByTime ext speed_data curr_t)
      in case dp of
           None \<Rightarrow> None
         | Some dp_speed_point \<Rightarrow>
             (let kb1 = fold (st_boundary_step fl curr_t dp_speed_point) (st_boundaries g) kb0
              in case ebk of
                   None \<Rightarrow> Some kb1
                 | Some dynamic_constraints_lower_point \<Rightarrow>
                     Some (kb1\<lparr>s_upper_bound :=
                             max (s_upper_bound kb1) (sp_s dynamic_constraints_lower_point + 2 / 10)\<rparr>)))"

text \<open>The knots of the two-tier branch, from a list of knot indices: an early
  \<open>return\<close> is \<open>Some\<close> of its status, with the members as they are at that moment.\<close>

fun two_tier_loop ::
  "externals \<Rightarrow> planning_gflags \<Rightarrow> ReferenceLineInfo \<Rightarrow> SpeedData \<Rightarrow> nat list \<Rightarrow> optimizer
     \<Rightarrow> Status option \<times> optimizer"
where
  "two_tier_loop ext fl rli speed_data [] opt = (None, opt)"
| "two_tier_loop ext fl rli speed_data (i # knots) opt =
     (case two_tier_knot_bounds ext fl rli speed_data (m_total_length opt) (real i * m_delta_t opt) of
        None \<Rightarrow> (Some (Status PLANNING_ERROR msg_dp_lookup_failed), opt)
      | Some kb \<Rightarrow>
          if s_lower_bound kb > s_upper_bound kb
          then (Some (Status PLANNING_ERROR msg_bounds_crossed), opt)
          else two_tier_loop ext fl rli speed_data knots
                 (opt\<lparr>m_s_soft_bounds := m_s_soft_bounds opt @ [(s_soft_lower_bound kb, s_soft_upper_bound kb)],
                      m_s_bounds := m_s_bounds opt @ [(s_lower_bound kb, s_upper_bound kb)]\<rparr>))"

text \<open>The single-tier branch: one boundary, then one knot, then the knots.\<close>

definition single_tier_step :: "real \<Rightarrow> STBoundary \<Rightarrow> real \<times> real \<Rightarrow> real \<times> real" where
  "single_tier_step curr_t boundary lu =
     (case GetUnblockSRange boundary curr_t of
        None \<Rightarrow> lu
      | Some (s_upper, s_lower) \<Rightarrow>
         (case boundary_type boundary of
            STOP \<Rightarrow> (fst lu, min (snd lu) s_upper)
          | YIELD \<Rightarrow> (fst lu, min (snd lu) s_upper)
          | FOLLOW \<Rightarrow> (fst lu, min (snd lu) (s_upper - 8))
          | OVERTAKE \<Rightarrow> (max (fst lu) s_lower, snd lu)
          | OTHER \<Rightarrow> lu))"

fun single_tier_loop :: "ReferenceLineInfo \<Rightarrow> nat list \<Rightarrow> optimizer \<Rightarrow> Status option \<times> optimizer" where
  "single_tier_loop rli [] opt = (None, opt)"
| "single_tier_loop rli (i # knots) opt =
     (let lu = fold (single_tier_step (real i * m_delta_t opt)) (st_boundaries (st_graph_data rli))
                 (0, m_total_length opt)
      in if fst lu > snd lu
         then (Some (Status PLANNING_ERROR msg_bounds_crossed), opt)
         else single_tier_loop rli knots (opt\<lparr>m_s_bounds := m_s_bounds opt @ [lu]\<rparr>))"

text \<open>The assignments of \<open>SetUpStatesAndBounds\<close> before the bounds are built.\<close>

definition set_up_states :: "planning_gflags \<Rightarrow> vehicle_param \<Rightarrow> ReferenceLineInfo \<Rightarrow> optimizer \<Rightarrow> optimizer" where
  "set_up_states fl veh_param rli opt =
     (let g = st_graph_data rli;
          o1 = opt\<lparr>m_max_speed := get_max_speed rli\<rparr>;
          o2 = o1\<lparr>m_delta_t := 1 / 10\<rparr>;
          o3 = o2\<lparr>m_total_length := path_length g\<rparr>;
          o4 = o3\<lparr>m_total_time := total_time_by_conf g\<rparr>;
          o5 = o4\<lparr>m_num_of_knots := static_cast_int (m_total_time o4 / m_delta_t o4) + 1\<rparr>;
          o6 = o5\<lparr>m_s_init := 0, m_s_dot_init := init_point_v g, m_s_ddot_init := init_point_a g\<rparr>;
          o7 = o6\<lparr>m_s_dot_max := max (m_max_speed o6) (m_s_dot_init o6 + 1)\<rparr>;
          o8 = o7\<lparr>m_s_ddot_max := max_acceleration veh_param,
                   m_s_ddot_min := - 1 * \<bar>max_deceleration veh_param\<bar>\<rparr>
      in o8\<lparr>m_s_dddot_min := - \<bar>FLAGS_longitudinal_jerk_lower_bound fl\<bar>,
             m_s_dddot_max := FLAGS_longitudinal_jerk_upper_bound fl\<rparr>)"

definition SetUpStatesAndBounds ::
  "externals \<Rightarrow> planning_gflags \<Rightarrow> vehicle_param \<Rightarrow> ReferenceLineInfo \<Rightarrow> optimizer \<Rightarrow> SpeedData
     \<Rightarrow> Status \<times> optimizer"
where
  "SetUpStatesAndBounds ext fl veh_param rli opt speed_data =
     (let o1 = set_up_states fl veh_param rli opt;
          knots = [0..<nat (m_num_of_knots o1)];
          (early, o2) =
             (if FLAGS_use_soft_bound_in_nonlinear_speed_opt fl
              then two_tier_loop ext fl rli speed_data knots (o1\<lparr>m_s_bounds := [], m_s_soft_bounds := []\<rparr>)
              else single_tier_loop rli knots (o1\<lparr>m_s_bounds := []\<rparr>))
      in case early of
           Some status \<Rightarrow> (status, o2)
         | None \<Rightarrow> (Status_OK, o2\<lparr>m_speed_limit := speed_limit (st_graph_data rli),
                                  m_cruise_speed := GetCruiseSpeed rli\<rparr>))"

subsection \<open>OptimizeByQP\<close>

text \<open>
  The problem object is constructed in \<open>Process\<close> from \<open>num_of_knots_\<close>, \<open>delta_t_\<close> and the
  initial state, and configured here; the record is the problem at the call of \<open>Optimize\<close>.
  The reference \<open>x_ref\<close> reads \<open>sp.s()\<close> of a fresh speed point after \<open>EvaluateByTime\<close>,
  whose result is ignored: the value is 0 when the lookup fails.
\<close>

definition speed_qp_problem :: "externals \<Rightarrow> optimizer_config \<Rightarrow> optimizer \<Rightarrow> SpeedData \<Rightarrow> PiecewiseJerkProblem" where
  "speed_qp_problem ext config opt speed_data =
     (let speed_limit_v = max (m_max_speed opt) (m_s_dot_init opt + 1 / 10)
      in \<lparr>num_of_knots = m_num_of_knots opt,
          delta_s = m_delta_t opt,
          x_init = (m_s_init opt, m_s_dot_init opt, m_s_ddot_init opt),
          x_bounds = PerKnot (m_s_bounds opt),
          dx_bounds = (0, speed_limit_v),
          ddx_bounds = (m_s_ddot_min opt, m_s_ddot_max opt),
          dddx_bound = (m_s_dddot_min opt, m_s_dddot_max opt),
          weight_x = 0,
          weight_dx = 0,
          weight_ddx = acc_weight config,
          weight_dddx = jerk_weight config,
          weight_x_ref = ref_s_weight config,
          x_ref = map (\<lambda>i. case EvaluateByTime ext speed_data (real i * m_delta_t opt) of
                              None \<Rightarrow> 0 | Some sp \<Rightarrow> sp_s sp)
                      [0..<nat (m_num_of_knots opt)]\<rparr>)"

definition OptimizeByQP ::
  "externals \<Rightarrow> optimizer_config \<Rightarrow> optimizer \<Rightarrow> SpeedData \<Rightarrow> opt_arrays \<Rightarrow> Status \<times> opt_arrays"
where
  "OptimizeByQP ext config opt speed_data arrays =
     (case speed_problem_Optimize ext (speed_qp_problem ext config opt speed_data) of
        None \<Rightarrow> (Status PLANNING_ERROR ''Speed Optimization by Quadratic Programming failed'', arrays)
      | Some (opt_x, opt_dx, opt_ddx) \<Rightarrow> (Status_OK, (opt_x, opt_dx, opt_ddx)))"

subsection \<open>The NLP stage\<close>

definition CheckSpeedLimitFeasibility :: "optimizer \<Rightarrow> bool" where
  "CheckSpeedLimitFeasibility opt =
     (let kEpsilon = 1 / 1000000;
          init_speed_limit = GetSpeedLimitByS (m_speed_limit opt) (m_s_init opt)
      in if init_speed_limit + kEpsilon < m_s_dot_init opt then False else True)"

text \<open>
  The trajectory both smoothers build from the solver's arrays. \<open>front()\<close> of an empty
  vector is undefined behaviour: \<open>None\<close>.
\<close>

definition trajectory_of :: "opt_arrays \<Rightarrow> real \<Rightarrow> PiecewiseJerkTrajectory1d option" where
  "trajectory_of arrays delta =
     (case arrays of (opt_x, opt_dx, opt_ddx) \<Rightarrow>
        if opt_x = [] \<or> opt_dx = [] \<or> opt_ddx = [] then None
        else Some \<lparr>traj_init = (hd opt_x, hd opt_dx, hd opt_ddx),
                   segments = map (\<lambda>i. ((opt_ddx ! i - opt_ddx ! (i - 1)) / delta, delta))
                                [1..<length opt_ddx]\<rparr>)"

definition SmoothSpeedLimit :: "externals \<Rightarrow> optimizer \<Rightarrow> (Status \<times> optimizer) option" where
  "SmoothSpeedLimit ext opt =
     (let delta = 2;
          speed_ref = map (\<lambda>i. GetSpeedLimitByS (m_speed_limit opt) (real i * delta)) [0..<100];
          piecewise_jerk_problem =
            \<lparr>num_of_knots = int (length speed_ref), delta_s = delta,
             x_init = (speed_ref ! 0, 0, 0),
             x_bounds = Uniform 0 50, dx_bounds = (- 10, 10), ddx_bounds = (- 10, 10),
             dddx_bound = (- 10, 10),
             weight_x = 0, weight_dx = 10, weight_ddx = 10, weight_dddx = 10,
             weight_x_ref = 10, x_ref = speed_ref\<rparr>
      in case path_problem_Optimize ext piecewise_jerk_problem 4000 of
           None \<Rightarrow> Some (Status PLANNING_ERROR ''Smoothing speed limit failed'', opt)
         | Some arrays \<Rightarrow>
             (case trajectory_of arrays delta of
                None \<Rightarrow> None
              | Some smoothed \<Rightarrow> Some (Status_OK, opt\<lparr>m_smoothed_speed_limit := smoothed\<rparr>)))"

text \<open>
  The sampling loop of \<open>SmoothPathCurvature\<close>:
  \<open>for (path_s = front().s(); path_s < back().s() + delta_s; path_s += delta_s)\<close> with
  \<open>delta_s = 0.5\<close>.
\<close>

function sample_path_curvature ::
  "externals \<Rightarrow> DiscretizedPath \<Rightarrow> real \<Rightarrow> real list \<Rightarrow> real list option"
where
  "sample_path_curvature ext cartesian_path path_s path_curvature =
     (if path_s < s (last cartesian_path) + 1 / 2
      then (case Evaluate (InterpolateUsingLinearApproximation ext) cartesian_path path_s of
              None \<Rightarrow> None
            | Some path_point \<Rightarrow>
                sample_path_curvature ext cartesian_path (path_s + 1 / 2)
                  (path_curvature @ [kappa path_point]))
      else Some path_curvature)"
  by pat_completeness auto
termination
proof (relation "measure (\<lambda>(ext, cartesian_path, path_s, path_curvature).
                    nat \<lceil>(s (last cartesian_path) + 1 / 2 - path_s) * 2\<rceil>)")
  show "wf (measure (\<lambda>(ext, cartesian_path, path_s, path_curvature).
                    nat \<lceil>(s (last cartesian_path) + 1 / 2 - path_s) * 2\<rceil>))"
    by simp
next
  fix ext :: externals and cartesian_path :: DiscretizedPath and path_s :: real
    and path_curvature :: "real list" and x2 :: PathPoint
  assume less: "path_s < s (last cartesian_path) + 1 / 2"
  let ?d = "(s (last cartesian_path) + 1 / 2 - path_s) * 2"
  have pos: "0 < ?d" using less by simp
  have step: "(s (last cartesian_path) + 1 / 2 - (path_s + 1 / 2)) * 2 = ?d - 1" by simp
  have "\<lceil>?d - 1\<rceil> = \<lceil>?d\<rceil> - 1" by (rule ceiling_diff_one)
  moreover have "0 < \<lceil>?d\<rceil>" using pos by simp
  ultimately have "nat \<lceil>?d - 1\<rceil> < nat \<lceil>?d\<rceil>" by simp
  then show "((ext, cartesian_path, path_s + 1 / 2, path_curvature @ [kappa x2]),
              (ext, cartesian_path, path_s, path_curvature))
             \<in> measure (\<lambda>(ext, cartesian_path, path_s, path_curvature).
                    nat \<lceil>(s (last cartesian_path) + 1 / 2 - path_s) * 2\<rceil>)"
    unfolding step by simp
qed

declare sample_path_curvature.simps [simp del]

text \<open>\<open>front()\<close> of an empty path is undefined behaviour: \<open>None\<close> (\<open>Process\<close> has returned
  before on an empty path).\<close>

definition SmoothPathCurvature :: "externals \<Rightarrow> optimizer \<Rightarrow> PathData \<Rightarrow> (Status \<times> optimizer) option" where
  "SmoothPathCurvature ext opt path_data =
     (let cartesian_path = discretized_path path_data; delta = 1 / 2
      in if cartesian_path = [] then None
         else
          (case sample_path_curvature ext cartesian_path (s (hd cartesian_path)) [] of
             None \<Rightarrow> None
           | Some path_curvature \<Rightarrow>
              (let path_init_point = hd cartesian_path;
                   piecewise_jerk_problem =
                     \<lparr>num_of_knots = int (length path_curvature), delta_s = delta,
                      x_init = (kappa path_init_point, dkappa path_init_point, ddkappa path_init_point),
                      x_bounds = Uniform (- 1) 1, dx_bounds = (- 10, 10), ddx_bounds = (- 10, 10),
                      dddx_bound = (- 10, 10),
                      weight_x = 0, weight_dx = 10, weight_ddx = 10, weight_dddx = 10,
                      weight_x_ref = 10, x_ref = path_curvature\<rparr>
               in case path_problem_Optimize ext piecewise_jerk_problem 1000 of
                    None \<Rightarrow> Some (Status PLANNING_ERROR ''Smoothing path curvature failed'', opt)
                  | Some arrays \<Rightarrow>
                      (case trajectory_of arrays delta of
                         None \<Rightarrow> None
                       | Some smoothed \<Rightarrow>
                           Some (Status_OK, opt\<lparr>m_smoothed_path_curvature := smoothed\<rparr>)))))"

text \<open>
  \<open>OptimizeByNLP\<close>: the arrays come back changed only after a solve that succeeded.
  \<open>std::vector<double>(num_of_knots_, total_length_)\<close> with a negative count throws and
  ends the process: \<open>None\<close>.
\<close>

definition nlp_interface ::
  "planning_gflags \<Rightarrow> optimizer_config \<Rightarrow> optimizer \<Rightarrow> opt_arrays \<Rightarrow> real list list option
     \<Rightarrow> PiecewiseJerkSpeedNonlinearIpoptInterface"
where
  "nlp_interface fl config opt arrays warm =
     (case arrays of (distance, velocity, acceleration) \<Rightarrow>
       \<lparr>nlp_s_init = m_s_init opt, nlp_s_dot_init = m_s_dot_init opt,
        nlp_s_ddot_init = m_s_ddot_init opt, nlp_delta_t = m_delta_t opt,
        nlp_num_of_knots = m_num_of_knots opt, nlp_total_length = m_total_length opt,
        nlp_s_dot_max = m_s_dot_max opt, nlp_s_ddot_min = m_s_ddot_min opt,
        nlp_s_ddot_max = m_s_ddot_max opt, nlp_s_dddot_min = m_s_dddot_min opt,
        nlp_s_dddot_max = m_s_dddot_max opt,
        safety_bounds = m_s_bounds opt,
        curvature_curve = m_smoothed_path_curvature opt,
        speed_limit_curve = m_smoothed_speed_limit opt,
        warm_start = warm,
        reference_spatial_distance =
          (if FLAGS_use_smoothed_dp_guide_line fl then distance
           else replicate (nat (m_num_of_knots opt)) (m_total_length opt)),
        w_reference_spatial_distance =
          (if FLAGS_use_smoothed_dp_guide_line fl then 5 / 100 else s_potential_weight config),
        soft_safety_bounds =
          (if FLAGS_use_soft_bound_in_nonlinear_speed_opt fl then Some (m_s_soft_bounds opt) else None),
        w_soft_s_bound =
          (if FLAGS_use_soft_bound_in_nonlinear_speed_opt fl then Some (soft_s_bound_weight config)
           else None),
        w_overall_a = acc_weight config,
        w_overall_j = jerk_weight config,
        w_overall_centripetal_acc = lat_acc_weight config,
        reference_speed = m_cruise_speed opt,
        w_reference_speed = ref_v_weight config\<rparr>)"

definition OptimizeByNLP ::
  "externals \<Rightarrow> planning_gflags \<Rightarrow> optimizer_config \<Rightarrow> optimizer \<Rightarrow> opt_arrays
     \<Rightarrow> (Status \<times> opt_arrays) option"
where
  "OptimizeByNLP ext fl config opt arrays =
     (case arrays of (distance, velocity, acceleration) \<Rightarrow>
        if use_warm_start config \<and>
           (distance = [] \<or> velocity = [] \<or> acceleration = []
            \<or> length distance \<noteq> length velocity \<or> length velocity \<noteq> length acceleration)
        then Some (Status PLANNING_ERROR
                     ''Piecewise jerk speed nonlinear optimizer warm start invalid!'', arrays)
        else
          (let warm = (if use_warm_start config
                       then Some (map (\<lambda>i. [distance ! i, velocity ! i, acceleration ! i])
                                    [0..<length distance])
                       else None)
           in if \<not> FLAGS_use_smoothed_dp_guide_line fl \<and> m_num_of_knots opt < 0 then None
              else if ipopt_Initialize ext \<noteq> Solve_Succeeded
              then Some (Status PLANNING_ERROR
                     ''Piecewise jerk speed nonlinear optimizer failed during initialization'', arrays)
              else
                (case ipopt_OptimizeTNLP ext (nlp_interface fl config opt arrays warm) of
                   (status, results) \<Rightarrow>
                     if status = Solve_Succeeded \<or> status = Solved_To_Acceptable_Level
                     then Some (Status_OK, results)
                     else Some (Status PLANNING_ERROR
                                  ''Piecewise jerk speed nonlinear optimizer failed'', arrays))))"

text \<open>
  \<open>optimize_speed_by_nlp_interface\<close>: its three array pointers are addresses of locals of
  \<open>Process\<close>, never null. It returns 0 on every path; what it changes is the speed data
  (cleared on a failure), the arrays and the members.
\<close>

definition optimize_speed_by_nlp_interface ::
  "externals \<Rightarrow> planning_gflags \<Rightarrow> optimizer_config \<Rightarrow> optimizer \<Rightarrow> PathData \<Rightarrow> SpeedData
     \<Rightarrow> opt_arrays \<Rightarrow> (SpeedData \<times> opt_arrays \<times> optimizer) option"
where
  "optimize_speed_by_nlp_interface ext fl config opt path_data speed_data arrays =
     (let speed_limit_check_status = CheckSpeedLimitFeasibility opt
      in if speed_limit_check_status
         then
           (case SmoothPathCurvature ext opt path_data of
              None \<Rightarrow> None
            | Some (path_curvature_smooth_status, o1) \<Rightarrow>
                if \<not> ok path_curvature_smooth_status then Some ([], arrays, o1)
                else
                  (case SmoothSpeedLimit ext o1 of
                     None \<Rightarrow> None
                   | Some (speed_limit_smooth_status, o2) \<Rightarrow>
                       if \<not> ok speed_limit_smooth_status then Some ([], arrays, o2)
                       else
                         (case OptimizeByNLP ext fl config o2 arrays of
                            None \<Rightarrow> None
                          | Some (nlp_smooth_status, arrays') \<Rightarrow>
                              if \<not> ok nlp_smooth_status then Some ([], arrays', o2)
                              else Some (speed_data, arrays', o2))))
         else Some (speed_data, arrays, opt))"

subsection \<open>Process\<close>

text \<open>
  The loop that emits the points after the first: it stops at the first knot whose velocity
  is negative. An index outside an array is undefined behaviour: \<open>None\<close>.
\<close>

fun emit_rest ::
  "real \<Rightarrow> real list \<Rightarrow> real list \<Rightarrow> real list \<Rightarrow> nat list \<Rightarrow> SpeedData \<Rightarrow> SpeedData option"
where
  "emit_rest delta_t distance velocity acceleration [] speed_data = Some speed_data"
| "emit_rest delta_t distance velocity acceleration (i # knots) speed_data =
     (if length velocity \<le> i then None
      else if velocity ! i < 0 then Some speed_data
      else if length distance \<le> i \<or> length acceleration \<le> i then None
      else emit_rest delta_t distance velocity acceleration knots
             (AppendSpeedPoint speed_data (distance ! i) (delta_t * real i) (velocity ! i)
                (acceleration ! i) ((acceleration ! i - acceleration ! (i - 1)) / delta_t)))"

definition emit_speed_data :: "int \<Rightarrow> real \<Rightarrow> opt_arrays \<Rightarrow> SpeedData option" where
  "emit_speed_data n delta_t arrays =
     (case arrays of (distance, velocity, acceleration) \<Rightarrow>
        if distance = [] \<or> velocity = [] \<or> acceleration = [] then None
        else emit_rest delta_t distance velocity acceleration [1..<nat n]
               (AppendSpeedPoint [] (distance ! 0) 0 (velocity ! 0) (acceleration ! 0) 0))"

text \<open>The point the loop appends for knot \<open>i\<close>, on its own.\<close>

definition speed_point_at :: "real \<Rightarrow> real list \<Rightarrow> real list \<Rightarrow> real list \<Rightarrow> nat \<Rightarrow> SpeedPoint" where
  "speed_point_at delta_t distance velocity acceleration i =
     \<lparr>sp_s = distance ! i, sp_t = delta_t * real i, sp_v = velocity ! i, sp_a = acceleration ! i,
      sp_da = (acceleration ! i - acceleration ! (i - 1)) / delta_t\<rparr>"

text \<open>
  \<open>Process\<close>. The output pointer is \<open>None\<close> when null, and the result carries the status, the
  speed data behind the pointer and the members; the whole result is \<open>None\<close> when the run
  ends in undefined behaviour or an abort. The parameter \<open>init_point\<close> is not read. The
  minimum over the speed-limit points is computed into a local that nothing reads, and
  \<open>record_constraints\<close>, \<open>record_qp_info\<close> and \<open>record_nlp_info\<close> write debug records
  only: they are left out.
\<close>

definition Process ::
  "externals \<Rightarrow> planning_gflags \<Rightarrow> optimizer_config \<Rightarrow> vehicle_param \<Rightarrow> ReferenceLineInfo
     \<Rightarrow> optimizer \<Rightarrow> PathData \<Rightarrow> SpeedData option
     \<Rightarrow> (Status \<times> SpeedData option \<times> optimizer) option"
where
  "Process ext fl config veh_param rli opt path_data speed_data_ptr =
     (case speed_data_ptr of
        None \<Rightarrow> Some (Status PLANNING_ERROR ''Null speed_data pointer'', None, opt)
      | Some speed_data \<Rightarrow>
          if discretized_path path_data = []
          then Some (Status PLANNING_ERROR ''Speed Optimizer receives empty path data'',
                     Some speed_data, opt)
          else if ReachedDestination rli then Some (Status_OK, Some speed_data, opt)
          else
            (case SetUpStatesAndBounds ext fl veh_param rli opt speed_data of
               (problem_setups_status, o1) \<Rightarrow>
                 if \<not> ok problem_setups_status then Some (problem_setups_status, Some [], o1)
                 else
                   (case OptimizeByQP ext config o1 speed_data ([], [], []) of
                      (qp_smooth_status, arrays) \<Rightarrow>
                        if \<not> ok qp_smooth_status then Some (qp_smooth_status, Some [], o1)
                        else
                          (case optimize_speed_by_nlp_interface ext fl config o1 path_data
                                  speed_data arrays of
                             None \<Rightarrow> None
                           | Some (speed_data', arrays', o2) \<Rightarrow>
                               (case emit_speed_data (m_num_of_knots o2) (m_delta_t o2) arrays' of
                                  None \<Rightarrow> None
                                | Some emitted \<Rightarrow>
                                    Some (Status_OK, Some (FillEnoughSpeedPoints ext emitted), o2))))))"

section \<open>Sample inputs\<close>

text \<open>Concrete values at which the theorems below are instantiated: a path point with a
  station and a curvature, and a linear interpolation of every attribute that stands for
  the interpolation parameter.\<close>

definition pt :: "real \<Rightarrow> real \<Rightarrow> PathPoint" where
  "pt station k = \<lparr>s = station, x = 0, y = 0, theta = 0, kappa = k, dkappa = 0, ddkappa = 0\<rparr>"

definition lerp :: "PathPoint \<Rightarrow> PathPoint \<Rightarrow> real \<Rightarrow> PathPoint" where
  "lerp p0 p1 q =
     (let w = (q - s p0) / (s p1 - s p0)
      in \<lparr>s = q, x = (1 - w) * x p0 + w * x p1, y = (1 - w) * y p0 + w * y p1,
          theta = (1 - w) * theta p0 + w * theta p1,
          kappa = (1 - w) * kappa p0 + w * kappa p1,
          dkappa = (1 - w) * dkappa p0 + w * dkappa p1,
          ddkappa = (1 - w) * ddkappa p0 + w * ddkappa p1\<rparr>)"

definition sample_speed_point :: "real \<Rightarrow> real \<Rightarrow> real \<Rightarrow> SpeedPoint" where
  "sample_speed_point station tm vel = \<lparr>sp_s = station, sp_t = tm, sp_v = vel, sp_a = 0, sp_da = 0\<rparr>"

definition rough_profile :: SpeedData where
  "rough_profile = [sample_speed_point 0 0 5, sample_speed_point 5 1 5]"

definition brake_profile :: SpeedData where
  "brake_profile = [sample_speed_point 0 0 5, sample_speed_point 2 1 0]"

definition lookup_by_time :: "SpeedData \<Rightarrow> real \<Rightarrow> SpeedPoint option" where
  "lookup_by_time data tm =
     (if length data < 2 \<or> tm < sp_t (hd data) \<or> sp_t (last data) < tm then None
      else Some (sample_speed_point
                   (sp_s (hd data) + (tm - sp_t (hd data)) * (sp_s (last data) - sp_s (hd data))
                                       / (sp_t (last data) - sp_t (hd data)))
                   tm (sp_v (hd data))))"

definition follow_boundary :: STBoundary where
  "follow_boundary =
     \<lparr>boundary_type = FOLLOW,
      GetUnblockSRange = (\<lambda>tm. if 0 \<le> tm \<and> tm \<le> 7 then Some (40 + 10 * tm, 0) else None),
      characteristic_length = 5,
      is_end_interaction_point_valid = True,
      get_end_interaction_poi = \<lparr>time = 1 / 10, s_gap = 6\<rparr>\<rparr>"

definition overtake_boundary :: STBoundary where
  "overtake_boundary =
     \<lparr>boundary_type = OVERTAKE,
      GetUnblockSRange = (\<lambda>tm. Some (200, 5 * tm)),
      characteristic_length = 0,
      is_end_interaction_point_valid = False,
      get_end_interaction_poi = \<lparr>time = 0, s_gap = 0\<rparr>\<rparr>"

definition sample_flags :: planning_gflags where
  "sample_flags =
     \<lparr>FLAGS_use_soft_bound_in_nonlinear_speed_opt = True,
      FLAGS_follow_min_distance = 5,
      FLAGS_follow_time_buffer = 1,
      FLAGS_longitudinal_jerk_lower_bound = - 4,
      FLAGS_longitudinal_jerk_upper_bound = 2,
      FLAGS_use_smoothed_dp_guide_line = False\<rparr>"

definition sample_vehicle :: vehicle_param where
  "sample_vehicle = \<lparr>max_acceleration = 2, max_deceleration = - 6\<rparr>"

definition sample_config :: optimizer_config where
  "sample_config =
     \<lparr>acc_weight = 1, jerk_weight = 1, lat_acc_weight = 1, ref_s_weight = 1, ref_v_weight = 1,
      s_potential_weight = 1, soft_s_bound_weight = 1, use_warm_start = True\<rparr>"

definition sample_reference_line :: "real \<Rightarrow> ReferenceLineInfo" where
  "sample_reference_line init_v =
     \<lparr>ReachedDestination = False, get_max_speed = 10, GetCruiseSpeed = 8,
      emergency_brake_speed_data = brake_profile,
      st_graph_data =
        \<lparr>path_length = 100, total_time_by_conf = 2 / 10, init_point_v = init_v, init_point_a = 0,
         st_boundaries = [follow_boundary],
         speed_limit = \<lparr>speed_limit_points = [(0, 10), (100, 10)],
                        GetSpeedLimitByS = (\<lambda>station. 10)\<rparr>\<rparr>\<rparr>"

text \<open>An OVERTAKE boundary whose lower value lies beyond the path's end, and the reference
  line with a given list of ST boundaries.\<close>

definition wall_boundary :: STBoundary where
  "wall_boundary =
     \<lparr>boundary_type = OVERTAKE,
      GetUnblockSRange = (\<lambda>tm. Some (200, 150)),
      characteristic_length = 0,
      is_end_interaction_point_valid = False,
      get_end_interaction_poi = \<lparr>time = 0, s_gap = 0\<rparr>\<rparr>"

definition sample_reference_line_with :: "STBoundary list \<Rightarrow> ReferenceLineInfo" where
  "sample_reference_line_with boundaries =
     (sample_reference_line 5)
       \<lparr>st_graph_data := (st_graph_data (sample_reference_line 5))\<lparr>st_boundaries := boundaries\<rparr>\<rparr>"

text \<open>An OVERTAKE boundary whose lower value is 50 and a STOP boundary whose upper value
  is 10, at every time.\<close>

definition overtake_at_50 :: STBoundary where
  "overtake_at_50 =
     \<lparr>boundary_type = OVERTAKE,
      GetUnblockSRange = (\<lambda>tm. Some (200, 50)),
      characteristic_length = 0,
      is_end_interaction_point_valid = False,
      get_end_interaction_poi = \<lparr>time = 0, s_gap = 0\<rparr>\<rparr>"

definition stop_at_10 :: STBoundary where
  "stop_at_10 =
     \<lparr>boundary_type = STOP,
      GetUnblockSRange = (\<lambda>tm. Some (10, 0)),
      characteristic_length = 0,
      is_end_interaction_point_valid = False,
      get_end_interaction_poi = \<lparr>time = 0, s_gap = 0\<rparr>\<rparr>"

definition fresh_trajectory :: PiecewiseJerkTrajectory1d where
  "fresh_trajectory = \<lparr>traj_init = (0, 0, 0), segments = []\<rparr>"

definition fresh_optimizer :: optimizer where
  "fresh_optimizer =
     \<lparr>m_max_speed = 0, m_delta_t = 0, m_total_length = 0, m_total_time = 0, m_num_of_knots = 0,
      m_s_init = 0, m_s_dot_init = 0, m_s_ddot_init = 0, m_s_dot_max = 0, m_s_ddot_max = 0,
      m_s_ddot_min = 0, m_s_dddot_min = 0, m_s_dddot_max = 0, m_s_bounds = [], m_s_soft_bounds = [],
      m_speed_limit = \<lparr>speed_limit_points = [], GetSpeedLimitByS = (\<lambda>station. 0)\<rparr>,
      m_cruise_speed = 0, m_smoothed_speed_limit = fresh_trajectory,
      m_smoothed_path_curvature = fresh_trajectory\<rparr>"

text \<open>Three stand-ins for the speed QP solver: one that never converges, one that returns
  given arrays, and one that returns, for a box that is not empty, the upper velocity bound
  at every knot.\<close>

definition failing_qp :: "PiecewiseJerkProblem \<Rightarrow> opt_arrays option" where
  "failing_qp problem = None"

definition fixed_qp :: "opt_arrays \<Rightarrow> PiecewiseJerkProblem \<Rightarrow> opt_arrays option" where
  "fixed_qp arrays problem = Some arrays"

definition box_qp :: "PiecewiseJerkProblem \<Rightarrow> opt_arrays option" where
  "box_qp problem =
     (if fst (dx_bounds problem) \<le> snd (dx_bounds problem)
      then Some (replicate (nat (num_of_knots problem)) 0,
                 replicate (nat (num_of_knots problem)) (snd (dx_bounds problem)),
                 replicate (nat (num_of_knots problem)) 0)
      else None)"

definition sample_path :: PathData where
  "sample_path = \<lparr>discretized_path = [pt 0 0, pt 1 1]\<rparr>"

definition tail_pad :: "SpeedData \<Rightarrow> SpeedData" where
  "tail_pad data = data @ [sample_speed_point (sp_s (last data)) 7 0]"

definition sample_externals ::
  "(PiecewiseJerkProblem \<Rightarrow> opt_arrays option) \<Rightarrow> opt_arrays option \<Rightarrow> ApplicationReturnStatus
     \<Rightarrow> externals" where
  "sample_externals speed_qp smoothing_result nlp_status =
     \<lparr>EvaluateByTime = lookup_by_time,
      speed_problem_Optimize = speed_qp,
      path_problem_Optimize = (\<lambda>problem max_iter. smoothing_result),
      ipopt_Initialize = Solve_Succeeded,
      ipopt_OptimizeTNLP = (\<lambda>problem. (nlp_status, ([0, 1, 2], [9, 9, 9], [0, 0, 0]))),
      FillEnoughSpeedPoints = tail_pad,
      InterpolateUsingLinearApproximation = lerp\<rparr>"

text \<open>Runs of \<open>Process\<close>: the arrays a speed QP returns, and the collaborators of a run
  in which both smoothers succeed and Ipopt does not converge, of a run in which the path
  smoother fails, and of a run in which the speed QP fails.\<close>

definition sample_arrays :: opt_arrays where
  "sample_arrays = ([0, 1 / 2, 1], [5, 5, 5], [0, 0, 0])"

definition externals_nlp_fails :: externals where
  "externals_nlp_fails =
     sample_externals (fixed_qp sample_arrays) (Some ([0, 0], [0, 0], [0, 0])) Solve_Failed"

definition externals_smoothing_fails :: "opt_arrays \<Rightarrow> externals" where
  "externals_smoothing_fails arrays = sample_externals (fixed_qp arrays) None Solve_Failed"

definition externals_qp_fails :: externals where
  "externals_qp_fails = sample_externals failing_qp None Solve_Failed"

definition externals_box_qp :: externals where
  "externals_box_qp = sample_externals box_qp None Solve_Failed"

section \<open>The bisections on partitioned ranges\<close>

lemma lower_bound_unfold:
  "len \<noteq> 0 \<Longrightarrow> p (xs ! (first + len div 2)) \<Longrightarrow>
     lower_bound p xs first len = lower_bound p xs (first + len div 2 + 1) (len - len div 2 - 1)"
  "len \<noteq> 0 \<Longrightarrow> \<not> p (xs ! (first + len div 2)) \<Longrightarrow>
     lower_bound p xs first len = lower_bound p xs first (len div 2)"
  by (subst lower_bound.simps, simp add: Let_def)+

lemma upper_bound_as_lower_bound:
  "upper_bound v xs first len = lower_bound (\<lambda>e. \<not> v e) xs first len"
proof (induction v xs first len rule: upper_bound.induct)
  case (1 v xs first len)
  show ?case
  proof (cases "len = 0")
    case True
    then show ?thesis by (simp add: lower_bound.simps upper_bound.simps)
  next
    case False
    show ?thesis
    proof (cases "v (xs ! (first + len div 2))")
      case True
      have "upper_bound v xs first len = upper_bound v xs first (len div 2)"
        using False True by (subst upper_bound.simps) (simp add: Let_def)
      also have "\<dots> = lower_bound (\<lambda>e. \<not> v e) xs first (len div 2)"
        by (rule "1.IH"(1)[OF False refl refl True])
      also have "\<dots> = lower_bound (\<lambda>e. \<not> v e) xs first len"
        using False True by (simp add: lower_bound_unfold(2))
      finally show ?thesis .
    next
      case nope: False
      have "upper_bound v xs first len
              = upper_bound v xs (first + len div 2 + 1) (len - len div 2 - 1)"
        using False nope by (subst upper_bound.simps) (simp add: Let_def)
      also have "\<dots> = lower_bound (\<lambda>e. \<not> v e) xs (first + len div 2 + 1) (len - len div 2 - 1)"
        by (rule "1.IH"(2)[OF False refl refl nope])
      also have "\<dots> = lower_bound (\<lambda>e. \<not> v e) xs first len"
        using False nope by (simp add: lower_bound_unfold(1))
      finally show ?thesis .
    qed
  qed
qed

text \<open>On a range partitioned by \<open>p\<close> the bisection returns the partition point.\<close>

lemma lower_bound_partition_point:
  assumes "\<forall>i j. first \<le> i \<and> i \<le> j \<and> j < first + len \<and> p (xs ! j) \<longrightarrow> p (xs ! i)"
  shows "first \<le> lower_bound p xs first len \<and> lower_bound p xs first len \<le> first + len
         \<and> (\<forall>i. first \<le> i \<and> i < lower_bound p xs first len \<longrightarrow> p (xs ! i))
         \<and> (\<forall>i. lower_bound p xs first len \<le> i \<and> i < first + len \<longrightarrow> \<not> p (xs ! i))"
  using assms
proof (induction p xs first len rule: lower_bound.induct)
  case (1 p xs first len)
  note part = "1.prems"
  show ?case
  proof (cases "len = 0")
    case True
    then have "lower_bound p xs first len = first"
      by (subst lower_bound.simps) simp
    with True show ?thesis by auto
  next
    case False
    let ?m = "first + len div 2"
    have m_in: "first \<le> ?m" "?m < first + len" using False by auto
    show ?thesis
    proof (cases "p (xs ! ?m)")
      case True
      let ?r = "lower_bound p xs (?m + 1) (len - len div 2 - 1)"
      have eq: "lower_bound p xs first len = ?r"
        using False True by (rule lower_bound_unfold(1))
      have sub: "\<forall>i j. ?m + 1 \<le> i \<and> i \<le> j \<and> j < ?m + 1 + (len - len div 2 - 1) \<and> p (xs ! j)
                   \<longrightarrow> p (xs ! i)"
      proof (intro allI impI)
        fix i j
        assume h: "?m + 1 \<le> i \<and> i \<le> j \<and> j < ?m + 1 + (len - len div 2 - 1) \<and> p (xs ! j)"
        have "?m + 1 + (len - len div 2 - 1) = first + len" using False by auto
        with h have "first \<le> i \<and> i \<le> j \<and> j < first + len \<and> p (xs ! j)" by auto
        with part show "p (xs ! i)" by blast
      qed
      have ih: "?m + 1 \<le> ?r \<and> ?r \<le> ?m + 1 + (len - len div 2 - 1)
                \<and> (\<forall>i. ?m + 1 \<le> i \<and> i < ?r \<longrightarrow> p (xs ! i))
                \<and> (\<forall>i. ?r \<le> i \<and> i < ?m + 1 + (len - len div 2 - 1) \<longrightarrow> \<not> p (xs ! i))"
        by (rule "1.IH"(1)[OF False refl refl True sub])
      have upto: "?m + 1 + (len - len div 2 - 1) = first + len" using False by auto
      have low: "\<forall>i. first \<le> i \<and> i \<le> ?m \<longrightarrow> p (xs ! i)"
        using part True m_in by blast
      have a: "first \<le> ?r" using ih by linarith
      have b: "?r \<le> first + len" using ih upto by linarith
      have c: "\<forall>i. first \<le> i \<and> i < ?r \<longrightarrow> p (xs ! i)"
      proof (intro allI impI)
        fix i assume i: "first \<le> i \<and> i < ?r"
        show "p (xs ! i)"
        proof (cases "i \<le> ?m")
          case True then show ?thesis using low i by blast
        next
          case False then show ?thesis using ih i by simp
        qed
      qed
      have d: "\<forall>i. ?r \<le> i \<and> i < first + len \<longrightarrow> \<not> p (xs ! i)"
        using ih upto by simp
      show ?thesis unfolding eq using a b c d by blast
    next
      case nope: False
      let ?r = "lower_bound p xs first (len div 2)"
      have eq: "lower_bound p xs first len = ?r"
        using False nope by (rule lower_bound_unfold(2))
      have sub: "\<forall>i j. first \<le> i \<and> i \<le> j \<and> j < first + len div 2 \<and> p (xs ! j) \<longrightarrow> p (xs ! i)"
      proof (intro allI impI)
        fix i j
        assume h: "first \<le> i \<and> i \<le> j \<and> j < first + len div 2 \<and> p (xs ! j)"
        with m_in have "first \<le> i \<and> i \<le> j \<and> j < first + len \<and> p (xs ! j)" by auto
        with part show "p (xs ! i)" by blast
      qed
      have ih: "first \<le> ?r \<and> ?r \<le> first + len div 2
                \<and> (\<forall>i. first \<le> i \<and> i < ?r \<longrightarrow> p (xs ! i))
                \<and> (\<forall>i. ?r \<le> i \<and> i < first + len div 2 \<longrightarrow> \<not> p (xs ! i))"
        by (rule "1.IH"(2)[OF False refl refl nope sub])
      have high: "\<forall>i. ?m \<le> i \<and> i < first + len \<longrightarrow> \<not> p (xs ! i)"
        using part nope m_in by blast
      have b: "?r \<le> first + len" using ih by linarith
      have d: "\<forall>i. ?r \<le> i \<and> i < first + len \<longrightarrow> \<not> p (xs ! i)"
      proof (intro allI impI)
        fix i assume i: "?r \<le> i \<and> i < first + len"
        show "\<not> p (xs ! i)"
        proof (cases "i < ?m")
          case True then show ?thesis using ih i by simp
        next
          case False then show ?thesis using high i by simp
        qed
      qed
      show ?thesis unfolding eq using ih b d by blast
    qed
  qed
qed

lemma partition_point_unique:
  fixes r1 r2 n :: nat
  assumes "r1 \<le> n" "r2 \<le> n"
    and "\<forall>i. i < r1 \<longrightarrow> P i" "\<forall>i. r1 \<le> i \<and> i < n \<longrightarrow> \<not> P i"
    and "\<forall>i. i < r2 \<longrightarrow> P i" "\<forall>i. r2 \<le> i \<and> i < n \<longrightarrow> \<not> P i"
  shows "r1 = r2"
proof (rule ccontr)
  assume "r1 \<noteq> r2"
  then consider "r1 < r2" | "r2 < r1" by linarith
  then show False
  proof cases
    case 1
    then have "P r1" "\<not> P r1" using assms by auto
    then show False by simp
  next
    case 2
    then have "P r2" "\<not> P r2" using assms by auto
    then show False by simp
  qed
qed

lemma rev_nth_flip: "i < length xs \<Longrightarrow> rev xs ! (length xs - Suc i) = xs ! i"
proof -
  assume i: "i < length xs"
  then have a: "length xs - Suc i < length xs" by simp
  have b: "length xs - Suc (length xs - Suc i) = i" using i by simp
  show ?thesis using rev_nth[OF a] b by simp
qed

lemma QueryLowerBound_point:
  assumes "sorted (map s path)"
  shows "QueryLowerBound path q \<le> length path
         \<and> (\<forall>i. i < QueryLowerBound path q \<longrightarrow> s (path ! i) < q)
         \<and> (\<forall>i. QueryLowerBound path q \<le> i \<and> i < length path \<longrightarrow> q \<le> s (path ! i))"
proof -
  have part: "\<forall>i j. 0 \<le> i \<and> i \<le> j \<and> j < 0 + length path \<and> s (path ! j) < q
                 \<longrightarrow> s (path ! i) < q"
  proof (intro allI impI)
    fix i j assume h: "0 \<le> i \<and> i \<le> j \<and> j < 0 + length path \<and> s (path ! j) < q"
    then have "map s path ! i \<le> map s path ! j"
      using assms by (intro sorted_nth_mono) auto
    then show "s (path ! i) < q" using h by auto
  qed
  from lower_bound_partition_point[OF part] show ?thesis
    unfolding QueryLowerBound_def by (auto simp: not_less)
qed

lemma QueryUpperBound_rev_point:
  assumes "sorted (map s path)"
  shows "QueryUpperBound (rev path) q \<le> length path
         \<and> (\<forall>i. i < QueryUpperBound (rev path) q \<longrightarrow> q \<le> s (rev path ! i))
         \<and> (\<forall>i. QueryUpperBound (rev path) q \<le> i \<and> i < length path \<longrightarrow> s (rev path ! i) < q)"
proof -
  let ?p = "\<lambda>e. \<not> s e < q"
  have part: "\<forall>i j. 0 \<le> i \<and> i \<le> j \<and> j < 0 + length (rev path) \<and> ?p (rev path ! j)
                 \<longrightarrow> ?p (rev path ! i)"
  proof (intro allI impI)
    fix i j assume h: "0 \<le> i \<and> i \<le> j \<and> j < 0 + length (rev path) \<and> ?p (rev path ! j)"
    then have ij: "i < length path" "j < length path" by auto
    have a: "length path - Suc j < length path" "length path - Suc i < length path"
      using ij by auto
    have "map s path ! (length path - Suc j) \<le> map s path ! (length path - Suc i)"
      using assms h a by (intro sorted_nth_mono) auto
    then have "s (path ! (length path - Suc j)) \<le> s (path ! (length path - Suc i))"
      using a by simp
    then have "s (rev path ! j) \<le> s (rev path ! i)"
      using ij by (simp add: rev_nth)
    then show "?p (rev path ! i)" using h by auto
  qed
  from lower_bound_partition_point[OF part] show ?thesis
    unfolding QueryUpperBound_def upper_bound_as_lower_bound by (auto simp: not_less)
qed

lemma QueryUpperBound_rev:
  assumes "sorted (map s path)"
  shows "QueryUpperBound (rev path) q + QueryLowerBound path q = length path"
proof -
  let ?n = "length path"
  let ?k = "QueryUpperBound (rev path) q"
  let ?m = "QueryLowerBound path q"
  note L = QueryLowerBound_point[OF assms, of q]
  note U = QueryUpperBound_rev_point[OF assms, of q]
  have "?n - ?k = ?m"
  proof (rule partition_point_unique[where n = ?n and P = "\<lambda>i. s (path ! i) < q"])
    show "?n - ?k \<le> ?n" by simp
    show "?m \<le> ?n" using L by simp
    show "\<forall>i. i < ?n - ?k \<longrightarrow> s (path ! i) < q"
    proof (intro allI impI)
      fix i assume i: "i < ?n - ?k"
      then have "?k \<le> ?n - Suc i \<and> ?n - Suc i < ?n" by auto
      then have "s (rev path ! (?n - Suc i)) < q" using U by blast
      moreover have "i < ?n" using i by simp
      ultimately show "s (path ! i) < q" by (simp add: rev_nth_flip)
    qed
    show "\<forall>i. ?n - ?k \<le> i \<and> i < ?n \<longrightarrow> \<not> s (path ! i) < q"
    proof (intro allI impI)
      fix i assume i: "?n - ?k \<le> i \<and> i < ?n"
      then have "?n - Suc i < ?k" using U by auto
      then have "q \<le> s (rev path ! (?n - Suc i))" using U by blast
      then show "\<not> s (path ! i) < q" using i by (simp add: rev_nth_flip)
    qed
    show "\<forall>i. i < ?m \<longrightarrow> s (path ! i) < q" using L by blast
    show "\<forall>i. ?m \<le> i \<and> i < ?n \<longrightarrow> \<not> s (path ! i) < q" using L by (auto simp: not_less)
  qed
  then show ?thesis using U by linarith
qed

section \<open>Evaluate and EvaluateReverse\<close>

text \<open>
  C9. On a non-empty path whose stations are non-decreasing, \<open>Evaluate\<close> clamps: it returns
  the first point when the query is at or before the first station, the last point when
  the query is beyond the last station, and otherwise the interpolation of the two
  neighbouring points whose stations bracket the query (the earlier one strictly below it,
  the later one at or above it).
\<close>

theorem Evaluate_clamps_and_interpolates:
  assumes "path \<noteq> []" and "sorted (map s path)"
  shows "(path_s \<le> s (hd path) \<longrightarrow> Evaluate I path path_s = Some (hd path))
       \<and> (s (last path) < path_s \<longrightarrow> Evaluate I path path_s = Some (last path))
       \<and> (s (hd path) < path_s \<and> path_s \<le> s (last path) \<longrightarrow>
            (\<exists>i. 0 < i \<and> i < length path \<and> s (path ! (i - 1)) < path_s \<and> path_s \<le> s (path ! i)
                 \<and> Evaluate I path path_s = Some (I (path ! (i - 1)) (path ! i) path_s)))"
proof -
  let ?m = "QueryLowerBound path path_s"
  let ?n = "length path"
  note L = QueryLowerBound_point[OF assms(2), of path_s]
  have n: "0 < ?n" using assms(1) by simp
  have hd0: "hd path = path ! 0" using assms(1) by (simp add: hd_conv_nth)
  have lastn: "last path = path ! (?n - 1)" using assms(1) by (simp add: last_conv_nth)
  have c1: "path_s \<le> s (hd path) \<longrightarrow> Evaluate I path path_s = Some (hd path)"
  proof
    assume a: "path_s \<le> s (hd path)"
    have "?m = 0"
    proof (rule ccontr)
      assume "?m \<noteq> 0"
      then have "s (path ! 0) < path_s" using L by simp
      with a hd0 show False by simp
    qed
    then show "Evaluate I path path_s = Some (hd path)"
      using assms(1) by (simp add: Evaluate_def Let_def)
  qed
  have c2: "s (last path) < path_s \<longrightarrow> Evaluate I path path_s = Some (last path)"
  proof
    assume a: "s (last path) < path_s"
    have "?m = ?n"
    proof (rule ccontr)
      assume "?m \<noteq> ?n"
      then have "?m \<le> ?n - 1 \<and> ?n - 1 < ?n" using L n by linarith
      then have "path_s \<le> s (path ! (?n - 1))" using L by blast
      with a lastn show False by simp
    qed
    then show "Evaluate I path path_s = Some (last path)"
      using assms(1) n by (simp add: Evaluate_def Let_def)
  qed
  have c3: "s (hd path) < path_s \<and> path_s \<le> s (last path) \<longrightarrow>
            (\<exists>i. 0 < i \<and> i < length path \<and> s (path ! (i - 1)) < path_s \<and> path_s \<le> s (path ! i)
                 \<and> Evaluate I path path_s = Some (I (path ! (i - 1)) (path ! i) path_s))"
  proof
    assume a: "s (hd path) < path_s \<and> path_s \<le> s (last path)"
    have m0: "?m \<noteq> 0"
    proof
      assume "?m = 0"
      then have "path_s \<le> s (path ! 0)" using L n by simp
      with a hd0 show False by simp
    qed
    have mn: "?m \<noteq> ?n"
    proof
      assume "?m = ?n"
      then have "s (path ! (?n - 1)) < path_s" using L n by simp
      with a lastn show False by simp
    qed
    have "0 < ?m" "?m < ?n" using m0 mn L by auto
    moreover have "s (path ! (?m - 1)) < path_s" using L m0 by simp
    moreover have "path_s \<le> s (path ! ?m)" using L \<open>?m < ?n\<close> by simp
    moreover have "Evaluate I path path_s = Some (I (path ! (?m - 1)) (path ! ?m) path_s)"
      using assms(1) m0 mn by (simp add: Evaluate_def Let_def)
    ultimately show "\<exists>i. 0 < i \<and> i < length path \<and> s (path ! (i - 1)) < path_s \<and> path_s \<le> s (path ! i)
                 \<and> Evaluate I path path_s = Some (I (path ! (i - 1)) (path ! i) path_s)"
      by blast
  qed
  from c1 c2 c3 show ?thesis by blast
qed

theorem Evaluate_clamps_and_interpolates_witness:
  "[pt 0 0, pt 1 1, pt 3 2] \<noteq> [] \<and> sorted (map s [pt 0 0, pt 1 1, pt 3 2])
   \<and> Evaluate lerp [pt 0 0, pt 1 1, pt 3 2] (- 1) = Some (pt 0 0)
   \<and> Evaluate lerp [pt 0 0, pt 1 1, pt 3 2] 5 = Some (pt 3 2)
   \<and> (\<exists>i. 0 < i \<and> i < length [pt 0 0, pt 1 1, pt 3 2]
          \<and> s ([pt 0 0, pt 1 1, pt 3 2] ! (i - 1)) < 2 \<and> 2 \<le> s ([pt 0 0, pt 1 1, pt 3 2] ! i)
          \<and> Evaluate lerp [pt 0 0, pt 1 1, pt 3 2] 2
              = Some (lerp ([pt 0 0, pt 1 1, pt 3 2] ! (i - 1)) ([pt 0 0, pt 1 1, pt 3 2] ! i) 2))"
proof -
  let ?path = "[pt 0 0, pt 1 1, pt 3 2]"
  have h1: "?path \<noteq> []" by simp
  have h2: "sorted (map s ?path)" by (simp add: pt_def)
  have lo: "(- 1 :: real) \<le> s (hd ?path)" by (simp add: pt_def)
  have hi: "s (last ?path) < (5 :: real)" by (simp add: pt_def)
  have mid: "s (hd ?path) < (2 :: real) \<and> (2 :: real) \<le> s (last ?path)" by (simp add: pt_def)
  have a: "Evaluate lerp ?path (- 1) = Some (pt 0 0)"
    using Evaluate_clamps_and_interpolates [OF h1 h2, where path_s = "- 1" and I = lerp] lo
    by simp
  have b: "Evaluate lerp ?path 5 = Some (pt 3 2)"
    using Evaluate_clamps_and_interpolates [OF h1 h2, where path_s = 5 and I = lerp] hi
    by simp
  have c: "\<exists>i. 0 < i \<and> i < length ?path \<and> s (?path ! (i - 1)) < 2 \<and> 2 \<le> s (?path ! i)
          \<and> Evaluate lerp ?path 2 = Some (lerp (?path ! (i - 1)) (?path ! i) 2)"
    using Evaluate_clamps_and_interpolates [OF h1 h2, where path_s = 2 and I = lerp] mid
    by blast
  from h1 h2 a b c show ?thesis by blast
qed

text \<open>
  C10, as the code has it. The lookup of \<open>EvaluateReverse\<close> searches for the first point whose
  station is below the query, which is the partition point of a path stored in reverse
  (stations decreasing). On a path with strictly increasing stations \<open>Evaluate\<close> returns what
  \<open>EvaluateReverse\<close> returns on the reversed path: the same end point when the query is
  outside the stations, and otherwise the interpolation of the same two neighbours, handed
  over in the opposite order.
\<close>

theorem EvaluateReverse_on_reversed_path:
  assumes "path \<noteq> []" and "sorted_wrt (<) (map s path)"
  shows "EvaluateReverse I (rev path) path_s = Evaluate (\<lambda>p0 p1. I p1 p0) path path_s"
proof -
  let ?m = "QueryLowerBound path path_s"
  let ?k = "QueryUpperBound (rev path) path_s"
  let ?n = "length path"
  have srt: "sorted (map s path)"
    using assms(2) by (rule sorted_wrt_mono_rel[rotated]) simp
  have km: "?k + ?m = ?n" by (rule QueryUpperBound_rev[OF srt])
  have n: "0 < ?n" using assms(1) by simp
  show ?thesis
  proof (cases "?m = 0")
    case True
    then have "?k = ?n" using km by simp
    then show ?thesis
      using True assms(1) n by (simp add: Evaluate_def EvaluateReverse_def Let_def last_rev)
  next
    case m0: False
    show ?thesis
    proof (cases "?m = ?n")
      case True
      then have "?k = 0" using km by simp
      then show ?thesis
        using True assms(1) n by (simp add: Evaluate_def EvaluateReverse_def Let_def hd_rev)
    next
      case mn: False
      have m_lt: "?m < ?n" using km mn by linarith
      have k0: "?k \<noteq> 0" "?k \<noteq> ?n" using km m0 mn by auto
      have k_lt: "?k < ?n" "?k - 1 < ?n" using km m0 by auto
      have a: "rev path ! ?k = path ! (?m - 1)"
      proof -
        have "?n - Suc ?k = ?m - 1" using km by linarith
        then show ?thesis using rev_nth[OF k_lt(1)] by simp
      qed
      have b: "rev path ! (?k - 1) = path ! ?m"
      proof -
        have "?n - Suc (?k - 1) = ?m" using km k0 by linarith
        then show ?thesis using rev_nth[OF k_lt(2)] by simp
      qed
      show ?thesis
        using assms(1) m0 mn k0 a b by (simp add: Evaluate_def EvaluateReverse_def Let_def)
    qed
  qed
qed

theorem EvaluateReverse_on_reversed_path_witness:
  "[pt 0 0, pt 1 1, pt 3 2] \<noteq> [] \<and> sorted_wrt (<) (map s [pt 0 0, pt 1 1, pt 3 2])
   \<and> EvaluateReverse lerp (rev [pt 0 0, pt 1 1, pt 3 2]) 2
       = Evaluate (\<lambda>p0 p1. lerp p1 p0) [pt 0 0, pt 1 1, pt 3 2] 2"
proof -
  have h1: "[pt 0 0, pt 1 1, pt 3 2] \<noteq> []" by simp
  have h2: "sorted_wrt (<) (map s [pt 0 0, pt 1 1, pt 3 2])" by (simp add: pt_def)
  from h1 h2 EvaluateReverse_on_reversed_path [OF h1 h2, where I = lerp and path_s = 2]
  show ?thesis by blast
qed

text \<open>
  C10 as stated fails: on the two-point path with stations 0 and 1 (strictly increasing) and
  the query 2, \<open>Evaluate\<close> returns the last point and \<open>EvaluateReverse\<close> the first.
\<close>

theorem Evaluate_EvaluateReverse_differ:
  "[pt 0 0, pt 1 1] \<noteq> [] \<and> sorted_wrt (<) (map s [pt 0 0, pt 1 1])
   \<and> Evaluate lerp [pt 0 0, pt 1 1] 2 = Some (pt 1 1)
   \<and> EvaluateReverse lerp [pt 0 0, pt 1 1] 2 = Some (pt 0 0)
   \<and> Evaluate lerp [pt 0 0, pt 1 1] 2 \<noteq> EvaluateReverse lerp [pt 0 0, pt 1 1] 2"
  by (simp add: Evaluate_def EvaluateReverse_def QueryLowerBound_def QueryUpperBound_def
       lower_bound.simps upper_bound.simps pt_def)

section \<open>The two-tier bounds build\<close>

lemma st_boundary_step_skip:
  "GetUnblockSRange boundary curr_t = None \<Longrightarrow> st_boundary_step fl curr_t dp boundary kb = kb"
  by (simp add: st_boundary_step_def)

lemma st_boundary_step_OTHER:
  "boundary_type boundary = OTHER \<Longrightarrow> st_boundary_step fl curr_t dp boundary kb = kb"
  by (simp add: st_boundary_step_def split: option.splits)

text \<open>The two repairs after an update of the upper bounds, and after an update of the
  lower bounds, with the updated values as they stand.\<close>

lemma repair_upper_pair:
  "(let kb1 = kb\<lparr>s_upper_bound := a\<rparr>;
        kb2 = kb1\<lparr>s_soft_upper_bound := b (s_soft_upper_bound kb1)\<rparr>;
        kb3 = (if s_upper_bound kb2 \<le> s_lower_bound kb2
               then kb2\<lparr>s_upper_bound := s_lower_bound kb2 + k_s_bound_error\<rparr>
               else kb2)
    in (if s_soft_upper_bound kb3 \<le> s_soft_lower_bound kb3
        then kb3\<lparr>s_soft_upper_bound := s_soft_lower_bound kb3 + k_s_bound_error\<rparr>
        else kb3))
   = kb\<lparr>s_upper_bound := (if a \<le> s_lower_bound kb then s_lower_bound kb + 1 / 10 else a),
        s_soft_upper_bound :=
          (if b (s_soft_upper_bound kb) \<le> s_soft_lower_bound kb
           then s_soft_lower_bound kb + 1 / 10 else b (s_soft_upper_bound kb))\<rparr>"
  by (simp add: Let_def k_s_bound_error_def)

lemma repair_lower_pair:
  "(let kb1 = kb\<lparr>s_lower_bound := a\<rparr>;
        kb2 = kb1\<lparr>s_soft_lower_bound := b (s_soft_lower_bound kb1)\<rparr>;
        kb3 = (if s_upper_bound kb2 \<le> s_lower_bound kb2
               then kb2\<lparr>s_lower_bound := s_upper_bound kb2 - k_s_bound_error\<rparr>
               else kb2)
    in (if s_soft_upper_bound kb3 \<le> s_soft_lower_bound kb3
        then kb3\<lparr>s_soft_lower_bound := s_soft_upper_bound kb3 - k_s_bound_error\<rparr>
        else kb3))
   = kb\<lparr>s_lower_bound := (if s_upper_bound kb \<le> a then s_upper_bound kb - 1 / 10 else a),
        s_soft_lower_bound :=
          (if s_soft_upper_bound kb \<le> b (s_soft_lower_bound kb)
           then s_soft_upper_bound kb - 1 / 10 else b (s_soft_lower_bound kb))\<rparr>"
  by (simp add: Let_def k_s_bound_error_def)

lemma end_interaction_window:
  "(if valid \<and> t_end - curr_t < 5 / 100 \<and> t_end - curr_t > - (5 / 100) then a else b)
     = (if valid \<and> \<bar>t_end - curr_t\<bar> < (5 / 100 :: real) then a else (b :: real))"
proof -
  have "(t_end - curr_t < 5 / 100 \<and> t_end - curr_t > - (5 / 100)) = (\<bar>t_end - curr_t\<bar> < 5 / 100)"
    by linarith
  then show ?thesis by presburger
qed

lemma st_boundary_step_STOP:
  assumes "GetUnblockSRange boundary curr_t = Some (u, l)" and "boundary_type boundary = STOP"
  shows "st_boundary_step fl curr_t dp boundary kb =
     (let hard = min (s_upper_bound kb) u;
          soft = min (s_soft_upper_bound kb) u
      in kb\<lparr>s_upper_bound := (if hard \<le> s_lower_bound kb then s_lower_bound kb + 1 / 10 else hard),
            s_soft_upper_bound :=
              (if soft \<le> s_soft_lower_bound kb then s_soft_lower_bound kb + 1 / 10 else soft)\<rparr>)"
proof -
  have "st_boundary_step fl curr_t dp boundary kb =
     (let kb1 = kb\<lparr>s_upper_bound := min (s_upper_bound kb) u\<rparr>;
        kb2 = kb1\<lparr>s_soft_upper_bound := (\<lambda>v. min v u) (s_soft_upper_bound kb1)\<rparr>;
        kb3 = (if s_upper_bound kb2 \<le> s_lower_bound kb2
               then kb2\<lparr>s_upper_bound := s_lower_bound kb2 + k_s_bound_error\<rparr>
               else kb2)
    in (if s_soft_upper_bound kb3 \<le> s_soft_lower_bound kb3
        then kb3\<lparr>s_soft_upper_bound := s_soft_lower_bound kb3 + k_s_bound_error\<rparr>
        else kb3))"
    unfolding st_boundary_step_def assms option.case prod.case BoundaryType.case
    by (rule refl)
  also note repair_upper_pair [where kb = kb and a = "min (s_upper_bound kb) u" and b = "\<lambda>v. min v u"]
  finally show ?thesis unfolding Let_def .
qed

lemma st_boundary_step_YIELD:
  assumes "GetUnblockSRange boundary curr_t = Some (u, l)" and "boundary_type boundary = YIELD"
  shows "st_boundary_step fl curr_t dp boundary kb =
     (let gap = (if is_end_interaction_point_valid boundary
                    \<and> \<bar>time (get_end_interaction_poi boundary) - curr_t\<bar> < 5 / 100
                 then max (characteristic_length boundary) (s_gap (get_end_interaction_poi boundary))
                 else characteristic_length boundary);
          hard = min (s_upper_bound kb) (u - gap);
          soft = min (s_soft_upper_bound kb) u
      in kb\<lparr>s_upper_bound := (if hard \<le> s_lower_bound kb then s_lower_bound kb + 1 / 10 else hard),
            s_soft_upper_bound :=
              (if soft \<le> s_soft_lower_bound kb then s_soft_lower_bound kb + 1 / 10 else soft)\<rparr>)"
proof -
  define gap where "gap = (if is_end_interaction_point_valid boundary
                    \<and> \<bar>time (get_end_interaction_poi boundary) - curr_t\<bar> < 5 / 100
                 then max (characteristic_length boundary) (s_gap (get_end_interaction_poi boundary))
                 else characteristic_length boundary)"
  have "st_boundary_step fl curr_t dp boundary kb =
     (let kb1 = kb\<lparr>s_upper_bound := min (s_upper_bound kb) (u - gap)\<rparr>;
        kb2 = kb1\<lparr>s_soft_upper_bound := (\<lambda>v. min v u) (s_soft_upper_bound kb1)\<rparr>;
        kb3 = (if s_upper_bound kb2 \<le> s_lower_bound kb2
               then kb2\<lparr>s_upper_bound := s_lower_bound kb2 + k_s_bound_error\<rparr>
               else kb2)
    in (if s_soft_upper_bound kb3 \<le> s_soft_lower_bound kb3
        then kb3\<lparr>s_soft_upper_bound := s_soft_lower_bound kb3 + k_s_bound_error\<rparr>
        else kb3))"
    unfolding st_boundary_step_def assms option.case prod.case BoundaryType.case Let_def
      end_interaction_window gap_def
    by (rule refl)
  also note repair_upper_pair [where kb = kb and a = "min (s_upper_bound kb) (u - gap)"
                                and b = "\<lambda>v. min v u"]
  finally show ?thesis unfolding Let_def gap_def .
qed

lemma st_boundary_step_FOLLOW:
  assumes "GetUnblockSRange boundary curr_t = Some (u, l)" and "boundary_type boundary = FOLLOW"
  shows "st_boundary_step fl curr_t dp boundary kb =
     (let gap = (if is_end_interaction_point_valid boundary
                    \<and> \<bar>time (get_end_interaction_poi boundary) - curr_t\<bar> < 5 / 100
                 then max (characteristic_length boundary) (s_gap (get_end_interaction_poi boundary))
                 else characteristic_length boundary);
          hard = min (s_upper_bound kb) (u - gap);
          soft = min (s_soft_upper_bound kb)
                   (u - (FLAGS_follow_min_distance fl + min 7 (FLAGS_follow_time_buffer fl * sp_v dp)))
      in kb\<lparr>s_upper_bound := (if hard \<le> s_lower_bound kb then s_lower_bound kb + 1 / 10 else hard),
            s_soft_upper_bound :=
              (if soft \<le> s_soft_lower_bound kb then s_soft_lower_bound kb + 1 / 10 else soft)\<rparr>)"
proof -
  define gap where "gap = (if is_end_interaction_point_valid boundary
                    \<and> \<bar>time (get_end_interaction_poi boundary) - curr_t\<bar> < 5 / 100
                 then max (characteristic_length boundary) (s_gap (get_end_interaction_poi boundary))
                 else characteristic_length boundary)"
  define dist where "dist = FLAGS_follow_min_distance fl + min 7 (FLAGS_follow_time_buffer fl * sp_v dp)"
  have "st_boundary_step fl curr_t dp boundary kb =
     (let kb1 = kb\<lparr>s_upper_bound := min (s_upper_bound kb) (u - gap)\<rparr>;
        kb2 = kb1\<lparr>s_soft_upper_bound := (\<lambda>v. min v (u - dist)) (s_soft_upper_bound kb1)\<rparr>;
        kb3 = (if s_upper_bound kb2 \<le> s_lower_bound kb2
               then kb2\<lparr>s_upper_bound := s_lower_bound kb2 + k_s_bound_error\<rparr>
               else kb2)
    in (if s_soft_upper_bound kb3 \<le> s_soft_lower_bound kb3
        then kb3\<lparr>s_soft_upper_bound := s_soft_lower_bound kb3 + k_s_bound_error\<rparr>
        else kb3))"
    unfolding st_boundary_step_def assms option.case prod.case BoundaryType.case Let_def
      end_interaction_window gap_def dist_def
    by (rule refl)
  also note repair_upper_pair [where kb = kb and a = "min (s_upper_bound kb) (u - gap)"
                                and b = "\<lambda>v. min v (u - dist)"]
  finally show ?thesis unfolding Let_def gap_def dist_def .
qed

lemma st_boundary_step_OVERTAKE:
  assumes "GetUnblockSRange boundary curr_t = Some (u, l)" and "boundary_type boundary = OVERTAKE"
  shows "st_boundary_step fl curr_t dp boundary kb =
     (let hard = max (s_lower_bound kb) l;
          soft = max (s_soft_lower_bound kb) (l + 10)
      in kb\<lparr>s_lower_bound := (if s_upper_bound kb \<le> hard then s_upper_bound kb - 1 / 10 else hard),
            s_soft_lower_bound :=
              (if s_soft_upper_bound kb \<le> soft then s_soft_upper_bound kb - 1 / 10 else soft)\<rparr>)"
proof -
  have "st_boundary_step fl curr_t dp boundary kb =
     (let kb1 = kb\<lparr>s_lower_bound := max (s_lower_bound kb) l\<rparr>;
        kb2 = kb1\<lparr>s_soft_lower_bound := (\<lambda>v. max v (l + 10)) (s_soft_lower_bound kb1)\<rparr>;
        kb3 = (if s_upper_bound kb2 \<le> s_lower_bound kb2
               then kb2\<lparr>s_lower_bound := s_upper_bound kb2 - k_s_bound_error\<rparr>
               else kb2)
    in (if s_soft_upper_bound kb3 \<le> s_soft_lower_bound kb3
        then kb3\<lparr>s_soft_lower_bound := s_soft_upper_bound kb3 - k_s_bound_error\<rparr>
        else kb3))"
    unfolding st_boundary_step_def assms option.case prod.case BoundaryType.case
      k_overtake_safe_dist_def
    by (rule refl)
  also note repair_lower_pair [where kb = kb and a = "max (s_lower_bound kb) l"
                                and b = "\<lambda>v. max v (l + 10)"]
  finally show ?thesis unfolding Let_def .
qed


lemma upper_repaired:
  assumes "kb' = kb\<lparr>s_upper_bound := (if hard \<le> s_lower_bound kb then s_lower_bound kb + 1 / 10 else hard),
                      s_soft_upper_bound := (if soft \<le> s_soft_lower_bound kb
                                             then s_soft_lower_bound kb + 1 / 10 else soft)\<rparr>"
  shows "s_lower_bound kb' < s_upper_bound kb' \<and> s_soft_lower_bound kb' < s_soft_upper_bound kb'"
  unfolding assms by simp

lemma lower_repaired:
  assumes "kb' = kb\<lparr>s_lower_bound := (if s_upper_bound kb \<le> hard then s_upper_bound kb - 1 / 10 else hard),
                      s_soft_lower_bound := (if s_soft_upper_bound kb \<le> soft
                                             then s_soft_upper_bound kb - 1 / 10 else soft)\<rparr>"
  shows "s_lower_bound kb' < s_upper_bound kb' \<and> s_soft_lower_bound kb' < s_soft_upper_bound kb'"
  unfolding assms by simp

lemma st_boundary_step_applied:
  assumes "GetUnblockSRange boundary curr_t = Some (u, l)" and "boundary_type boundary \<noteq> OTHER"
  shows "s_lower_bound (st_boundary_step fl curr_t dp boundary kb)
           < s_upper_bound (st_boundary_step fl curr_t dp boundary kb)
       \<and> s_soft_lower_bound (st_boundary_step fl curr_t dp boundary kb)
           < s_soft_upper_bound (st_boundary_step fl curr_t dp boundary kb)"
proof (cases "boundary_type boundary")
  case STOP
  show ?thesis
    by (rule upper_repaired) (rule st_boundary_step_STOP [OF assms(1) STOP, unfolded Let_def])
next
  case YIELD
  show ?thesis
    by (rule upper_repaired) (rule st_boundary_step_YIELD [OF assms(1) YIELD, unfolded Let_def])
next
  case FOLLOW
  show ?thesis
    by (rule upper_repaired) (rule st_boundary_step_FOLLOW [OF assms(1) FOLLOW, unfolded Let_def])
next
  case OVERTAKE
  show ?thesis
    by (rule lower_repaired) (rule st_boundary_step_OVERTAKE [OF assms(1) OVERTAKE, unfolded Let_def])
next
  case OTHER
  with assms(2) show ?thesis by simp
qed

lemma st_boundary_step_cases:
  "st_boundary_step fl curr_t dp boundary kb = kb
   \<or> (s_lower_bound (st_boundary_step fl curr_t dp boundary kb)
           < s_upper_bound (st_boundary_step fl curr_t dp boundary kb)
       \<and> s_soft_lower_bound (st_boundary_step fl curr_t dp boundary kb)
           < s_soft_upper_bound (st_boundary_step fl curr_t dp boundary kb))"
proof (cases "GetUnblockSRange boundary curr_t")
  case None
  then show ?thesis by (simp add: st_boundary_step_skip)
next
  case (Some ul)
  then obtain u l where ul: "GetUnblockSRange boundary curr_t = Some (u, l)" by (cases ul) simp
  show ?thesis
  proof (cases "boundary_type boundary = OTHER")
    case True
    then show ?thesis by (simp add: st_boundary_step_OTHER)
  next
    case False
    from st_boundary_step_applied [OF ul False] show ?thesis by blast
  qed
qed

lemma fold_st_boundary_step_nonempty:
  assumes "(s_lower_bound kb < s_upper_bound kb \<and> s_soft_lower_bound kb < s_soft_upper_bound kb)
           \<or> (\<exists>b \<in> set boundaries. GetUnblockSRange b curr_t \<noteq> None \<and> boundary_type b \<noteq> OTHER)"
  shows "s_lower_bound (fold (st_boundary_step fl curr_t dp) boundaries kb)
           < s_upper_bound (fold (st_boundary_step fl curr_t dp) boundaries kb)
       \<and> s_soft_lower_bound (fold (st_boundary_step fl curr_t dp) boundaries kb)
           < s_soft_upper_bound (fold (st_boundary_step fl curr_t dp) boundaries kb)"
  using assms
proof (induction boundaries arbitrary: kb)
  case Nil
  then show ?case by simp
next
  case (Cons b boundaries)
  let ?kb1 = "st_boundary_step fl curr_t dp b kb"
  have "(s_lower_bound ?kb1 < s_upper_bound ?kb1 \<and> s_soft_lower_bound ?kb1 < s_soft_upper_bound ?kb1)
        \<or> (\<exists>b \<in> set boundaries. GetUnblockSRange b curr_t \<noteq> None \<and> boundary_type b \<noteq> OTHER)"
  proof (cases "GetUnblockSRange b curr_t \<noteq> None \<and> boundary_type b \<noteq> OTHER")
    case True
    then obtain u l where "GetUnblockSRange b curr_t = Some (u, l)" by auto
    from st_boundary_step_applied [OF this] True show ?thesis by blast
  next
    case False
    then have same: "?kb1 = kb"
      using st_boundary_step_skip st_boundary_step_OTHER by blast
    from Cons.prems False show ?thesis unfolding same by auto
  qed
  from Cons.IH [OF this] show ?case by simp
qed

lemma fold_st_boundary_step_ordered:
  assumes "s_lower_bound kb \<le> s_upper_bound kb"
  shows "s_lower_bound (fold (st_boundary_step fl curr_t dp) boundaries kb)
           \<le> s_upper_bound (fold (st_boundary_step fl curr_t dp) boundaries kb)"
  using assms
proof (induction boundaries arbitrary: kb)
  case Nil
  then show ?case by simp
next
  case (Cons b boundaries)
  have "s_lower_bound (st_boundary_step fl curr_t dp b kb)
          \<le> s_upper_bound (st_boundary_step fl curr_t dp b kb)"
    using st_boundary_step_cases [of fl curr_t dp b kb] Cons.prems by force
  from Cons.IH [OF this] show ?case by simp
qed

lemma two_tier_knot_bounds_Some:
  assumes "two_tier_knot_bounds ext fl rli speed_data total_length curr_t = Some kb"
  shows "\<exists>dp. (st_boundaries (st_graph_data rli) \<noteq> [] \<longrightarrow> EvaluateByTime ext speed_data curr_t = Some dp)
            \<and> kb = (let kb1 = fold (st_boundary_step fl curr_t dp) (st_boundaries (st_graph_data rli))
                                 \<lparr>s_lower_bound = 0, s_upper_bound = total_length,
                                  s_soft_lower_bound = 0, s_soft_upper_bound = total_length\<rparr>
                     in if st_boundaries (st_graph_data rli) = [] then kb1
                        else case EvaluateByTime ext (emergency_brake_speed_data rli) curr_t of
                               None \<Rightarrow> kb1
                             | Some p \<Rightarrow> kb1\<lparr>s_upper_bound := max (s_upper_bound kb1) (sp_s p + 2 / 10)\<rparr>)"
proof (cases "st_boundaries (st_graph_data rli) = []")
  case True
  with assms show ?thesis
    by (simp add: two_tier_knot_bounds_def is_st_boundaries_empty_def)
next
  case False
  show ?thesis
  proof (cases "EvaluateByTime ext speed_data curr_t")
    case None
    with assms False show ?thesis
      by (simp add: two_tier_knot_bounds_def is_st_boundaries_empty_def)
  next
    case (Some dp)
    show ?thesis
    proof (cases "EvaluateByTime ext (emergency_brake_speed_data rli) curr_t")
      case None
      with assms False Some show ?thesis
        by (intro exI [of _ dp]) (simp add: two_tier_knot_bounds_def is_st_boundaries_empty_def)
    next
      case (Some p)
      with assms False \<open>EvaluateByTime ext speed_data curr_t = Some dp\<close> show ?thesis
        by (intro exI [of _ dp])
           (simp add: two_tier_knot_bounds_def is_st_boundaries_empty_def Let_def)
    qed
  qed
qed

lemma two_tier_knot_bounds_ordered:
  assumes "0 \<le> total_length"
    and "two_tier_knot_bounds ext fl rli speed_data total_length curr_t = Some kb"
  shows "s_lower_bound kb \<le> s_upper_bound kb"
proof -
  let ?kb0 = "\<lparr>s_lower_bound = 0, s_upper_bound = total_length,
              s_soft_lower_bound = 0, s_soft_upper_bound = total_length\<rparr>"
  from two_tier_knot_bounds_Some [OF assms(2)] obtain dp where
    kb: "kb = (let kb1 = fold (st_boundary_step fl curr_t dp) (st_boundaries (st_graph_data rli)) ?kb0
               in if st_boundaries (st_graph_data rli) = [] then kb1
                  else case EvaluateByTime ext (emergency_brake_speed_data rli) curr_t of
                         None \<Rightarrow> kb1
                       | Some p \<Rightarrow> kb1\<lparr>s_upper_bound := max (s_upper_bound kb1) (sp_s p + 2 / 10)\<rparr>)"
    by blast
  define kb1 where "kb1 = fold (st_boundary_step fl curr_t dp) (st_boundaries (st_graph_data rli)) ?kb0"
  have ord: "s_lower_bound kb1 \<le> s_upper_bound kb1"
    unfolding kb1_def by (rule fold_st_boundary_step_ordered) (simp add: assms(1))
  have "s_lower_bound kb = s_lower_bound kb1 \<and> s_upper_bound kb1 \<le> s_upper_bound kb"
    unfolding kb Let_def kb1_def [symmetric] by (simp split: option.splits)
  with ord show ?thesis by linarith
qed


lemma messages_differ: "msg_dp_lookup_failed \<noteq> msg_bounds_crossed"
  by (simp add: msg_dp_lookup_failed_def msg_bounds_crossed_def)

lemma two_tier_loop_never_crossed:
  assumes "0 \<le> m_total_length opt"
  shows "fst (two_tier_loop ext fl rli speed_data knots opt)
           \<noteq> Some (Status PLANNING_ERROR msg_bounds_crossed)"
  using assms
proof (induction knots arbitrary: opt)
  case Nil
  then show ?case by simp
next
  case (Cons i knots)
  show ?case
  proof (cases "two_tier_knot_bounds ext fl rli speed_data (m_total_length opt)
                  (real i * m_delta_t opt)")
    case None
    then show ?thesis by (simp add: messages_differ)
  next
    case (Some kb)
    have ord: "s_lower_bound kb \<le> s_upper_bound kb"
      by (rule two_tier_knot_bounds_ordered [OF Cons.prems Some])
    let ?opt1 = "opt\<lparr>m_s_soft_bounds := m_s_soft_bounds opt @ [(s_soft_lower_bound kb, s_soft_upper_bound kb)],
                      m_s_bounds := m_s_bounds opt @ [(s_lower_bound kb, s_upper_bound kb)]\<rparr>"
    have "0 \<le> m_total_length ?opt1" using Cons.prems by simp
    from Cons.IH [OF this] Some ord show ?thesis by simp
  qed
qed


lemma set_up_states_fields:
  "m_total_length (set_up_states fl veh_param rli opt) = path_length (st_graph_data rli)"
  "m_delta_t (set_up_states fl veh_param rli opt) = 1 / 10"
  "m_max_speed (set_up_states fl veh_param rli opt) = get_max_speed rli"
  "m_s_dot_init (set_up_states fl veh_param rli opt) = init_point_v (st_graph_data rli)"
  "m_num_of_knots (set_up_states fl veh_param rli opt)
     = static_cast_int (total_time_by_conf (st_graph_data rli) / (1 / 10)) + 1"
  by (simp_all add: set_up_states_def Let_def)

lemma two_tier_loop_keeps:
  "m_max_speed (snd (two_tier_loop ext fl rli speed_data knots opt)) = m_max_speed opt
   \<and> m_s_dot_init (snd (two_tier_loop ext fl rli speed_data knots opt)) = m_s_dot_init opt
   \<and> m_delta_t (snd (two_tier_loop ext fl rli speed_data knots opt)) = m_delta_t opt
   \<and> m_num_of_knots (snd (two_tier_loop ext fl rli speed_data knots opt)) = m_num_of_knots opt"
proof (induction knots arbitrary: opt)
  case Nil
  then show ?case by simp
next
  case (Cons i knots)
  show ?case
  proof (cases "two_tier_knot_bounds ext fl rli speed_data (m_total_length opt)
                  (real i * m_delta_t opt)")
    case None
    then show ?thesis by simp
  next
    case (Some kb)
    let ?opt1 = "opt\<lparr>m_s_soft_bounds := m_s_soft_bounds opt @ [(s_soft_lower_bound kb, s_soft_upper_bound kb)],
                      m_s_bounds := m_s_bounds opt @ [(s_lower_bound kb, s_upper_bound kb)]\<rparr>"
    from Cons.IH [of ?opt1] Some show ?thesis by simp
  qed
qed

lemma single_tier_loop_keeps:
  "m_max_speed (snd (single_tier_loop rli knots opt)) = m_max_speed opt
   \<and> m_s_dot_init (snd (single_tier_loop rli knots opt)) = m_s_dot_init opt
   \<and> m_delta_t (snd (single_tier_loop rli knots opt)) = m_delta_t opt
   \<and> m_num_of_knots (snd (single_tier_loop rli knots opt)) = m_num_of_knots opt"
proof (induction knots arbitrary: opt)
  case Nil
  then show ?case by simp
next
  case (Cons i knots)
  let ?lu = "fold (single_tier_step (real i * m_delta_t opt)) (st_boundaries (st_graph_data rli))
                 (0, m_total_length opt)"
  from Cons.IH [of "opt\<lparr>m_s_bounds := m_s_bounds opt @ [?lu]\<rparr>"] show ?case
    by (simp add: Let_def)
qed

text \<open>The state in which the two-tier loop starts, and what \<open>SetUpStatesAndBounds\<close> returns
  in terms of the loop.\<close>

lemma SetUpStatesAndBounds_two_tier:
  assumes "FLAGS_use_soft_bound_in_nonlinear_speed_opt fl"
  shows "fst (SetUpStatesAndBounds ext fl veh_param rli opt speed_data)
           = (case fst (two_tier_loop ext fl rli speed_data
                          [0..<nat (m_num_of_knots (set_up_states fl veh_param rli opt))]
                          ((set_up_states fl veh_param rli opt)\<lparr>m_s_bounds := [], m_s_soft_bounds := []\<rparr>)) of
                Some status \<Rightarrow> status | None \<Rightarrow> Status_OK)"
    and "m_s_bounds (snd (SetUpStatesAndBounds ext fl veh_param rli opt speed_data))
           = m_s_bounds (snd (two_tier_loop ext fl rli speed_data
                          [0..<nat (m_num_of_knots (set_up_states fl veh_param rli opt))]
                          ((set_up_states fl veh_param rli opt)\<lparr>m_s_bounds := [], m_s_soft_bounds := []\<rparr>)))"
  using assms
  by (simp_all add: SetUpStatesAndBounds_def Let_def split: prod.splits option.splits)


text \<open>The knot body returns bounds whenever the rough-profile lookup succeeds, and without
  a lookup when there are no ST boundaries.\<close>

lemma two_tier_knot_bounds_eq:
  assumes "st_boundaries (st_graph_data rli) \<noteq> []"
    and "EvaluateByTime ext speed_data curr_t = Some dp"
  shows "two_tier_knot_bounds ext fl rli speed_data total_length curr_t =
           Some (let kb1 = fold (st_boundary_step fl curr_t dp) (st_boundaries (st_graph_data rli))
                             \<lparr>s_lower_bound = 0, s_upper_bound = total_length,
                              s_soft_lower_bound = 0, s_soft_upper_bound = total_length\<rparr>
                 in case EvaluateByTime ext (emergency_brake_speed_data rli) curr_t of
                      None \<Rightarrow> kb1
                    | Some p \<Rightarrow> kb1\<lparr>s_upper_bound := max (s_upper_bound kb1) (sp_s p + 2 / 10)\<rparr>)"
proof (cases "EvaluateByTime ext (emergency_brake_speed_data rli) curr_t")
  case None
  with assms show ?thesis
    by (simp add: two_tier_knot_bounds_def is_st_boundaries_empty_def Let_def)
next
  case (Some p)
  with assms show ?thesis
    by (simp add: two_tier_knot_bounds_def is_st_boundaries_empty_def Let_def)
qed

lemma two_tier_knot_bounds_no_boundaries:
  assumes "st_boundaries (st_graph_data rli) = []"
  shows "two_tier_knot_bounds ext fl rli speed_data total_length curr_t =
           Some \<lparr>s_lower_bound = 0, s_upper_bound = total_length,
                 s_soft_lower_bound = 0, s_soft_upper_bound = total_length\<rparr>"
  using assms by (simp add: two_tier_knot_bounds_def is_st_boundaries_empty_def)

lemma two_tier_knot_bounds_total:
  assumes "EvaluateByTime ext speed_data curr_t \<noteq> None"
  shows "\<exists>kb. two_tier_knot_bounds ext fl rli speed_data total_length curr_t = Some kb"
proof (cases "st_boundaries (st_graph_data rli) = []")
  case True
  from two_tier_knot_bounds_no_boundaries [OF True] show ?thesis by blast
next
  case False
  from assms obtain dp where "EvaluateByTime ext speed_data curr_t = Some dp" by auto
  from two_tier_knot_bounds_eq [OF False this] show ?thesis by blast
qed

text \<open>Both lists the loop has stored when it ends: one hard and one soft pair per knot it
  got through, and every knot when it ends without an early return.\<close>

lemma two_tier_loop_stored_pairs:
  assumes "two_tier_loop ext fl rli speed_data knots opt = (early, opt')"
  shows "\<exists>k \<le> length knots.
           m_s_bounds opt' = m_s_bounds opt @
              map (\<lambda>i. case two_tier_knot_bounds ext fl rli speed_data (m_total_length opt)
                               (real i * m_delta_t opt) of
                          Some kb \<Rightarrow> (s_lower_bound kb, s_upper_bound kb))
                  (take k knots)
         \<and> m_s_soft_bounds opt' = m_s_soft_bounds opt @
              map (\<lambda>i. case two_tier_knot_bounds ext fl rli speed_data (m_total_length opt)
                               (real i * m_delta_t opt) of
                          Some kb \<Rightarrow> (s_soft_lower_bound kb, s_soft_upper_bound kb))
                  (take k knots)
         \<and> (\<forall>i \<in> set (take k knots).
               two_tier_knot_bounds ext fl rli speed_data (m_total_length opt)
                 (real i * m_delta_t opt) \<noteq> None)
         \<and> (early = None \<longrightarrow> k = length knots)"
  using assms
proof (induction knots arbitrary: opt)
  case Nil
  then show ?case by simp
next
  case (Cons i knots)
  let ?f = "\<lambda>opt i. case two_tier_knot_bounds ext fl rli speed_data (m_total_length opt)
                               (real i * m_delta_t opt) of
                          Some kb \<Rightarrow> (s_lower_bound kb, s_upper_bound kb)"
  let ?g = "\<lambda>opt i. case two_tier_knot_bounds ext fl rli speed_data (m_total_length opt)
                               (real i * m_delta_t opt) of
                          Some kb \<Rightarrow> (s_soft_lower_bound kb, s_soft_upper_bound kb)"
  show ?case
  proof (cases "two_tier_knot_bounds ext fl rli speed_data (m_total_length opt)
                  (real i * m_delta_t opt)")
    case None
    with Cons.prems have "opt' = opt" "early \<noteq> None" by auto
    then show ?thesis by (intro exI [of _ 0]) simp
  next
    case (Some kb)
    show ?thesis
    proof (cases "s_lower_bound kb > s_upper_bound kb")
      case True
      with Cons.prems Some have "opt' = opt" "early \<noteq> None" by auto
      then show ?thesis by (intro exI [of _ 0]) simp
    next
      case False
      let ?opt1 = "opt\<lparr>m_s_soft_bounds := m_s_soft_bounds opt @ [(s_soft_lower_bound kb, s_soft_upper_bound kb)],
                      m_s_bounds := m_s_bounds opt @ [(s_lower_bound kb, s_upper_bound kb)]\<rparr>"
      have run: "two_tier_loop ext fl rli speed_data knots ?opt1 = (early, opt')"
        using Cons.prems Some False by simp
      from Cons.IH [OF run] obtain k where k: "k \<le> length knots"
        and hard: "m_s_bounds opt' = m_s_bounds ?opt1 @ map (?f ?opt1) (take k knots)"
        and soft: "m_s_soft_bounds opt' = m_s_soft_bounds ?opt1 @ map (?g ?opt1) (take k knots)"
        and some: "\<forall>i \<in> set (take k knots).
               two_tier_knot_bounds ext fl rli speed_data (m_total_length ?opt1)
                 (real i * m_delta_t ?opt1) \<noteq> None"
        and full: "early = None \<longrightarrow> k = length knots"
        by blast
      have same: "?f ?opt1 = ?f opt" "?g ?opt1 = ?g opt" by simp_all
      have head: "?f opt i = (s_lower_bound kb, s_upper_bound kb)"
        "?g opt i = (s_soft_lower_bound kb, s_soft_upper_bound kb)" using Some by simp_all
      have "m_s_bounds opt' = m_s_bounds opt @ map (?f opt) (take (Suc k) (i # knots))"
        using hard head unfolding same by simp
      moreover have "m_s_soft_bounds opt' = m_s_soft_bounds opt @ map (?g opt) (take (Suc k) (i # knots))"
        using soft head unfolding same by simp
      moreover have "\<forall>j \<in> set (take (Suc k) (i # knots)).
               two_tier_knot_bounds ext fl rli speed_data (m_total_length opt)
                 (real j * m_delta_t opt) \<noteq> None"
        using some Some by simp
      moreover have "Suc k \<le> length (i # knots)" using k by simp
      moreover have "early = None \<longrightarrow> Suc k = length (i # knots)" using full by simp
      ultimately show ?thesis by blast
    qed
  qed
qed

lemma two_tier_loop_completes:
  assumes "\<forall>i \<in> set knots. \<exists>kb.
             two_tier_knot_bounds ext fl rli speed_data (m_total_length opt) (real i * m_delta_t opt)
               = Some kb \<and> s_lower_bound kb \<le> s_upper_bound kb"
  shows "fst (two_tier_loop ext fl rli speed_data knots opt) = None"
  using assms
proof (induction knots arbitrary: opt)
  case Nil
  then show ?case by simp
next
  case (Cons i knots)
  from Cons.prems obtain kb where
    kb: "two_tier_knot_bounds ext fl rli speed_data (m_total_length opt) (real i * m_delta_t opt)
           = Some kb" and ord: "s_lower_bound kb \<le> s_upper_bound kb"
    by auto
  let ?opt1 = "opt\<lparr>m_s_soft_bounds := m_s_soft_bounds opt @ [(s_soft_lower_bound kb, s_soft_upper_bound kb)],
                      m_s_bounds := m_s_bounds opt @ [(s_lower_bound kb, s_upper_bound kb)]\<rparr>"
  have "\<forall>i \<in> set knots. \<exists>kb.
             two_tier_knot_bounds ext fl rli speed_data (m_total_length ?opt1) (real i * m_delta_t ?opt1)
               = Some kb \<and> s_lower_bound kb \<le> s_upper_bound kb"
    using Cons.prems by simp
  from Cons.IH [OF this] kb ord show ?case by simp
qed

lemma SetUpStatesAndBounds_two_tier_soft:
  assumes "FLAGS_use_soft_bound_in_nonlinear_speed_opt fl"
  shows "m_s_soft_bounds (snd (SetUpStatesAndBounds ext fl veh_param rli opt speed_data))
           = m_s_soft_bounds (snd (two_tier_loop ext fl rli speed_data
                          [0..<nat (m_num_of_knots (set_up_states fl veh_param rli opt))]
                          ((set_up_states fl veh_param rli opt)\<lparr>m_s_bounds := [], m_s_soft_bounds := []\<rparr>)))"
  using assms
  by (simp add: SetUpStatesAndBounds_def Let_def split: prod.splits option.splits)

text \<open>What \<open>SetUpStatesAndBounds\<close> has stored for knot \<open>i\<close> in the two-tier branch: the
  bounds of the knot body at time \<open>i * 0.1\<close> over the path length.\<close>

lemma SetUpStatesAndBounds_stored_knot:
  assumes "FLAGS_use_soft_bound_in_nonlinear_speed_opt fl"
    and "i < length (m_s_bounds (snd (SetUpStatesAndBounds ext fl veh_param rli opt speed_data)))"
  shows "\<exists>kb. two_tier_knot_bounds ext fl rli speed_data (path_length (st_graph_data rli))
                 (real i * (1 / 10)) = Some kb
            \<and> m_s_bounds (snd (SetUpStatesAndBounds ext fl veh_param rli opt speed_data)) ! i
                = (s_lower_bound kb, s_upper_bound kb)
            \<and> m_s_soft_bounds (snd (SetUpStatesAndBounds ext fl veh_param rli opt speed_data)) ! i
                = (s_soft_lower_bound kb, s_soft_upper_bound kb)"
proof -
  let ?SU = "SetUpStatesAndBounds ext fl veh_param rli opt speed_data"
  let ?o1 = "(set_up_states fl veh_param rli opt)\<lparr>m_s_bounds := [], m_s_soft_bounds := []\<rparr>"
  let ?knots = "[0..<nat (m_num_of_knots (set_up_states fl veh_param rli opt))]"
  let ?run = "two_tier_loop ext fl rli speed_data ?knots ?o1"
  let ?knot = "\<lambda>i. two_tier_knot_bounds ext fl rli speed_data (path_length (st_graph_data rli))
                 (real i * (1 / 10))"
  have len: "m_total_length ?o1 = path_length (st_graph_data rli)" "m_delta_t ?o1 = 1 / 10"
    by (simp_all add: set_up_states_fields)
  have hard': "m_s_bounds (snd ?SU) = m_s_bounds (snd ?run)"
    by (rule SetUpStatesAndBounds_two_tier(2) [OF assms(1)])
  have soft': "m_s_soft_bounds (snd ?SU) = m_s_soft_bounds (snd ?run)"
    by (rule SetUpStatesAndBounds_two_tier_soft [OF assms(1)])
  have "?run = (fst ?run, snd ?run)" by simp
  from two_tier_loop_stored_pairs [OF this, unfolded len] obtain k where k: "k \<le> length ?knots"
    and hard: "m_s_bounds (snd ?run) = m_s_bounds ?o1 @
                 map (\<lambda>i. case ?knot i of Some kb \<Rightarrow> (s_lower_bound kb, s_upper_bound kb)) (take k ?knots)"
    and soft: "m_s_soft_bounds (snd ?run) = m_s_soft_bounds ?o1 @
                 map (\<lambda>i. case ?knot i of Some kb \<Rightarrow> (s_soft_lower_bound kb, s_soft_upper_bound kb))
                   (take k ?knots)"
    and some: "\<forall>i \<in> set (take k ?knots). ?knot i \<noteq> None"
    by blast
  have h: "m_s_bounds (snd ?SU)
             = map (\<lambda>i. case ?knot i of Some kb \<Rightarrow> (s_lower_bound kb, s_upper_bound kb)) (take k ?knots)"
    using hard' hard by simp
  have s: "m_s_soft_bounds (snd ?SU)
             = map (\<lambda>i. case ?knot i of Some kb \<Rightarrow> (s_soft_lower_bound kb, s_soft_upper_bound kb))
                 (take k ?knots)"
    using soft' soft by simp
  have ik: "i < k" using assms(2) k unfolding h by simp
  have il: "i < length (take k ?knots)" using ik k by simp
  have nth: "take k ?knots ! i = i" using ik k by simp
  have mem: "i \<in> set (take k ?knots)" using nth_mem [OF il] nth by simp
  from some mem obtain kb where kb: "?knot i = Some kb" by blast
  have "m_s_bounds (snd ?SU) ! i = (s_lower_bound kb, s_upper_bound kb)"
    unfolding h using il nth kb by simp
  moreover have "m_s_soft_bounds (snd ?SU) ! i = (s_soft_lower_bound kb, s_soft_upper_bound kb)"
    unfolding s using il nth kb by simp
  ultimately show ?thesis using kb by blast
qed

text \<open>When the path length is not negative and the rough-profile lookup succeeds at every
  knot, the two-tier branch gets through all knots.\<close>

lemma SetUpStatesAndBounds_two_tier_total:
  assumes "FLAGS_use_soft_bound_in_nonlinear_speed_opt fl"
    and "0 \<le> path_length (st_graph_data rli)"
    and "\<forall>i < nat (static_cast_int (total_time_by_conf (st_graph_data rli) / (1 / 10)) + 1).
           EvaluateByTime ext speed_data (real i * (1 / 10)) \<noteq> None"
  shows "fst (SetUpStatesAndBounds ext fl veh_param rli opt speed_data) = Status_OK
       \<and> length (m_s_bounds (snd (SetUpStatesAndBounds ext fl veh_param rli opt speed_data)))
           = nat (static_cast_int (total_time_by_conf (st_graph_data rli) / (1 / 10)) + 1)"
proof -
  let ?SU = "SetUpStatesAndBounds ext fl veh_param rli opt speed_data"
  let ?o1 = "(set_up_states fl veh_param rli opt)\<lparr>m_s_bounds := [], m_s_soft_bounds := []\<rparr>"
  let ?n = "nat (static_cast_int (total_time_by_conf (st_graph_data rli) / (1 / 10)) + 1)"
  let ?knots = "[0..<nat (m_num_of_knots (set_up_states fl veh_param rli opt))]"
  let ?run = "two_tier_loop ext fl rli speed_data ?knots ?o1"
  have len: "m_total_length ?o1 = path_length (st_graph_data rli)" "m_delta_t ?o1 = 1 / 10"
    by (simp_all add: set_up_states_fields)
  have n: "nat (m_num_of_knots (set_up_states fl veh_param rli opt)) = ?n"
    by (simp add: set_up_states_fields)
  have all: "\<forall>i \<in> set ?knots. \<exists>kb.
             two_tier_knot_bounds ext fl rli speed_data (m_total_length ?o1) (real i * m_delta_t ?o1)
               = Some kb \<and> s_lower_bound kb \<le> s_upper_bound kb"
  proof
    fix i assume "i \<in> set ?knots"
    then have "i < ?n" unfolding n by simp
    with assms(3) have "EvaluateByTime ext speed_data (real i * (1 / 10)) \<noteq> None" by blast
    from two_tier_knot_bounds_total [OF this] obtain kb where
      kb: "two_tier_knot_bounds ext fl rli speed_data (path_length (st_graph_data rli))
             (real i * (1 / 10)) = Some kb" by blast
    from two_tier_knot_bounds_ordered [OF assms(2) kb] kb
    show "\<exists>kb. two_tier_knot_bounds ext fl rli speed_data (m_total_length ?o1) (real i * m_delta_t ?o1)
               = Some kb \<and> s_lower_bound kb \<le> s_upper_bound kb"
      unfolding len by blast
  qed
  have none: "fst ?run = None" by (rule two_tier_loop_completes [OF all])
  have st: "fst ?SU = Status_OK"
    unfolding SetUpStatesAndBounds_two_tier(1) [OF assms(1)] none by simp
  have "?run = (None, snd ?run)" using none by (cases ?run) simp
  from two_tier_loop_stored_pairs [OF this] obtain k where
    "k \<le> length ?knots" and hard: "m_s_bounds (snd ?run) = m_s_bounds ?o1 @
        map (\<lambda>i. case two_tier_knot_bounds ext fl rli speed_data (m_total_length ?o1)
                         (real i * m_delta_t ?o1) of
                    Some kb \<Rightarrow> (s_lower_bound kb, s_upper_bound kb)) (take k ?knots)"
    and "k = length ?knots"
    by blast
  then have "length (m_s_bounds (snd ?run)) = ?n" using n by simp
  then have "length (m_s_bounds (snd ?SU)) = ?n"
    unfolding SetUpStatesAndBounds_two_tier(2) [OF assms(1)] .
  with st show ?thesis by blast
qed

lemma two_tier_knot_bounds_nonempty:
  assumes "b \<in> set (st_boundaries (st_graph_data rli))"
    and "GetUnblockSRange b curr_t \<noteq> None"
    and "boundary_type b \<noteq> OTHER"
    and "EvaluateByTime ext speed_data curr_t = Some dp"
  shows "\<exists>kb. two_tier_knot_bounds ext fl rli speed_data total_length curr_t = Some kb
            \<and> s_lower_bound kb < s_upper_bound kb
            \<and> s_soft_lower_bound kb < s_soft_upper_bound kb"
proof -
  let ?kb0 = "\<lparr>s_lower_bound = 0, s_upper_bound = total_length,
               s_soft_lower_bound = 0, s_soft_upper_bound = total_length\<rparr>"
  let ?kb1 = "fold (st_boundary_step fl curr_t dp) (st_boundaries (st_graph_data rli)) ?kb0"
  have ne: "st_boundaries (st_graph_data rli) \<noteq> []" using assms(1) by auto
  have "\<exists>b \<in> set (st_boundaries (st_graph_data rli)).
          GetUnblockSRange b curr_t \<noteq> None \<and> boundary_type b \<noteq> OTHER"
    using assms(1-3) by blast
  then have "(s_lower_bound ?kb0 < s_upper_bound ?kb0 \<and> s_soft_lower_bound ?kb0 < s_soft_upper_bound ?kb0)
           \<or> (\<exists>b \<in> set (st_boundaries (st_graph_data rli)).
                 GetUnblockSRange b curr_t \<noteq> None \<and> boundary_type b \<noteq> OTHER)"
    by (rule disjI2)
  from fold_st_boundary_step_nonempty [OF this]
  have hard: "s_lower_bound ?kb1 < s_upper_bound ?kb1"
    and soft: "s_soft_lower_bound ?kb1 < s_soft_upper_bound ?kb1" by blast+
  note eq = two_tier_knot_bounds_eq [OF ne assms(4), of fl total_length, unfolded Let_def]
  show ?thesis
  proof (cases "EvaluateByTime ext (emergency_brake_speed_data rli) curr_t")
    case None
    from eq [unfolded None option.case] hard soft show ?thesis by blast
  next
    case (Some p)
    have up: "s_upper_bound ?kb1 \<le> max (s_upper_bound ?kb1) (sp_s p + 2 / 10)"
      by (rule max.cobounded1)
    let ?kb2 = "?kb1\<lparr>s_upper_bound := max (s_upper_bound ?kb1) (sp_s p + 2 / 10)\<rparr>"
    have "s_lower_bound ?kb2 < s_upper_bound ?kb2"
      using hard up by (simp del: max.cobounded1)
    moreover have "s_soft_lower_bound ?kb2 < s_soft_upper_bound ?kb2" using soft by simp
    ultimately show ?thesis using eq [unfolded Some option.case] by blast
  qed
qed


section \<open>Claims on the two-tier bounds build\<close>

text \<open>
  C2, as the code has it. In the two-tier branch of \<open>SetUpStatesAndBounds\<close>, take knot \<open>i\<close>
  (time \<open>i * 0.1\<close>) in the supported range of a FOLLOW boundary of the list (its
  \<open>GetUnblockSRange\<close> succeeds with upper value \<open>u\<close>), \<open>dp_point\<close> the lookup of the knot's time
  in the rough speed profile, and \<open>previous\<close> the bounds that the boundaries before it in the
  list leave, starting from \<open>[0, path length]\<close>. The boundary's update computes
  \<open>hard = min(previous upper, u - gap)\<close>, where \<open>gap\<close> is the characteristic length, raised to
  the \<open>s_gap\<close> of a valid end-interaction point whose time is less than 0.05 s from the
  knot's, and
  \<open>soft = min(previous soft upper, u - (follow_min_distance + min(7, follow_time_buffer * dp_point.v)))\<close>.
  The hard upper bound becomes \<open>hard\<close>, unless \<open>hard\<close> is not above the lower bound: then it
  becomes the lower bound plus 0.1; the soft upper bound becomes \<open>soft\<close>, unless \<open>soft\<close> is not
  above the soft lower bound: then it becomes the soft lower bound plus 0.1. The knot's
  bounds are these after the later boundaries of the list and the emergency-brake floor of
  the upper bound, and they are the pairs that \<open>SetUpStatesAndBounds\<close> stores at index \<open>i\<close> of
  \<open>s_bounds_\<close> and \<open>s_soft_bounds_\<close>. When the path length is not negative and the lookup in
  the rough speed profile succeeds at every knot, the build returns OK with one pair per
  knot.
\<close>

theorem follow_boundary_update_in_build:
  assumes "FLAGS_use_soft_bound_in_nonlinear_speed_opt fl"
    and "st_boundaries (st_graph_data rli) = earlier @ boundary # later"
    and "boundary_type boundary = FOLLOW"
    and "GetUnblockSRange boundary (real i * (1 / 10)) = Some (u, l)"
    and "EvaluateByTime ext speed_data (real i * (1 / 10)) = Some dp_point"
  shows "(let curr_t = real i * (1 / 10);
              previous = fold (st_boundary_step fl curr_t dp_point) earlier
                           \<lparr>s_lower_bound = 0, s_upper_bound = path_length (st_graph_data rli),
                            s_soft_lower_bound = 0,
                            s_soft_upper_bound = path_length (st_graph_data rli)\<rparr>;
              gap = (if is_end_interaction_point_valid boundary
                        \<and> \<bar>time (get_end_interaction_poi boundary) - curr_t\<bar> < 5 / 100
                     then max (characteristic_length boundary) (s_gap (get_end_interaction_poi boundary))
                     else characteristic_length boundary);
              hard = min (s_upper_bound previous) (u - gap);
              soft = min (s_soft_upper_bound previous)
                       (u - (FLAGS_follow_min_distance fl
                               + min 7 (FLAGS_follow_time_buffer fl * sp_v dp_point)));
              updated = previous
                \<lparr>s_upper_bound :=
                   (if hard \<le> s_lower_bound previous then s_lower_bound previous + 1 / 10 else hard),
                 s_soft_upper_bound :=
                   (if soft \<le> s_soft_lower_bound previous then s_soft_lower_bound previous + 1 / 10
                    else soft)\<rparr>;
              kb1 = fold (st_boundary_step fl curr_t dp_point) later updated;
              final = (case EvaluateByTime ext (emergency_brake_speed_data rli) curr_t of
                         None \<Rightarrow> kb1
                       | Some p \<Rightarrow> kb1\<lparr>s_upper_bound := max (s_upper_bound kb1) (sp_s p + 2 / 10)\<rparr>);
              built = SetUpStatesAndBounds ext fl veh_param rli opt speed_data;
              knots = nat (static_cast_int (total_time_by_conf (st_graph_data rli) / (1 / 10)) + 1)
          in st_boundary_step fl curr_t dp_point boundary previous = updated
           \<and> two_tier_knot_bounds ext fl rli speed_data (path_length (st_graph_data rli)) curr_t
               = Some final
           \<and> (i < length (m_s_bounds (snd built)) \<longrightarrow>
                m_s_bounds (snd built) ! i = (s_lower_bound final, s_upper_bound final)
              \<and> m_s_soft_bounds (snd built) ! i = (s_soft_lower_bound final, s_soft_upper_bound final))
           \<and> (0 \<le> path_length (st_graph_data rli)
              \<and> (\<forall>j < knots. EvaluateByTime ext speed_data (real j * (1 / 10)) \<noteq> None) \<longrightarrow>
                fst built = Status_OK \<and> length (m_s_bounds (snd built)) = knots))"
proof -
  let ?t = "real i * (1 / 10)"
  let ?built = "SetUpStatesAndBounds ext fl veh_param rli opt speed_data"
  let ?knots = "nat (static_cast_int (total_time_by_conf (st_graph_data rli) / (1 / 10)) + 1)"
  define previous where "previous = fold (st_boundary_step fl ?t dp_point) earlier
                           \<lparr>s_lower_bound = 0, s_upper_bound = path_length (st_graph_data rli),
                            s_soft_lower_bound = 0,
                            s_soft_upper_bound = path_length (st_graph_data rli)\<rparr>"
  define updated where "updated = st_boundary_step fl ?t dp_point boundary previous"
  define kb1 where "kb1 = fold (st_boundary_step fl ?t dp_point) later updated"
  define final where "final = (case EvaluateByTime ext (emergency_brake_speed_data rli) ?t of
                         None \<Rightarrow> kb1
                       | Some p \<Rightarrow> kb1\<lparr>s_upper_bound := max (s_upper_bound kb1) (sp_s p + 2 / 10)\<rparr>)"
  have ne: "st_boundaries (st_graph_data rli) \<noteq> []" unfolding assms(2) by simp
  have run: "fold (st_boundary_step fl ?t dp_point) (st_boundaries (st_graph_data rli))
               \<lparr>s_lower_bound = 0, s_upper_bound = path_length (st_graph_data rli),
                s_soft_lower_bound = 0, s_soft_upper_bound = path_length (st_graph_data rli)\<rparr> = kb1"
    unfolding assms(2) kb1_def updated_def previous_def by simp
  have knot: "two_tier_knot_bounds ext fl rli speed_data (path_length (st_graph_data rli)) ?t
                = Some final"
    unfolding two_tier_knot_bounds_eq [OF ne assms(5)] Let_def run final_def ..
  note upd = st_boundary_step_FOLLOW [OF assms(4) assms(3), of fl dp_point previous,
      folded updated_def, unfolded Let_def]
  have step: "st_boundary_step fl ?t dp_point boundary previous = updated"
    unfolding updated_def ..
  have stored: "i < length (m_s_bounds (snd ?built)) \<longrightarrow>
                m_s_bounds (snd ?built) ! i = (s_lower_bound final, s_upper_bound final)
              \<and> m_s_soft_bounds (snd ?built) ! i = (s_soft_lower_bound final, s_soft_upper_bound final)"
  proof
    assume "i < length (m_s_bounds (snd ?built))"
    from SetUpStatesAndBounds_stored_knot [OF assms(1) this]
    show "m_s_bounds (snd ?built) ! i = (s_lower_bound final, s_upper_bound final)
              \<and> m_s_soft_bounds (snd ?built) ! i = (s_soft_lower_bound final, s_soft_upper_bound final)"
      unfolding knot by simp
  qed
  have total: "0 \<le> path_length (st_graph_data rli)
              \<and> (\<forall>j < ?knots. EvaluateByTime ext speed_data (real j * (1 / 10)) \<noteq> None) \<longrightarrow>
                fst ?built = Status_OK \<and> length (m_s_bounds (snd ?built)) = ?knots"
    using SetUpStatesAndBounds_two_tier_total [OF assms(1)] by blast
  from step knot stored total
  have "st_boundary_step fl ?t dp_point boundary previous = updated
           \<and> two_tier_knot_bounds ext fl rli speed_data (path_length (st_graph_data rli)) ?t
               = Some final
           \<and> (i < length (m_s_bounds (snd ?built)) \<longrightarrow>
                m_s_bounds (snd ?built) ! i = (s_lower_bound final, s_upper_bound final)
              \<and> m_s_soft_bounds (snd ?built) ! i = (s_soft_lower_bound final, s_soft_upper_bound final))
           \<and> (0 \<le> path_length (st_graph_data rli)
              \<and> (\<forall>j < ?knots. EvaluateByTime ext speed_data (real j * (1 / 10)) \<noteq> None) \<longrightarrow>
                fst ?built = Status_OK \<and> length (m_s_bounds (snd ?built)) = ?knots)"
    by (intro conjI)
  then show ?thesis
    unfolding Let_def final_def kb1_def upd previous_def .
qed

theorem follow_boundary_update_in_build_witness:
  "FLAGS_use_soft_bound_in_nonlinear_speed_opt sample_flags
   \<and> st_boundaries (st_graph_data (sample_reference_line 5)) = [] @ follow_boundary # []
   \<and> boundary_type follow_boundary = FOLLOW
   \<and> GetUnblockSRange follow_boundary (real 1 * (1 / 10)) = Some (41, 0)
   \<and> EvaluateByTime externals_qp_fails rough_profile (real 1 * (1 / 10))
       = Some (sample_speed_point (1 / 2) (1 / 10) 5)
   \<and> fst (SetUpStatesAndBounds externals_qp_fails sample_flags sample_vehicle
             (sample_reference_line 5) fresh_optimizer rough_profile) = Status_OK
   \<and> length (m_s_bounds (snd (SetUpStatesAndBounds externals_qp_fails sample_flags sample_vehicle
             (sample_reference_line 5) fresh_optimizer rough_profile))) = 3
   \<and> two_tier_knot_bounds externals_qp_fails sample_flags (sample_reference_line 5) rough_profile
       100 (real 1 * (1 / 10))
       = Some \<lparr>s_lower_bound = 0, s_upper_bound = 35, s_soft_lower_bound = 0, s_soft_upper_bound = 31\<rparr>
   \<and> m_s_bounds (snd (SetUpStatesAndBounds externals_qp_fails sample_flags sample_vehicle
             (sample_reference_line 5) fresh_optimizer rough_profile)) ! 1 = (0, 35)
   \<and> m_s_soft_bounds (snd (SetUpStatesAndBounds externals_qp_fails sample_flags sample_vehicle
             (sample_reference_line 5) fresh_optimizer rough_profile)) ! 1 = (0, 31)"
proof -
  let ?built = "SetUpStatesAndBounds externals_qp_fails sample_flags sample_vehicle
             (sample_reference_line 5) fresh_optimizer rough_profile"
  have h1: "FLAGS_use_soft_bound_in_nonlinear_speed_opt sample_flags"
    by (simp add: sample_flags_def)
  have h2: "st_boundaries (st_graph_data (sample_reference_line 5)) = [] @ follow_boundary # []"
    by (simp add: sample_reference_line_def)
  have h3: "boundary_type follow_boundary = FOLLOW" by (simp add: follow_boundary_def)
  have h4: "GetUnblockSRange follow_boundary (real 1 * (1 / 10)) = Some (41, 0)"
    by (simp add: follow_boundary_def)
  have h5: "EvaluateByTime externals_qp_fails rough_profile (real 1 * (1 / 10))
       = Some (sample_speed_point (1 / 2) (1 / 10) 5)"
    by (simp add: externals_qp_fails_def sample_externals_def lookup_by_time_def rough_profile_def
        sample_speed_point_def)
  have len: "path_length (st_graph_data (sample_reference_line 5)) = 100"
    "nat (static_cast_int (total_time_by_conf (st_graph_data (sample_reference_line 5)) / (1 / 10)) + 1) = 3"
    by (simp_all add: sample_reference_line_def static_cast_int_def)
  have looks: "\<forall>j < 3. EvaluateByTime externals_qp_fails rough_profile (real j * (1 / 10)) \<noteq> None"
  proof (intro allI impI)
    fix j :: nat assume "j < 3"
    then have "real j * (1 / 10) \<le> 1" by simp
    then show "EvaluateByTime externals_qp_fails rough_profile (real j * (1 / 10)) \<noteq> None"
      by (simp add: externals_qp_fails_def sample_externals_def lookup_by_time_def rough_profile_def
        sample_speed_point_def)
  qed
  have ebk: "EvaluateByTime externals_qp_fails (emergency_brake_speed_data (sample_reference_line 5))
               (real 1 * (1 / 10)) = Some (sample_speed_point (1 / 5) (1 / 10) 5)"
    by (simp add: externals_qp_fails_def sample_externals_def lookup_by_time_def brake_profile_def
        sample_speed_point_def sample_reference_line_def)
  have gap: "is_end_interaction_point_valid follow_boundary"
    "time (get_end_interaction_poi follow_boundary) = 1 / 10"
    "s_gap (get_end_interaction_poi follow_boundary) = 6"
    "characteristic_length follow_boundary = 5"
    by (simp_all add: follow_boundary_def)
  have fl: "FLAGS_follow_min_distance sample_flags = 5" "FLAGS_follow_time_buffer sample_flags = 1"
    by (simp_all add: sample_flags_def)
  have v: "sp_v (sample_speed_point (1 / 2) (1 / 10) 5) = 5"
    "sp_s (sample_speed_point (1 / 5) (1 / 10) 5) = 1 / 5"
    by (simp_all add: sample_speed_point_def)
  note c = follow_boundary_update_in_build [where veh_param = sample_vehicle
      and opt = fresh_optimizer, OF h1 h2 h3 h4 h5, unfolded Let_def len fold.simps id_apply ebk
        option.case gap fl v]
  from c looks have status: "fst ?built = Status_OK" and n: "length (m_s_bounds (snd ?built)) = 3"
    by simp_all
  from c have knot: "two_tier_knot_bounds externals_qp_fails sample_flags (sample_reference_line 5)
       rough_profile 100 (real 1 * (1 / 10))
       = Some \<lparr>s_lower_bound = 0, s_upper_bound = 35, s_soft_lower_bound = 0, s_soft_upper_bound = 31\<rparr>"
    by (simp add: gap)
  from c n have "m_s_bounds (snd ?built) ! 1 = (0, 35)" "m_s_soft_bounds (snd ?built) ! 1 = (0, 31)"
    by (simp_all add: gap)
  with h1 h2 h3 h4 h5 status n knot show ?thesis by blast
qed

text \<open>
  C2 as stated fails: behind an OVERTAKE boundary with lower value 50, which leaves the hard
  interval \<open>[50, 100]\<close> and the soft interval \<open>[60, 100]\<close>, a FOLLOW boundary with \<open>u = 41\<close>
  and gap 6 has \<open>min(previous, u - gap) = 35\<close> and a soft value of 31, and the build stores
  the upper bounds 50.1 and 60.1 at the knot.
\<close>

theorem follow_upper_bound_is_not_the_bare_minimum:
  "st_boundaries (st_graph_data (sample_reference_line_with [overtake_at_50, follow_boundary]))
     = [overtake_at_50, follow_boundary]
   \<and> boundary_type follow_boundary = FOLLOW
   \<and> GetUnblockSRange follow_boundary (real 1 * (1 / 10)) = Some (41, 0)
   \<and> lookup_by_time rough_profile (real 1 * (1 / 10)) = Some (sample_speed_point (1 / 2) (1 / 10) 5)
   \<and> st_boundary_step sample_flags (real 1 * (1 / 10)) (sample_speed_point (1 / 2) (1 / 10) 5)
        overtake_at_50
        \<lparr>s_lower_bound = 0, s_upper_bound = 100, s_soft_lower_bound = 0, s_soft_upper_bound = 100\<rparr>
       = \<lparr>s_lower_bound = 50, s_upper_bound = 100, s_soft_lower_bound = 60, s_soft_upper_bound = 100\<rparr>
   \<and> min 100 (41 - max (characteristic_length follow_boundary)
                        (s_gap (get_end_interaction_poi follow_boundary))) = (35 :: real)
   \<and> min 100 (41 - (FLAGS_follow_min_distance sample_flags
                       + min 7 (FLAGS_follow_time_buffer sample_flags * 5))) = (31 :: real)
   \<and> st_boundary_step sample_flags (real 1 * (1 / 10)) (sample_speed_point (1 / 2) (1 / 10) 5)
        follow_boundary
        \<lparr>s_lower_bound = 50, s_upper_bound = 100, s_soft_lower_bound = 60, s_soft_upper_bound = 100\<rparr>
       = \<lparr>s_lower_bound = 50, s_upper_bound = 501 / 10,
          s_soft_lower_bound = 60, s_soft_upper_bound = 601 / 10\<rparr>
   \<and> fst (SetUpStatesAndBounds externals_qp_fails sample_flags sample_vehicle
            (sample_reference_line_with [overtake_at_50, follow_boundary]) fresh_optimizer
            rough_profile) = Status_OK
   \<and> m_s_bounds (snd (SetUpStatesAndBounds externals_qp_fails sample_flags sample_vehicle
            (sample_reference_line_with [overtake_at_50, follow_boundary]) fresh_optimizer
            rough_profile)) ! 1 = (50, 501 / 10)
   \<and> m_s_soft_bounds (snd (SetUpStatesAndBounds externals_qp_fails sample_flags sample_vehicle
            (sample_reference_line_with [overtake_at_50, follow_boundary]) fresh_optimizer
            rough_profile)) ! 1 = (60, 601 / 10)
   \<and> snd (m_s_bounds (snd (SetUpStatesAndBounds externals_qp_fails sample_flags sample_vehicle
            (sample_reference_line_with [overtake_at_50, follow_boundary]) fresh_optimizer
            rough_profile)) ! 1) \<noteq> 35
   \<and> snd (m_s_soft_bounds (snd (SetUpStatesAndBounds externals_qp_fails sample_flags sample_vehicle
            (sample_reference_line_with [overtake_at_50, follow_boundary]) fresh_optimizer
            rough_profile)) ! 1) \<noteq> 31"
proof -
  have a: "st_boundaries (st_graph_data (sample_reference_line_with [overtake_at_50, follow_boundary]))
     = [overtake_at_50, follow_boundary]"
    by (simp add: sample_reference_line_with_def)
  have b: "boundary_type follow_boundary = FOLLOW" by (simp add: follow_boundary_def)
  have c: "GetUnblockSRange follow_boundary (real 1 * (1 / 10)) = Some (41, 0)"
    by (simp add: follow_boundary_def)
  have d: "lookup_by_time rough_profile (real 1 * (1 / 10))
             = Some (sample_speed_point (1 / 2) (1 / 10) 5)"
    by code_simp
  have e: "st_boundary_step sample_flags (real 1 * (1 / 10)) (sample_speed_point (1 / 2) (1 / 10) 5)
        overtake_at_50
        \<lparr>s_lower_bound = 0, s_upper_bound = 100, s_soft_lower_bound = 0, s_soft_upper_bound = 100\<rparr>
       = \<lparr>s_lower_bound = 50, s_upper_bound = 100, s_soft_lower_bound = 60, s_soft_upper_bound = 100\<rparr>"
    by code_simp
  have f: "min 100 (41 - max (characteristic_length follow_boundary)
                        (s_gap (get_end_interaction_poi follow_boundary))) = (35 :: real)"
    by code_simp
  have g: "min 100 (41 - (FLAGS_follow_min_distance sample_flags
                       + min 7 (FLAGS_follow_time_buffer sample_flags * 5))) = (31 :: real)"
    by code_simp
  have h: "st_boundary_step sample_flags (real 1 * (1 / 10)) (sample_speed_point (1 / 2) (1 / 10) 5)
        follow_boundary
        \<lparr>s_lower_bound = 50, s_upper_bound = 100, s_soft_lower_bound = 60, s_soft_upper_bound = 100\<rparr>
       = \<lparr>s_lower_bound = 50, s_upper_bound = 501 / 10,
          s_soft_lower_bound = 60, s_soft_upper_bound = 601 / 10\<rparr>"
    by code_simp
  have i: "fst (SetUpStatesAndBounds externals_qp_fails sample_flags sample_vehicle
            (sample_reference_line_with [overtake_at_50, follow_boundary]) fresh_optimizer
            rough_profile) = Status_OK"
    by code_simp
  have j: "m_s_bounds (snd (SetUpStatesAndBounds externals_qp_fails sample_flags sample_vehicle
            (sample_reference_line_with [overtake_at_50, follow_boundary]) fresh_optimizer
            rough_profile)) ! 1 = (50, 501 / 10)"
    by code_simp
  have k: "m_s_soft_bounds (snd (SetUpStatesAndBounds externals_qp_fails sample_flags sample_vehicle
            (sample_reference_line_with [overtake_at_50, follow_boundary]) fresh_optimizer
            rough_profile)) ! 1 = (60, 601 / 10)"
    by code_simp
  have m: "snd (m_s_bounds (snd (SetUpStatesAndBounds externals_qp_fails sample_flags sample_vehicle
            (sample_reference_line_with [overtake_at_50, follow_boundary]) fresh_optimizer
            rough_profile)) ! 1) \<noteq> 35"
    unfolding j by simp
  have n: "snd (m_s_soft_bounds (snd (SetUpStatesAndBounds externals_qp_fails sample_flags sample_vehicle
            (sample_reference_line_with [overtake_at_50, follow_boundary]) fresh_optimizer
            rough_profile)) ! 1) \<noteq> 31"
    unfolding k by simp
  from a b c d e f g h i j k m n show ?thesis by blast
qed


text \<open>
  C4. For a boundary whose range covers the knot's time (its \<open>GetUnblockSRange\<close> succeeds with
  the values \<open>u\<close> and \<open>l\<close>): STOP, YIELD and FOLLOW lower the two upper bounds to their
  updated values (\<open>min(upper, u)\<close>, \<open>min(upper, u - gap)\<close> and, for the soft bound of FOLLOW,
  \<open>min(soft upper, u - soft follow distance)\<close>), and an updated upper bound that is not above
  its lower bound is set to the lower bound plus 0.1; OVERTAKE raises the two lower bounds
  to \<open>max(lower, l)\<close> and \<open>max(soft lower, l + 10)\<close>, and an updated lower bound that is not
  below its upper bound is set to the upper bound minus 0.1. After the update the hard and
  the soft interval are both non-empty (upper above lower), they stay so through the
  boundaries processed afterwards at the knot, the knot's bounds exist and are non-empty
  when the lookup in the rough speed profile succeeds, and so are the pairs that
  \<open>SetUpStatesAndBounds\<close> stores for the knot.
\<close>

theorem collapse_repair_keeps_intervals_nonempty:
  assumes "GetUnblockSRange boundary curr_t = Some (u, l)"
  shows "(boundary_type boundary = STOP \<longrightarrow>
            st_boundary_step fl curr_t dp boundary kb =
              (let hard = min (s_upper_bound kb) u;
                   soft = min (s_soft_upper_bound kb) u
               in kb\<lparr>s_upper_bound :=
                       (if hard \<le> s_lower_bound kb then s_lower_bound kb + 1 / 10 else hard),
                     s_soft_upper_bound :=
                       (if soft \<le> s_soft_lower_bound kb then s_soft_lower_bound kb + 1 / 10
                        else soft)\<rparr>))
       \<and> (boundary_type boundary = YIELD \<longrightarrow>
            st_boundary_step fl curr_t dp boundary kb =
              (let gap = (if is_end_interaction_point_valid boundary
                             \<and> \<bar>time (get_end_interaction_poi boundary) - curr_t\<bar> < 5 / 100
                          then max (characteristic_length boundary)
                                 (s_gap (get_end_interaction_poi boundary))
                          else characteristic_length boundary);
                   hard = min (s_upper_bound kb) (u - gap);
                   soft = min (s_soft_upper_bound kb) u
               in kb\<lparr>s_upper_bound :=
                       (if hard \<le> s_lower_bound kb then s_lower_bound kb + 1 / 10 else hard),
                     s_soft_upper_bound :=
                       (if soft \<le> s_soft_lower_bound kb then s_soft_lower_bound kb + 1 / 10
                        else soft)\<rparr>))
       \<and> (boundary_type boundary = FOLLOW \<longrightarrow>
            st_boundary_step fl curr_t dp boundary kb =
              (let gap = (if is_end_interaction_point_valid boundary
                             \<and> \<bar>time (get_end_interaction_poi boundary) - curr_t\<bar> < 5 / 100
                          then max (characteristic_length boundary)
                                 (s_gap (get_end_interaction_poi boundary))
                          else characteristic_length boundary);
                   hard = min (s_upper_bound kb) (u - gap);
                   soft = min (s_soft_upper_bound kb)
                            (u - (FLAGS_follow_min_distance fl
                                    + min 7 (FLAGS_follow_time_buffer fl * sp_v dp)))
               in kb\<lparr>s_upper_bound :=
                       (if hard \<le> s_lower_bound kb then s_lower_bound kb + 1 / 10 else hard),
                     s_soft_upper_bound :=
                       (if soft \<le> s_soft_lower_bound kb then s_soft_lower_bound kb + 1 / 10
                        else soft)\<rparr>))
       \<and> (boundary_type boundary = OVERTAKE \<longrightarrow>
            st_boundary_step fl curr_t dp boundary kb =
              (let hard = max (s_lower_bound kb) l;
                   soft = max (s_soft_lower_bound kb) (l + 10)
               in kb\<lparr>s_lower_bound :=
                       (if s_upper_bound kb \<le> hard then s_upper_bound kb - 1 / 10 else hard),
                     s_soft_lower_bound :=
                       (if s_soft_upper_bound kb \<le> soft then s_soft_upper_bound kb - 1 / 10
                        else soft)\<rparr>))
       \<and> (boundary_type boundary \<noteq> OTHER \<longrightarrow>
            s_lower_bound (st_boundary_step fl curr_t dp boundary kb)
              < s_upper_bound (st_boundary_step fl curr_t dp boundary kb)
            \<and> s_soft_lower_bound (st_boundary_step fl curr_t dp boundary kb)
              < s_soft_upper_bound (st_boundary_step fl curr_t dp boundary kb))
       \<and> (\<forall>later. boundary_type boundary \<noteq> OTHER \<longrightarrow>
            s_lower_bound (fold (st_boundary_step fl curr_t dp) (boundary # later) kb)
              < s_upper_bound (fold (st_boundary_step fl curr_t dp) (boundary # later) kb)
            \<and> s_soft_lower_bound (fold (st_boundary_step fl curr_t dp) (boundary # later) kb)
              < s_soft_upper_bound (fold (st_boundary_step fl curr_t dp) (boundary # later) kb))
       \<and> (\<forall>ext rli speed_data total_length.
            boundary_type boundary \<noteq> OTHER
            \<and> boundary \<in> set (st_boundaries (st_graph_data rli))
            \<and> EvaluateByTime ext speed_data curr_t \<noteq> None \<longrightarrow>
            (\<exists>kb'. two_tier_knot_bounds ext fl rli speed_data total_length curr_t = Some kb'
               \<and> s_lower_bound kb' < s_upper_bound kb'
               \<and> s_soft_lower_bound kb' < s_soft_upper_bound kb'))
       \<and> (\<forall>ext rli speed_data veh_param opt i.
            boundary_type boundary \<noteq> OTHER
            \<and> boundary \<in> set (st_boundaries (st_graph_data rli))
            \<and> FLAGS_use_soft_bound_in_nonlinear_speed_opt fl
            \<and> curr_t = real i * (1 / 10)
            \<and> i < length (m_s_bounds (snd (SetUpStatesAndBounds ext fl veh_param rli opt speed_data)))
            \<longrightarrow>
            fst (m_s_bounds (snd (SetUpStatesAndBounds ext fl veh_param rli opt speed_data)) ! i)
              < snd (m_s_bounds (snd (SetUpStatesAndBounds ext fl veh_param rli opt speed_data)) ! i)
            \<and> fst (m_s_soft_bounds (snd (SetUpStatesAndBounds ext fl veh_param rli opt speed_data)) ! i)
              < snd (m_s_soft_bounds (snd (SetUpStatesAndBounds ext fl veh_param rli opt speed_data)) ! i))"
proof (intro conjI impI allI)
  assume ty: "boundary_type boundary = STOP"
  show "st_boundary_step fl curr_t dp boundary kb =
              (let hard = min (s_upper_bound kb) u;
                   soft = min (s_soft_upper_bound kb) u
               in kb\<lparr>s_upper_bound :=
                       (if hard \<le> s_lower_bound kb then s_lower_bound kb + 1 / 10 else hard),
                     s_soft_upper_bound :=
                       (if soft \<le> s_soft_lower_bound kb then s_soft_lower_bound kb + 1 / 10
                        else soft)\<rparr>)"
    by (rule st_boundary_step_STOP [OF assms ty])
next
  assume ty: "boundary_type boundary = YIELD"
  show "st_boundary_step fl curr_t dp boundary kb =
              (let gap = (if is_end_interaction_point_valid boundary
                             \<and> \<bar>time (get_end_interaction_poi boundary) - curr_t\<bar> < 5 / 100
                          then max (characteristic_length boundary)
                                 (s_gap (get_end_interaction_poi boundary))
                          else characteristic_length boundary);
                   hard = min (s_upper_bound kb) (u - gap);
                   soft = min (s_soft_upper_bound kb) u
               in kb\<lparr>s_upper_bound :=
                       (if hard \<le> s_lower_bound kb then s_lower_bound kb + 1 / 10 else hard),
                     s_soft_upper_bound :=
                       (if soft \<le> s_soft_lower_bound kb then s_soft_lower_bound kb + 1 / 10
                        else soft)\<rparr>)"
    by (rule st_boundary_step_YIELD [OF assms ty])
next
  assume ty: "boundary_type boundary = FOLLOW"
  show "st_boundary_step fl curr_t dp boundary kb =
              (let gap = (if is_end_interaction_point_valid boundary
                             \<and> \<bar>time (get_end_interaction_poi boundary) - curr_t\<bar> < 5 / 100
                          then max (characteristic_length boundary)
                                 (s_gap (get_end_interaction_poi boundary))
                          else characteristic_length boundary);
                   hard = min (s_upper_bound kb) (u - gap);
                   soft = min (s_soft_upper_bound kb)
                            (u - (FLAGS_follow_min_distance fl
                                    + min 7 (FLAGS_follow_time_buffer fl * sp_v dp)))
               in kb\<lparr>s_upper_bound :=
                       (if hard \<le> s_lower_bound kb then s_lower_bound kb + 1 / 10 else hard),
                     s_soft_upper_bound :=
                       (if soft \<le> s_soft_lower_bound kb then s_soft_lower_bound kb + 1 / 10
                        else soft)\<rparr>)"
    by (rule st_boundary_step_FOLLOW [OF assms ty])
next
  assume ty: "boundary_type boundary = OVERTAKE"
  show "st_boundary_step fl curr_t dp boundary kb =
              (let hard = max (s_lower_bound kb) l;
                   soft = max (s_soft_lower_bound kb) (l + 10)
               in kb\<lparr>s_lower_bound :=
                       (if s_upper_bound kb \<le> hard then s_upper_bound kb - 1 / 10 else hard),
                     s_soft_lower_bound :=
                       (if s_soft_upper_bound kb \<le> soft then s_soft_upper_bound kb - 1 / 10
                        else soft)\<rparr>)"
    by (rule st_boundary_step_OVERTAKE [OF assms ty])
next
  assume ty: "boundary_type boundary \<noteq> OTHER"
  from st_boundary_step_applied [OF assms ty]
  show "s_lower_bound (st_boundary_step fl curr_t dp boundary kb)
              < s_upper_bound (st_boundary_step fl curr_t dp boundary kb)"
    and "s_soft_lower_bound (st_boundary_step fl curr_t dp boundary kb)
              < s_soft_upper_bound (st_boundary_step fl curr_t dp boundary kb)"
    by blast+
next
  fix later
  assume ty: "boundary_type boundary \<noteq> OTHER"
  have "\<exists>b \<in> set (boundary # later). GetUnblockSRange b curr_t \<noteq> None \<and> boundary_type b \<noteq> OTHER"
    using assms ty by auto
  then have any: "(s_lower_bound kb < s_upper_bound kb \<and> s_soft_lower_bound kb < s_soft_upper_bound kb)
           \<or> (\<exists>b \<in> set (boundary # later). GetUnblockSRange b curr_t \<noteq> None \<and> boundary_type b \<noteq> OTHER)"
    by blast
  from fold_st_boundary_step_nonempty [OF any]
  show "s_lower_bound (fold (st_boundary_step fl curr_t dp) (boundary # later) kb)
              < s_upper_bound (fold (st_boundary_step fl curr_t dp) (boundary # later) kb)"
    and "s_soft_lower_bound (fold (st_boundary_step fl curr_t dp) (boundary # later) kb)
              < s_soft_upper_bound (fold (st_boundary_step fl curr_t dp) (boundary # later) kb)"
    by blast+
next
  fix ext :: externals and rli :: ReferenceLineInfo and speed_data :: SpeedData and total_length :: real
  assume h: "boundary_type boundary \<noteq> OTHER
            \<and> boundary \<in> set (st_boundaries (st_graph_data rli))
            \<and> EvaluateByTime ext speed_data curr_t \<noteq> None"
  then obtain dp' where dp': "EvaluateByTime ext speed_data curr_t = Some dp'" by auto
  have rng: "GetUnblockSRange boundary curr_t \<noteq> None" using assms by simp
  from h have mem: "boundary \<in> set (st_boundaries (st_graph_data rli))"
    and ty: "boundary_type boundary \<noteq> OTHER" by blast+
  show "\<exists>kb'. two_tier_knot_bounds ext fl rli speed_data total_length curr_t = Some kb'
               \<and> s_lower_bound kb' < s_upper_bound kb'
               \<and> s_soft_lower_bound kb' < s_soft_upper_bound kb'"
    by (rule two_tier_knot_bounds_nonempty [OF mem rng ty dp'])
next
  fix ext :: externals and rli :: ReferenceLineInfo and speed_data :: SpeedData
    and veh_param :: vehicle_param and opt :: optimizer and i :: nat
  let ?built = "SetUpStatesAndBounds ext fl veh_param rli opt speed_data"
  assume h: "boundary_type boundary \<noteq> OTHER
            \<and> boundary \<in> set (st_boundaries (st_graph_data rli))
            \<and> FLAGS_use_soft_bound_in_nonlinear_speed_opt fl
            \<and> curr_t = real i * (1 / 10)
            \<and> i < length (m_s_bounds (snd ?built))"
  then have mem: "boundary \<in> set (st_boundaries (st_graph_data rli))"
    and ty: "boundary_type boundary \<noteq> OTHER"
    and flag: "FLAGS_use_soft_bound_in_nonlinear_speed_opt fl"
    and t: "curr_t = real i * (1 / 10)"
    and i: "i < length (m_s_bounds (snd ?built))" by blast+
  have rng: "GetUnblockSRange boundary (real i * (1 / 10)) \<noteq> None" using assms t by simp
  from SetUpStatesAndBounds_stored_knot [OF flag i] obtain kb' where
    knot: "two_tier_knot_bounds ext fl rli speed_data (path_length (st_graph_data rli))
             (real i * (1 / 10)) = Some kb'"
    and hard: "m_s_bounds (snd ?built) ! i = (s_lower_bound kb', s_upper_bound kb')"
    and soft: "m_s_soft_bounds (snd ?built) ! i = (s_soft_lower_bound kb', s_soft_upper_bound kb')"
    by blast
  have ne: "st_boundaries (st_graph_data rli) \<noteq> []" using mem by auto
  from two_tier_knot_bounds_Some [OF knot] ne obtain dp' where
    dp': "EvaluateByTime ext speed_data (real i * (1 / 10)) = Some dp'" by blast
  from two_tier_knot_bounds_nonempty [OF mem rng ty dp', of fl "path_length (st_graph_data rli)"]
  have "s_lower_bound kb' < s_upper_bound kb'" "s_soft_lower_bound kb' < s_soft_upper_bound kb'"
    unfolding knot by simp_all
  then show "fst (m_s_bounds (snd ?built) ! i) < snd (m_s_bounds (snd ?built) ! i)"
    and "fst (m_s_soft_bounds (snd ?built) ! i) < snd (m_s_soft_bounds (snd ?built) ! i)"
    unfolding hard soft by simp_all
qed

theorem collapse_repair_keeps_intervals_nonempty_witness:
  "GetUnblockSRange stop_at_10 (real 1 * (1 / 10)) = Some (10, 0)
   \<and> boundary_type stop_at_10 = STOP
   \<and> st_boundary_step sample_flags (real 1 * (1 / 10)) (sample_speed_point (1 / 2) (1 / 10) 5)
        stop_at_10
        \<lparr>s_lower_bound = 50, s_upper_bound = 100, s_soft_lower_bound = 60, s_soft_upper_bound = 100\<rparr>
       = \<lparr>s_lower_bound = 50, s_upper_bound = 50 + 1 / 10,
          s_soft_lower_bound = 60, s_soft_upper_bound = 60 + 1 / 10\<rparr>
   \<and> stop_at_10 \<in> set (st_boundaries (st_graph_data
                          (sample_reference_line_with [overtake_at_50, stop_at_10])))
   \<and> FLAGS_use_soft_bound_in_nonlinear_speed_opt sample_flags
   \<and> lookup_by_time rough_profile (real 1 * (1 / 10)) \<noteq> None
   \<and> (\<exists>kb'. two_tier_knot_bounds externals_qp_fails sample_flags
               (sample_reference_line_with [overtake_at_50, stop_at_10]) rough_profile 100
               (real 1 * (1 / 10)) = Some kb'
          \<and> s_lower_bound kb' < s_upper_bound kb'
          \<and> s_soft_lower_bound kb' < s_soft_upper_bound kb')
   \<and> 1 < length (m_s_bounds (snd (SetUpStatesAndBounds externals_qp_fails sample_flags
             sample_vehicle (sample_reference_line_with [overtake_at_50, stop_at_10])
             fresh_optimizer rough_profile)))
   \<and> m_s_bounds (snd (SetUpStatesAndBounds externals_qp_fails sample_flags
             sample_vehicle (sample_reference_line_with [overtake_at_50, stop_at_10])
             fresh_optimizer rough_profile)) ! 1 = (50, 50 + 1 / 10)
   \<and> m_s_soft_bounds (snd (SetUpStatesAndBounds externals_qp_fails sample_flags
             sample_vehicle (sample_reference_line_with [overtake_at_50, stop_at_10])
             fresh_optimizer rough_profile)) ! 1 = (60, 60 + 1 / 10)
   \<and> fst (m_s_bounds (snd (SetUpStatesAndBounds externals_qp_fails sample_flags
             sample_vehicle (sample_reference_line_with [overtake_at_50, stop_at_10])
             fresh_optimizer rough_profile)) ! 1)
       < snd (m_s_bounds (snd (SetUpStatesAndBounds externals_qp_fails sample_flags
             sample_vehicle (sample_reference_line_with [overtake_at_50, stop_at_10])
             fresh_optimizer rough_profile)) ! 1)
   \<and> fst (m_s_soft_bounds (snd (SetUpStatesAndBounds externals_qp_fails sample_flags
             sample_vehicle (sample_reference_line_with [overtake_at_50, stop_at_10])
             fresh_optimizer rough_profile)) ! 1)
       < snd (m_s_soft_bounds (snd (SetUpStatesAndBounds externals_qp_fails sample_flags
             sample_vehicle (sample_reference_line_with [overtake_at_50, stop_at_10])
             fresh_optimizer rough_profile)) ! 1)
   \<and> GetUnblockSRange wall_boundary (real 1 * (1 / 10)) = Some (200, 150)
   \<and> boundary_type wall_boundary = OVERTAKE
   \<and> st_boundary_step sample_flags (real 1 * (1 / 10)) (sample_speed_point (1 / 2) (1 / 10) 5)
        wall_boundary
        \<lparr>s_lower_bound = 0, s_upper_bound = 100, s_soft_lower_bound = 0, s_soft_upper_bound = 100\<rparr>
       = \<lparr>s_lower_bound = 100 - 1 / 10, s_upper_bound = 100,
          s_soft_lower_bound = 100 - 1 / 10, s_soft_upper_bound = 100\<rparr>"
proof -
  let ?rli = "sample_reference_line_with [overtake_at_50, stop_at_10]"
  let ?built = "SetUpStatesAndBounds externals_qp_fails sample_flags
             sample_vehicle ?rli fresh_optimizer rough_profile"
  let ?dp = "sample_speed_point (1 / 2) (1 / 10) 5"
  have s1: "GetUnblockSRange stop_at_10 (real 1 * (1 / 10)) = Some (10, 0)"
    by (simp add: stop_at_10_def)
  have s2: "boundary_type stop_at_10 = STOP" by (simp add: stop_at_10_def)
  have s3: "boundary_type stop_at_10 \<noteq> OTHER" by (simp add: stop_at_10_def)
  have mem: "stop_at_10 \<in> set (st_boundaries (st_graph_data ?rli))"
    by (simp add: sample_reference_line_with_def)
  have flag: "FLAGS_use_soft_bound_in_nonlinear_speed_opt sample_flags"
    by (simp add: sample_flags_def)
  have look: "lookup_by_time rough_profile (real 1 * (1 / 10)) \<noteq> None" by code_simp
  have look': "EvaluateByTime externals_qp_fails rough_profile (real 1 * (1 / 10)) \<noteq> None"
    using look by (simp add: externals_qp_fails_def sample_externals_def)
  have n: "1 < length (m_s_bounds (snd ?built))" by code_simp
  have o1: "GetUnblockSRange wall_boundary (real 1 * (1 / 10)) = Some (200, 150)"
    by (simp add: wall_boundary_def)
  have o2: "boundary_type wall_boundary = OVERTAKE" by (simp add: wall_boundary_def)
  note cs = collapse_repair_keeps_intervals_nonempty [where fl = sample_flags and dp = ?dp
      and kb = "\<lparr>s_lower_bound = 50, s_upper_bound = 100, s_soft_lower_bound = 60, s_soft_upper_bound = 100\<rparr>",
      OF s1]
  note co = collapse_repair_keeps_intervals_nonempty [where fl = sample_flags and dp = ?dp
      and kb = "\<lparr>s_lower_bound = 0, s_upper_bound = 100, s_soft_lower_bound = 0, s_soft_upper_bound = 100\<rparr>",
      OF o1]
  from cs s2 have stop: "st_boundary_step sample_flags (real 1 * (1 / 10)) ?dp stop_at_10
        \<lparr>s_lower_bound = 50, s_upper_bound = 100, s_soft_lower_bound = 60, s_soft_upper_bound = 100\<rparr>
       = \<lparr>s_lower_bound = 50, s_upper_bound = 50 + 1 / 10,
          s_soft_lower_bound = 60, s_soft_upper_bound = 60 + 1 / 10\<rparr>"
    by (simp add: Let_def)
  from co o2 have over: "st_boundary_step sample_flags (real 1 * (1 / 10)) ?dp wall_boundary
        \<lparr>s_lower_bound = 0, s_upper_bound = 100, s_soft_lower_bound = 0, s_soft_upper_bound = 100\<rparr>
       = \<lparr>s_lower_bound = 100 - 1 / 10, s_upper_bound = 100,
          s_soft_lower_bound = 100 - 1 / 10, s_soft_upper_bound = 100\<rparr>"
    by (simp add: Let_def)
  from cs s3 mem look' have knot: "\<exists>kb'. two_tier_knot_bounds externals_qp_fails sample_flags
               ?rli rough_profile 100 (real 1 * (1 / 10)) = Some kb'
          \<and> s_lower_bound kb' < s_upper_bound kb'
          \<and> s_soft_lower_bound kb' < s_soft_upper_bound kb'"
    by blast
  from cs s3 mem flag n
  have strict: "fst (m_s_bounds (snd ?built) ! 1) < snd (m_s_bounds (snd ?built) ! 1)
              \<and> fst (m_s_soft_bounds (snd ?built) ! 1) < snd (m_s_soft_bounds (snd ?built) ! 1)"
    by blast
  have hard: "m_s_bounds (snd ?built) ! 1 = (50, 50 + 1 / 10)" by code_simp
  have soft: "m_s_soft_bounds (snd ?built) ! 1 = (60, 60 + 1 / 10)" by code_simp
  from s1 s2 stop mem flag look knot n hard soft strict o1 o2 over show ?thesis by blast
qed
text \<open>
  C8. In the two-tier branch, when the path length is not negative, the check
  \<open>s_lower_bound > s_upper_bound\<close> never fires: at every knot the bounds that reach the check
  are ordered, and \<open>SetUpStatesAndBounds\<close> never returns the status of that check.
\<close>

theorem two_tier_bounds_never_cross:
  assumes "FLAGS_use_soft_bound_in_nonlinear_speed_opt fl"
    and "0 \<le> path_length (st_graph_data rli)"
  shows "fst (SetUpStatesAndBounds ext fl veh_param rli opt speed_data)
           \<noteq> Status PLANNING_ERROR msg_bounds_crossed
       \<and> (\<forall>curr_t kb.
            two_tier_knot_bounds ext fl rli speed_data (path_length (st_graph_data rli)) curr_t = Some kb
            \<longrightarrow> s_lower_bound kb \<le> s_upper_bound kb)"
proof (intro conjI allI impI)
  let ?o1 = "(set_up_states fl veh_param rli opt)\<lparr>m_s_bounds := [], m_s_soft_bounds := []\<rparr>"
  let ?knots = "[0..<nat (m_num_of_knots (set_up_states fl veh_param rli opt))]"
  have len: "0 \<le> m_total_length ?o1" using assms(2) by (simp add: set_up_states_fields)
  have never: "fst (two_tier_loop ext fl rli speed_data ?knots ?o1)
                 \<noteq> Some (Status PLANNING_ERROR msg_bounds_crossed)"
    by (rule two_tier_loop_never_crossed [OF len])
  show "fst (SetUpStatesAndBounds ext fl veh_param rli opt speed_data)
           \<noteq> Status PLANNING_ERROR msg_bounds_crossed"
    unfolding SetUpStatesAndBounds_two_tier(1) [OF assms(1)]
    using never by (auto simp: Status_OK_def split: option.splits)
next
  fix curr_t kb
  assume "two_tier_knot_bounds ext fl rli speed_data (path_length (st_graph_data rli)) curr_t = Some kb"
  from two_tier_knot_bounds_ordered [OF assms(2) this]
  show "s_lower_bound kb \<le> s_upper_bound kb" .
qed

theorem two_tier_bounds_never_cross_witness:
  "FLAGS_use_soft_bound_in_nonlinear_speed_opt sample_flags
   \<and> 0 \<le> path_length (st_graph_data (sample_reference_line_with [wall_boundary]))
   \<and> fst (SetUpStatesAndBounds externals_qp_fails sample_flags sample_vehicle
             (sample_reference_line_with [wall_boundary]) fresh_optimizer rough_profile)
       \<noteq> Status PLANNING_ERROR msg_bounds_crossed
   \<and> fst (SetUpStatesAndBounds externals_qp_fails sample_flags sample_vehicle
             (sample_reference_line_with [wall_boundary]) fresh_optimizer rough_profile)
       = Status_OK
   \<and> m_s_bounds (snd (SetUpStatesAndBounds externals_qp_fails sample_flags sample_vehicle
             (sample_reference_line_with [wall_boundary]) fresh_optimizer rough_profile))
       = [(999 / 10, 100), (999 / 10, 100), (999 / 10, 100)]"
proof -
  have h1: "FLAGS_use_soft_bound_in_nonlinear_speed_opt sample_flags"
    by (simp add: sample_flags_def)
  have h2: "0 \<le> path_length (st_graph_data (sample_reference_line_with [wall_boundary]))"
    by (simp add: sample_reference_line_with_def sample_reference_line_def)
  have v: "fst (SetUpStatesAndBounds externals_qp_fails sample_flags sample_vehicle
             (sample_reference_line_with [wall_boundary]) fresh_optimizer rough_profile)
       = Status_OK"
    by code_simp
  have w: "m_s_bounds (snd (SetUpStatesAndBounds externals_qp_fails sample_flags sample_vehicle
             (sample_reference_line_with [wall_boundary]) fresh_optimizer rough_profile))
       = [(999 / 10, 100), (999 / 10, 100), (999 / 10, 100)]"
    by code_simp
  from h1 h2 v w two_tier_bounds_never_cross [where ext = externals_qp_fails
        and veh_param = sample_vehicle and opt = fresh_optimizer and speed_data = rough_profile,
      OF h1 h2, THEN conjunct1]
  show ?thesis by blast
qed

text \<open>The single-tier branch has no repair: on the same input, with the flag off, the
  check fires.\<close>

lemma single_tier_bounds_cross:
  "fst (SetUpStatesAndBounds externals_qp_fails
          (sample_flags\<lparr>FLAGS_use_soft_bound_in_nonlinear_speed_opt := False\<rparr>) sample_vehicle
          (sample_reference_line_with [wall_boundary]) fresh_optimizer rough_profile)
     = Status PLANNING_ERROR msg_bounds_crossed"
  by code_simp

section \<open>The emission loop and the stages of Process\<close>

lemma emit_rest_shape:
  assumes "emit_rest delta_t distance velocity acceleration knots acc = Some emitted"
  shows "\<exists>m \<le> length knots.
           emitted = acc @ map (speed_point_at delta_t distance velocity acceleration) (take m knots)
         \<and> (m < length knots \<longrightarrow> velocity ! (knots ! m) < 0)
         \<and> (\<forall>i \<in> set (take m knots). 0 \<le> velocity ! i)"
  using assms
proof (induction knots arbitrary: acc)
  case Nil
  then show ?case by simp
next
  case (Cons i knots)
  show ?case
  proof (cases "length velocity \<le> i")
    case True
    with Cons.prems show ?thesis by simp
  next
    case in_range: False
    show ?thesis
    proof (cases "velocity ! i < 0")
      case True
      with Cons.prems in_range have "emitted = acc" by simp
      with True show ?thesis by (intro exI [of _ 0]) simp
    next
      case False
      show ?thesis
      proof (cases "length distance \<le> i \<or> length acceleration \<le> i")
        case True
        with Cons.prems in_range False show ?thesis by simp
      next
        case ok: False
        let ?acc1 = "acc @ [speed_point_at delta_t distance velocity acceleration i]"
        have "emit_rest delta_t distance velocity acceleration knots ?acc1 = Some emitted"
          using Cons.prems in_range False ok
          by (simp add: AppendSpeedPoint_def speed_point_at_def)
        from Cons.IH [OF this] obtain m where m: "m \<le> length knots"
          and e: "emitted = ?acc1 @ map (speed_point_at delta_t distance velocity acceleration) (take m knots)"
          and stop: "m < length knots \<longrightarrow> velocity ! (knots ! m) < 0"
          and pos: "\<forall>j \<in> set (take m knots). 0 \<le> velocity ! j"
          by blast
        have "Suc m \<le> length (i # knots)" using m by simp
        moreover have "emitted = acc @ map (speed_point_at delta_t distance velocity acceleration)
                                        (take (Suc m) (i # knots))"
          using e by simp
        moreover have "Suc m < length (i # knots) \<longrightarrow> velocity ! ((i # knots) ! Suc m) < 0"
          using stop by simp
        moreover have "\<forall>j \<in> set (take (Suc m) (i # knots)). 0 \<le> velocity ! j"
          using pos False by simp
        ultimately show ?thesis by blast
      qed
    qed
  qed
qed

lemma emit_rest_total:
  assumes "\<forall>i \<in> set knots. i < length distance \<and> i < length velocity \<and> i < length acceleration"
  shows "\<exists>emitted. emit_rest delta_t distance velocity acceleration knots acc = Some emitted"
  using assms
proof (induction knots arbitrary: acc)
  case Nil
  then show ?case by simp
next
  case (Cons i knots)
  then have i: "i < length distance" "i < length velocity" "i < length acceleration" by simp_all
  show ?case
  proof (cases "velocity ! i < 0")
    case True
    with i show ?thesis by simp
  next
    case False
    from Cons.prems have "\<forall>i \<in> set knots. i < length distance \<and> i < length velocity \<and> i < length acceleration"
      by simp
    from Cons.IH [OF this] False i show ?thesis by simp
  qed
qed

lemma emit_speed_data_total:
  assumes "distance \<noteq> []" "velocity \<noteq> []" "acceleration \<noteq> []"
    and "nat n \<le> length distance" "nat n \<le> length velocity" "nat n \<le> length acceleration"
  shows "\<exists>emitted. emit_speed_data n delta_t (distance, velocity, acceleration) = Some emitted"
proof -
  have "\<forall>i \<in> set [1..<nat n]. i < length distance \<and> i < length velocity \<and> i < length acceleration"
    using assms(4-6) by auto
  from emit_rest_total [OF this] assms(1-3) show ?thesis
    by (simp add: emit_speed_data_def)
qed

lemma emit_speed_data_shape:
  assumes "emit_speed_data n delta_t (distance, velocity, acceleration) = Some emitted"
  shows "\<exists>k. 1 \<le> k \<and> k \<le> max 1 (nat n)
           \<and> emitted = \<lparr>sp_s = distance ! 0, sp_t = 0, sp_v = velocity ! 0,
                         sp_a = acceleration ! 0, sp_da = 0\<rparr>
                        # map (speed_point_at delta_t distance velocity acceleration) [1..<k]
           \<and> (k < nat n \<longrightarrow> velocity ! k < 0)
           \<and> (\<forall>i. 1 \<le> i \<and> i < k \<longrightarrow> 0 \<le> velocity ! i)"
proof -
  let ?first = "\<lparr>sp_s = distance ! 0, sp_t = 0, sp_v = velocity ! 0,
                         sp_a = acceleration ! 0, sp_da = 0\<rparr>"
  from assms have run: "emit_rest delta_t distance velocity acceleration [1..<nat n] [?first] = Some emitted"
    by (simp add: emit_speed_data_def AppendSpeedPoint_def split: if_splits)
  from emit_rest_shape [OF run] obtain m where m: "m \<le> length [1..<nat n]"
    and e: "emitted = [?first] @ map (speed_point_at delta_t distance velocity acceleration) (take m [1..<nat n])"
    and stop: "m < length [1..<nat n] \<longrightarrow> velocity ! ([1..<nat n] ! m) < 0"
    and pos: "\<forall>i \<in> set (take m [1..<nat n]). 0 \<le> velocity ! i"
    by blast
  have tk: "take m [1..<nat n] = [1..<Suc m]"
    using m by (simp add: take_upt)
  have "1 \<le> Suc m" by simp
  moreover have "Suc m \<le> max 1 (nat n)" using m by simp
  moreover have "emitted = ?first # map (speed_point_at delta_t distance velocity acceleration) [1..<Suc m]"
    using e tk by simp
  moreover have "Suc m < nat n \<longrightarrow> velocity ! Suc m < 0"
    using stop by simp
  moreover have "\<forall>i. 1 \<le> i \<and> i < Suc m \<longrightarrow> 0 \<le> velocity ! i"
  proof (intro allI impI)
    fix i assume "1 \<le> i \<and> i < Suc m"
    then have "i \<in> set [1..<Suc m]" by (simp del: upt_Suc)
    with pos [unfolded tk] show "0 \<le> velocity ! i" by blast
  qed
  ultimately show ?thesis by blast
qed

lemma ok_Status_OK: "ok Status_OK"
  by (simp add: Status_OK_def)

lemma OptimizeByNLP_failure_keeps_arrays:
  assumes "OptimizeByNLP ext fl config opt arrays = Some (status, arrays')" and "\<not> ok status"
  shows "arrays' = arrays"
proof -
  obtain distance velocity acceleration where a: "arrays = (distance, velocity, acceleration)"
    by (cases arrays) auto
  obtain nlp_status results where r:
    "ipopt_OptimizeTNLP ext (nlp_interface fl config opt arrays
        (if use_warm_start config
         then Some (map (\<lambda>i. [distance ! i, velocity ! i, acceleration ! i]) [0..<length distance])
         else None)) = (nlp_status, results)"
    by (cases "ipopt_OptimizeTNLP ext (nlp_interface fl config opt arrays
        (if use_warm_start config
         then Some (map (\<lambda>i. [distance ! i, velocity ! i, acceleration ! i]) [0..<length distance])
         else None))") auto
  from assms show ?thesis
    unfolding OptimizeByNLP_def a prod.case Let_def r [unfolded a]
    by (auto simp: ok_Status_OK split: if_splits)
qed

lemma SmoothPathCurvature_keeps:
  assumes "SmoothPathCurvature ext opt path_data = Some (status, opt')"
  shows "m_num_of_knots opt' = m_num_of_knots opt \<and> m_delta_t opt' = m_delta_t opt
         \<and> m_speed_limit opt' = m_speed_limit opt"
  using assms unfolding SmoothPathCurvature_def Let_def
  by (auto split: if_splits option.splits)

lemma SmoothSpeedLimit_keeps:
  assumes "SmoothSpeedLimit ext opt = Some (status, opt')"
  shows "m_num_of_knots opt' = m_num_of_knots opt \<and> m_delta_t opt' = m_delta_t opt"
  using assms unfolding SmoothSpeedLimit_def Let_def
  by (auto split: if_splits option.splits)

text \<open>What \<open>Process\<close> does once the bounds and the QP are through.\<close>

lemma Process_after_qp:
  assumes "discretized_path path_data \<noteq> []" and "\<not> ReachedDestination rli"
    and "SetUpStatesAndBounds ext fl veh_param rli opt speed_data = (setup_status, o1)"
    and "ok setup_status"
    and "OptimizeByQP ext config o1 speed_data ([], [], []) = (qp_status, arrays)"
    and "ok qp_status"
  shows "Process ext fl config veh_param rli opt path_data (Some speed_data) =
           (case optimize_speed_by_nlp_interface ext fl config o1 path_data speed_data arrays of
              None \<Rightarrow> None
            | Some (speed_data', arrays', o2) \<Rightarrow>
                (case emit_speed_data (m_num_of_knots o2) (m_delta_t o2) arrays' of
                   None \<Rightarrow> None
                 | Some emitted \<Rightarrow> Some (Status_OK, Some (FillEnoughSpeedPoints ext emitted), o2)))"
  using assms by (simp add: Process_def)

text \<open>When the NLP stage fails in one of its four ways, the arrays stay and so do the knots.\<close>

lemma nlp_stage_failure:
  assumes "\<not> CheckSpeedLimitFeasibility o1
         \<or> (\<exists>st o2. SmoothPathCurvature ext o1 path_data = Some (st, o2) \<and> \<not> ok st)
         \<or> (\<exists>st o2 st' o3. SmoothPathCurvature ext o1 path_data = Some (st, o2) \<and> ok st
               \<and> SmoothSpeedLimit ext o2 = Some (st', o3) \<and> \<not> ok st')
         \<or> (\<exists>st o2 st' o3 st'' arrays'.
               SmoothPathCurvature ext o1 path_data = Some (st, o2) \<and> ok st
               \<and> SmoothSpeedLimit ext o2 = Some (st', o3) \<and> ok st'
               \<and> OptimizeByNLP ext fl config o3 arrays = Some (st'', arrays') \<and> \<not> ok st'')"
  shows "\<exists>speed_data' o2. optimize_speed_by_nlp_interface ext fl config o1 path_data speed_data arrays
                            = Some (speed_data', arrays, o2)
            \<and> m_num_of_knots o2 = m_num_of_knots o1 \<and> m_delta_t o2 = m_delta_t o1"
proof -
  consider (a) "\<not> CheckSpeedLimitFeasibility o1"
    | (b) st o2 where "CheckSpeedLimitFeasibility o1"
        "SmoothPathCurvature ext o1 path_data = Some (st, o2)" "\<not> ok st"
    | (c) st o2 st' o3 where "CheckSpeedLimitFeasibility o1"
        "SmoothPathCurvature ext o1 path_data = Some (st, o2)" "ok st"
        "SmoothSpeedLimit ext o2 = Some (st', o3)" "\<not> ok st'"
    | (d) st o2 st' o3 st'' arrays' where "CheckSpeedLimitFeasibility o1"
        "SmoothPathCurvature ext o1 path_data = Some (st, o2)" "ok st"
        "SmoothSpeedLimit ext o2 = Some (st', o3)" "ok st'"
        "OptimizeByNLP ext fl config o3 arrays = Some (st'', arrays')" "\<not> ok st''"
    using assms by blast
  then show ?thesis
  proof cases
    case a
    then show ?thesis by (simp add: optimize_speed_by_nlp_interface_def)
  next
    case b
    from SmoothPathCurvature_keeps [OF b(2)] b show ?thesis
      by (simp add: optimize_speed_by_nlp_interface_def)
  next
    case c
    from SmoothPathCurvature_keeps [OF c(2)] SmoothSpeedLimit_keeps [OF c(4)] c show ?thesis
      by (simp add: optimize_speed_by_nlp_interface_def)
  next
    case d
    have same: "arrays' = arrays" by (rule OptimizeByNLP_failure_keeps_arrays [OF d(6) d(7)])
    from SmoothPathCurvature_keeps [OF d(2)] SmoothSpeedLimit_keeps [OF d(4)] d same show ?thesis
      by (simp add: optimize_speed_by_nlp_interface_def)
  qed
qed

lemma SetUpStatesAndBounds_fields:
  "m_max_speed (snd (SetUpStatesAndBounds ext fl veh_param rli opt speed_data)) = get_max_speed rli"
  "m_s_dot_init (snd (SetUpStatesAndBounds ext fl veh_param rli opt speed_data))
     = init_point_v (st_graph_data rli)"
  "m_delta_t (snd (SetUpStatesAndBounds ext fl veh_param rli opt speed_data)) = 1 / 10"
  "m_num_of_knots (snd (SetUpStatesAndBounds ext fl veh_param rli opt speed_data))
     = static_cast_int (total_time_by_conf (st_graph_data rli) / (1 / 10)) + 1"
proof -
  let ?o1 = "set_up_states fl veh_param rli opt"
  let ?knots = "[0..<nat (m_num_of_knots ?o1)]"
  let ?two = "two_tier_loop ext fl rli speed_data ?knots (?o1\<lparr>m_s_bounds := [], m_s_soft_bounds := []\<rparr>)"
  let ?one = "single_tier_loop rli ?knots (?o1\<lparr>m_s_bounds := []\<rparr>)"
  let ?P = "\<lambda>o2. m_max_speed o2 = get_max_speed rli
                \<and> m_s_dot_init o2 = init_point_v (st_graph_data rli)
                \<and> m_delta_t o2 = 1 / 10
                \<and> m_num_of_knots o2
                    = static_cast_int (total_time_by_conf (st_graph_data rli) / (1 / 10)) + 1"
  have two: "?P (snd ?two)"
    using two_tier_loop_keeps [of ext fl rli speed_data ?knots "?o1\<lparr>m_s_bounds := [], m_s_soft_bounds := []\<rparr>"]
    by (simp add: set_up_states_fields)
  have one: "?P (snd ?one)"
    using single_tier_loop_keeps [of rli ?knots "?o1\<lparr>m_s_bounds := []\<rparr>"]
    by (simp add: set_up_states_fields)
  have "?P (snd (SetUpStatesAndBounds ext fl veh_param rli opt speed_data))"
  proof (cases "FLAGS_use_soft_bound_in_nonlinear_speed_opt fl")
    case True
    with two show ?thesis
      by (cases ?two) (simp add: SetUpStatesAndBounds_def Let_def split: option.splits)
  next
    case False
    with one show ?thesis
      by (cases ?one) (simp add: SetUpStatesAndBounds_def Let_def split: option.splits)
  qed
  then show "m_max_speed (snd (SetUpStatesAndBounds ext fl veh_param rli opt speed_data)) = get_max_speed rli"
    "m_s_dot_init (snd (SetUpStatesAndBounds ext fl veh_param rli opt speed_data))
     = init_point_v (st_graph_data rli)"
    "m_delta_t (snd (SetUpStatesAndBounds ext fl veh_param rli opt speed_data)) = 1 / 10"
    "m_num_of_knots (snd (SetUpStatesAndBounds ext fl veh_param rli opt speed_data))
     = static_cast_int (total_time_by_conf (st_graph_data rli) / (1 / 10)) + 1"
    by blast+
qed

lemma speed_qp_problem_dx_bounds:
  "dx_bounds (speed_qp_problem ext config opt speed_data)
     = (0, max (m_max_speed opt) (m_s_dot_init opt + 1 / 10))"
  by (simp add: speed_qp_problem_def Let_def)

lemma nlp_stage_keeps:
  assumes "optimize_speed_by_nlp_interface ext fl config o1 path_data speed_data arrays
             = Some (speed_data', arrays', o2)"
  shows "m_num_of_knots o2 = m_num_of_knots o1 \<and> m_delta_t o2 = m_delta_t o1"
proof (cases "CheckSpeedLimitFeasibility o1")
  case False
  with assms show ?thesis by (simp add: optimize_speed_by_nlp_interface_def)
next
  case check: True
  show ?thesis
  proof (cases "SmoothPathCurvature ext o1 path_data")
    case None
    with assms check show ?thesis by (simp add: optimize_speed_by_nlp_interface_def)
  next
    case (Some r)
    then obtain st oa where a: "SmoothPathCurvature ext o1 path_data = Some (st, oa)"
      by (cases r) auto
    note ka = SmoothPathCurvature_keeps [OF a]
    show ?thesis
    proof (cases "ok st")
      case False
      with assms check a ka show ?thesis by (simp add: optimize_speed_by_nlp_interface_def)
    next
      case st_ok: True
      show ?thesis
      proof (cases "SmoothSpeedLimit ext oa")
        case None
        with assms check a st_ok show ?thesis by (simp add: optimize_speed_by_nlp_interface_def)
      next
        case (Some r')
        then obtain st' ob where b: "SmoothSpeedLimit ext oa = Some (st', ob)"
          by (cases r') auto
        note kb = SmoothSpeedLimit_keeps [OF b]
        from assms check a st_ok b ka kb show ?thesis
          by (auto simp: optimize_speed_by_nlp_interface_def split: if_splits option.splits)
      qed
    qed
  qed
qed

section \<open>Claims on Process and the speed QP\<close>

text \<open>
  C1. When the speed QP has succeeded and the NLP stage does not replace its result, because
  \<open>CheckSpeedLimitFeasibility\<close> fails, or the smoothing of the path curvature or of the speed
  limit fails, or \<open>OptimizeByNLP\<close> fails, then \<open>Process\<close> returns OK, and the speed data it
  hands to \<open>FillEnoughSpeedPoints\<close> is emitted from the QP's distance, velocity and
  acceleration arrays. The arrays hold an entry for every knot (an index outside them is
  undefined behaviour in the code).
\<close>

theorem qp_result_retained_when_nlp_stage_fails:
  assumes "discretized_path path_data \<noteq> []" and "\<not> ReachedDestination rli"
    and "SetUpStatesAndBounds ext fl veh_param rli opt speed_data = (setup_status, o1)"
    and "ok setup_status"
    and "OptimizeByQP ext config o1 speed_data ([], [], [])
           = (qp_status, (distance, velocity, acceleration))"
    and "ok qp_status"
    and "distance \<noteq> []" and "velocity \<noteq> []" and "acceleration \<noteq> []"
    and "nat (m_num_of_knots o1) \<le> length distance"
    and "nat (m_num_of_knots o1) \<le> length velocity"
    and "nat (m_num_of_knots o1) \<le> length acceleration"
    and "\<not> CheckSpeedLimitFeasibility o1
         \<or> (\<exists>st o2. SmoothPathCurvature ext o1 path_data = Some (st, o2) \<and> \<not> ok st)
         \<or> (\<exists>st o2 st' o3. SmoothPathCurvature ext o1 path_data = Some (st, o2) \<and> ok st
               \<and> SmoothSpeedLimit ext o2 = Some (st', o3) \<and> \<not> ok st')
         \<or> (\<exists>st o2 st' o3 st'' arrays'.
               SmoothPathCurvature ext o1 path_data = Some (st, o2) \<and> ok st
               \<and> SmoothSpeedLimit ext o2 = Some (st', o3) \<and> ok st'
               \<and> OptimizeByNLP ext fl config o3 (distance, velocity, acceleration)
                    = Some (st'', arrays')
               \<and> \<not> ok st'')"
  shows "\<exists>emitted opt'.
           emit_speed_data (m_num_of_knots o1) (m_delta_t o1) (distance, velocity, acceleration)
             = Some emitted
         \<and> Process ext fl config veh_param rli opt path_data (Some speed_data)
             = Some (Status_OK, Some (FillEnoughSpeedPoints ext emitted), opt')"
proof -
  from nlp_stage_failure [OF assms(13), of speed_data] obtain speed_data' o2 where
    stage: "optimize_speed_by_nlp_interface ext fl config o1 path_data speed_data
              (distance, velocity, acceleration)
            = Some (speed_data', (distance, velocity, acceleration), o2)"
    and same: "m_num_of_knots o2 = m_num_of_knots o1" "m_delta_t o2 = m_delta_t o1"
    by blast
  from emit_speed_data_total [OF assms(7-12), of "m_delta_t o1"] obtain emitted where
    e: "emit_speed_data (m_num_of_knots o1) (m_delta_t o1) (distance, velocity, acceleration)
          = Some emitted"
    by blast
  have "Process ext fl config veh_param rli opt path_data (Some speed_data)
          = Some (Status_OK, Some (FillEnoughSpeedPoints ext emitted), o2)"
    unfolding Process_after_qp [OF assms(1-6)] stage using e same by simp
  with e show ?thesis by blast
qed

theorem qp_result_retained_when_nlp_stage_fails_witness:
  "discretized_path sample_path \<noteq> []
   \<and> \<not> ReachedDestination (sample_reference_line 5)
   \<and> ok (fst (SetUpStatesAndBounds externals_nlp_fails sample_flags sample_vehicle
                 (sample_reference_line 5) fresh_optimizer rough_profile))
   \<and> OptimizeByQP externals_nlp_fails sample_config
        (snd (SetUpStatesAndBounds externals_nlp_fails sample_flags sample_vehicle
                (sample_reference_line 5) fresh_optimizer rough_profile))
        rough_profile ([], [], [])
      = (Status_OK, ([0, 1 / 2, 1], [5, 5, 5], [0, 0, 0]))
   \<and> (\<exists>st o2 st' o3 st'' arrays'.
         SmoothPathCurvature externals_nlp_fails
           (snd (SetUpStatesAndBounds externals_nlp_fails sample_flags sample_vehicle
                   (sample_reference_line 5) fresh_optimizer rough_profile)) sample_path
           = Some (st, o2) \<and> ok st
         \<and> SmoothSpeedLimit externals_nlp_fails o2 = Some (st', o3) \<and> ok st'
         \<and> OptimizeByNLP externals_nlp_fails sample_flags sample_config o3
              ([0, 1 / 2, 1], [5, 5, 5], [0, 0, 0]) = Some (st'', arrays')
         \<and> \<not> ok st'')
   \<and> (\<exists>opt'. Process externals_nlp_fails sample_flags sample_config sample_vehicle
                 (sample_reference_line 5) fresh_optimizer sample_path (Some rough_profile)
               = Some (Status_OK,
                       Some (FillEnoughSpeedPoints externals_nlp_fails
                               [\<lparr>sp_s = 0, sp_t = 0, sp_v = 5, sp_a = 0, sp_da = 0\<rparr>,
                                \<lparr>sp_s = 1 / 2, sp_t = 1 / 10, sp_v = 5, sp_a = 0, sp_da = 0\<rparr>,
                                \<lparr>sp_s = 1, sp_t = 1 / 5, sp_v = 5, sp_a = 0, sp_da = 0\<rparr>]),
                       opt'))"
proof -
  let ?E = externals_nlp_fails
  let ?R = "sample_reference_line 5"
  let ?SU = "SetUpStatesAndBounds ?E sample_flags sample_vehicle ?R fresh_optimizer rough_profile"
  let ?A = "([0, 1 / 2, 1], [5, 5, 5], [0, 0, 0]) :: opt_arrays"
  have h1: "discretized_path sample_path \<noteq> []" by (simp add: sample_path_def)
  have h2: "\<not> ReachedDestination ?R" by (simp add: sample_reference_line_def)
  have h3: "?SU = (fst ?SU, snd ?SU)" by simp
  have h4: "ok (fst ?SU)" by code_simp
  have h5: "OptimizeByQP ?E sample_config (snd ?SU) rough_profile ([], [], [])
              = (Status_OK, ([0, 1 / 2, 1], [5, 5, 5], [0, 0, 0]))"
    by code_simp
  have h6: "ok Status_OK" by (simp add: Status_OK_def)
  have h7: "[0, 1 / 2, 1 :: real] \<noteq> []" by simp
  have h8: "[5, 5, 5 :: real] \<noteq> []" by simp
  have h9: "[0, 0, 0 :: real] \<noteq> []" by simp
  have h10: "nat (m_num_of_knots (snd ?SU)) \<le> length [0, 1 / 2, 1 :: real]" by code_simp
  have h11: "nat (m_num_of_knots (snd ?SU)) \<le> length [5, 5, 5 :: real]" by code_simp
  have h12: "nat (m_num_of_knots (snd ?SU)) \<le> length [0, 0, 0 :: real]" by code_simp
  have chain: "case SmoothPathCurvature ?E (snd ?SU) sample_path of
                 None \<Rightarrow> False
               | Some (st, o2) \<Rightarrow>
                   ok st \<and>
                   (case SmoothSpeedLimit ?E o2 of
                      None \<Rightarrow> False
                    | Some (st', o3) \<Rightarrow>
                        ok st' \<and>
                        (case OptimizeByNLP ?E sample_flags sample_config o3 ?A of
                           None \<Rightarrow> False
                         | Some (st'', arrays') \<Rightarrow> \<not> ok st''))"
    by code_simp
  have d: "\<exists>st o2 st' o3 st'' arrays'.
         SmoothPathCurvature ?E (snd ?SU) sample_path = Some (st, o2) \<and> ok st
         \<and> SmoothSpeedLimit ?E o2 = Some (st', o3) \<and> ok st'
         \<and> OptimizeByNLP ?E sample_flags sample_config o3 ?A = Some (st'', arrays')
         \<and> \<not> ok st''"
  proof -
    from chain obtain st o2 where
      a: "SmoothPathCurvature ?E (snd ?SU) sample_path = Some (st, o2)" and a_ok: "ok st"
      and rest: "case SmoothSpeedLimit ?E o2 of
                      None \<Rightarrow> False
                    | Some (st', o3) \<Rightarrow>
                        ok st' \<and>
                        (case OptimizeByNLP ?E sample_flags sample_config o3 ?A of
                           None \<Rightarrow> False
                         | Some (st'', arrays') \<Rightarrow> \<not> ok st'')"
      by (cases "SmoothPathCurvature ?E (snd ?SU) sample_path") auto
    from rest obtain st' o3 where
      b: "SmoothSpeedLimit ?E o2 = Some (st', o3)" and b_ok: "ok st'"
      and rest': "case OptimizeByNLP ?E sample_flags sample_config o3 ?A of
                           None \<Rightarrow> False
                         | Some (st'', arrays') \<Rightarrow> \<not> ok st''"
      by (cases "SmoothSpeedLimit ?E o2") auto
    from rest' obtain st'' arrays' where
      c: "OptimizeByNLP ?E sample_flags sample_config o3 ?A = Some (st'', arrays')"
      and c_bad: "\<not> ok st''"
      by (cases "OptimizeByNLP ?E sample_flags sample_config o3 ?A") auto
    from a a_ok b b_ok c c_bad show ?thesis by blast
  qed
  have h13: "\<not> CheckSpeedLimitFeasibility (snd ?SU)
         \<or> (\<exists>st o2. SmoothPathCurvature ?E (snd ?SU) sample_path = Some (st, o2) \<and> \<not> ok st)
         \<or> (\<exists>st o2 st' o3. SmoothPathCurvature ?E (snd ?SU) sample_path = Some (st, o2) \<and> ok st
               \<and> SmoothSpeedLimit ?E o2 = Some (st', o3) \<and> \<not> ok st')
         \<or> (\<exists>st o2 st' o3 st'' arrays'.
               SmoothPathCurvature ?E (snd ?SU) sample_path = Some (st, o2) \<and> ok st
               \<and> SmoothSpeedLimit ?E o2 = Some (st', o3) \<and> ok st'
               \<and> OptimizeByNLP ?E sample_flags sample_config o3 ?A = Some (st'', arrays')
               \<and> \<not> ok st'')"
    using d by blast
  from qp_result_retained_when_nlp_stage_fails [OF h1 h2 h3 h4 h5 h6 h7 h8 h9 h10 h11 h12 h13]
  obtain emitted opt' where
    e: "emit_speed_data (m_num_of_knots (snd ?SU)) (m_delta_t (snd ?SU)) ?A = Some emitted"
    and p: "Process ?E sample_flags sample_config sample_vehicle ?R fresh_optimizer sample_path
              (Some rough_profile)
            = Some (Status_OK, Some (FillEnoughSpeedPoints ?E emitted), opt')"
    by blast
  have v: "emit_speed_data (m_num_of_knots (snd ?SU)) (m_delta_t (snd ?SU)) ?A
             = Some [\<lparr>sp_s = 0, sp_t = 0, sp_v = 5, sp_a = 0, sp_da = 0\<rparr>,
                     \<lparr>sp_s = 1 / 2, sp_t = 1 / 10, sp_v = 5, sp_a = 0, sp_da = 0\<rparr>,
                     \<lparr>sp_s = 1, sp_t = 1 / 5, sp_v = 5, sp_a = 0, sp_da = 0\<rparr>]"
    by code_simp
  from e v have "emitted = [\<lparr>sp_s = 0, sp_t = 0, sp_v = 5, sp_a = 0, sp_da = 0\<rparr>,
                     \<lparr>sp_s = 1 / 2, sp_t = 1 / 10, sp_v = 5, sp_a = 0, sp_da = 0\<rparr>,
                     \<lparr>sp_s = 1, sp_t = 1 / 5, sp_v = 5, sp_a = 0, sp_da = 0\<rparr>]"
    by simp
  with p have "\<exists>opt'. Process ?E sample_flags sample_config sample_vehicle ?R fresh_optimizer
                 sample_path (Some rough_profile)
               = Some (Status_OK,
                       Some (FillEnoughSpeedPoints ?E
                               [\<lparr>sp_s = 0, sp_t = 0, sp_v = 5, sp_a = 0, sp_da = 0\<rparr>,
                                \<lparr>sp_s = 1 / 2, sp_t = 1 / 10, sp_v = 5, sp_a = 0, sp_da = 0\<rparr>,
                                \<lparr>sp_s = 1, sp_t = 1 / 5, sp_v = 5, sp_a = 0, sp_da = 0\<rparr>]),
                       opt')"
    by blast
  with h1 h2 h4 h5 d show ?thesis by blast
qed

text \<open>
  C5, as the code has it. When \<open>Process\<close> returns a failure status after its input
  validation has passed (the output pointer is not null and the path is not empty), which
  is a failure of the bounds build or of the speed QP, the output speed data is empty.
\<close>

theorem failure_after_validation_clears_output:
  assumes "Process ext fl config veh_param rli opt path_data (Some speed_data)
             = Some (status, out, opt')"
    and "\<not> ok status"
    and "discretized_path path_data \<noteq> []"
  shows "out = Some []"
proof -
  obtain setup_status o1 where su:
    "SetUpStatesAndBounds ext fl veh_param rli opt speed_data = (setup_status, o1)"
    by (cases "SetUpStatesAndBounds ext fl veh_param rli opt speed_data") auto
  obtain qp_status arrays where qp:
    "OptimizeByQP ext config o1 speed_data ([], [], []) = (qp_status, arrays)"
    by (cases "OptimizeByQP ext config o1 speed_data ([], [], [])") auto
  show ?thesis
  proof (cases "ReachedDestination rli")
    case True
    with assms show ?thesis by (simp add: Process_def ok_Status_OK)
  next
    case nd: False
    show ?thesis
    proof (cases "ok setup_status")
      case False
      with assms nd su show ?thesis by (simp add: Process_def)
    next
      case s_ok: True
      show ?thesis
      proof (cases "ok qp_status")
        case False
        with assms nd su s_ok qp show ?thesis by (simp add: Process_def)
      next
        case True
        from assms(1) have "ok status"
          unfolding Process_after_qp [OF assms(3) nd su s_ok qp True]
          by (auto simp: ok_Status_OK split: option.splits)
        with assms(2) show ?thesis by simp
      qed
    qed
  qed
qed

theorem failure_after_validation_clears_output_witness:
  "Process externals_qp_fails sample_flags sample_config sample_vehicle (sample_reference_line 5)
       fresh_optimizer sample_path (Some rough_profile)
     = Some (Status PLANNING_ERROR ''Speed Optimization by Quadratic Programming failed'',
             Some [],
             snd (SetUpStatesAndBounds externals_qp_fails sample_flags sample_vehicle
                    (sample_reference_line 5) fresh_optimizer rough_profile))
   \<and> \<not> ok (Status PLANNING_ERROR ''Speed Optimization by Quadratic Programming failed'')
   \<and> discretized_path sample_path \<noteq> []
   \<and> rough_profile \<noteq> []"
proof -
  let ?E = externals_qp_fails
  let ?R = "sample_reference_line 5"
  let ?SU = "SetUpStatesAndBounds ?E sample_flags sample_vehicle ?R fresh_optimizer rough_profile"
  let ?P = "Process ?E sample_flags sample_config sample_vehicle ?R fresh_optimizer sample_path
              (Some rough_profile)"
  have h3: "discretized_path sample_path \<noteq> []" by (simp add: sample_path_def)
  have h2: "\<not> ok (Status PLANNING_ERROR ''Speed Optimization by Quadratic Programming failed'')"
    by simp
  have nd: "\<not> ReachedDestination ?R" by (simp add: sample_reference_line_def)
  have su: "ok (fst ?SU)" by code_simp
  have qp: "OptimizeByQP ?E sample_config (snd ?SU) rough_profile ([], [], [])
              = (Status PLANNING_ERROR ''Speed Optimization by Quadratic Programming failed'',
                 ([], [], []))"
    by (simp add: OptimizeByQP_def externals_qp_fails_def sample_externals_def failing_qp_def)
  have "\<exists>out opt'. ?P = Some (Status PLANNING_ERROR
                                 ''Speed Optimization by Quadratic Programming failed'', out, opt')
          \<and> opt' = snd ?SU"
    using h3 nd su qp by (cases ?SU) (simp add: Process_def)
  then obtain out where h1: "?P = Some (Status PLANNING_ERROR
                                 ''Speed Optimization by Quadratic Programming failed'', out, snd ?SU)"
    by blast
  from failure_after_validation_clears_output [OF h1 h2 h3] have "out = Some []" .
  with h1 h2 h3 show ?thesis by (simp add: rough_profile_def)
qed

text \<open>
  C5 as stated fails: on an empty path \<open>Process\<close> returns a failure status and the output
  speed data still holds the points it held at the call.
\<close>

theorem empty_path_failure_keeps_output:
  "Process externals_qp_fails sample_flags sample_config sample_vehicle (sample_reference_line 5)
       fresh_optimizer \<lparr>discretized_path = []\<rparr> (Some rough_profile)
     = Some (Status PLANNING_ERROR ''Speed Optimizer receives empty path data'',
             Some rough_profile, fresh_optimizer)
   \<and> \<not> ok (Status PLANNING_ERROR ''Speed Optimizer receives empty path data'')
   \<and> rough_profile \<noteq> []"
  by (simp add: Process_def rough_profile_def)

text \<open>
  C6, as the code has it. The speed QP that \<open>Process\<close> solves has the velocity box
  \<open>[0, max(max_speed, s_dot_init + 0.1)]\<close> at every knot, where \<open>max_speed\<close> is the reference
  line's max speed and \<open>s_dot_init\<close> the initial speed; the box is \<open>[0, max_speed]\<close> when
  \<open>s_dot_init + 0.1 \<le> max_speed\<close>. For a solver whose velocities stay in the box it is
  given, up to \<open>eps\<close> above, every velocity that \<open>OptimizeByQP\<close> returns lies in
  \<open>[0, max(max_speed, s_dot_init + 0.1) + eps]\<close>.
\<close>

theorem speed_qp_velocity_box:
  "dx_bounds (speed_qp_problem ext config
                (snd (SetUpStatesAndBounds ext fl veh_param rli opt speed_data)) speed_data)
     = (0, max (get_max_speed rli) (init_point_v (st_graph_data rli) + 1 / 10))
   \<and> (init_point_v (st_graph_data rli) + 1 / 10 \<le> get_max_speed rli \<longrightarrow>
        dx_bounds (speed_qp_problem ext config
                (snd (SetUpStatesAndBounds ext fl veh_param rli opt speed_data)) speed_data)
          = (0, get_max_speed rli))
   \<and> ((\<forall>problem opt_x opt_dx opt_ddx.
          speed_problem_Optimize ext problem = Some (opt_x, opt_dx, opt_ddx) \<longrightarrow>
          (\<forall>v \<in> set opt_dx. fst (dx_bounds problem) \<le> v \<and> v \<le> snd (dx_bounds problem) + eps))
       \<longrightarrow> (\<forall>qp_status distance velocity acceleration.
              OptimizeByQP ext config (snd (SetUpStatesAndBounds ext fl veh_param rli opt speed_data))
                  speed_data ([], [], []) = (qp_status, (distance, velocity, acceleration))
              \<longrightarrow> ok qp_status
              \<longrightarrow> (\<forall>v \<in> set velocity.
                     0 \<le> v \<and> v \<le> max (get_max_speed rli) (init_point_v (st_graph_data rli) + 1 / 10) + eps)))"
proof (intro conjI impI allI)
  let ?o1 = "snd (SetUpStatesAndBounds ext fl veh_param rli opt speed_data)"
  let ?p = "speed_qp_problem ext config ?o1 speed_data"
  show box: "dx_bounds ?p = (0, max (get_max_speed rli) (init_point_v (st_graph_data rli) + 1 / 10))"
    by (simp add: speed_qp_problem_dx_bounds SetUpStatesAndBounds_fields)
  {
    assume "init_point_v (st_graph_data rli) + 1 / 10 \<le> get_max_speed rli"
    then show "dx_bounds ?p = (0, get_max_speed rli)"
      unfolding box by simp
  }
  fix qp_status distance velocity acceleration
  assume solver: "\<forall>problem opt_x opt_dx opt_ddx.
          speed_problem_Optimize ext problem = Some (opt_x, opt_dx, opt_ddx) \<longrightarrow>
          (\<forall>v \<in> set opt_dx. fst (dx_bounds problem) \<le> v \<and> v \<le> snd (dx_bounds problem) + eps)"
    and qp: "OptimizeByQP ext config ?o1 speed_data ([], [], [])
               = (qp_status, (distance, velocity, acceleration))"
    and ok: "ok qp_status"
  from qp ok have "speed_problem_Optimize ext ?p = Some (distance, velocity, acceleration)"
    by (auto simp: OptimizeByQP_def split: option.splits)
  with solver have "\<forall>v \<in> set velocity. fst (dx_bounds ?p) \<le> v \<and> v \<le> snd (dx_bounds ?p) + eps"
    by blast
  then show "\<forall>v \<in> set velocity.
      0 \<le> v \<and> v \<le> max (get_max_speed rli) (init_point_v (st_graph_data rli) + 1 / 10) + eps"
    unfolding box by simp
qed

theorem speed_qp_velocity_box_witness:
  "init_point_v (st_graph_data (sample_reference_line 5)) + 1 / 10
     \<le> get_max_speed (sample_reference_line 5)
   \<and> dx_bounds (speed_qp_problem externals_box_qp sample_config
                  (snd (SetUpStatesAndBounds externals_box_qp sample_flags sample_vehicle
                          (sample_reference_line 5) fresh_optimizer rough_profile)) rough_profile)
       = (0, 10)
   \<and> OptimizeByQP externals_box_qp sample_config
        (snd (SetUpStatesAndBounds externals_box_qp sample_flags sample_vehicle
                (sample_reference_line 5) fresh_optimizer rough_profile)) rough_profile ([], [], [])
       = (Status_OK, ([0, 0, 0], [10, 10, 10], [0, 0, 0]))
   \<and> (0 :: real) \<le> 10
   \<and> (10 :: real) \<le> max (get_max_speed (sample_reference_line 5))
                           (init_point_v (st_graph_data (sample_reference_line 5)) + 1 / 10) + 0"
proof -
  let ?E = externals_box_qp
  let ?R = "sample_reference_line 5"
  let ?SU = "SetUpStatesAndBounds ?E sample_flags sample_vehicle ?R fresh_optimizer rough_profile"
  note c = speed_qp_velocity_box [where ext = ?E and config = sample_config and fl = sample_flags
      and veh_param = sample_vehicle and rli = ?R and opt = fresh_optimizer
      and speed_data = rough_profile and eps = 0]
  have h1: "init_point_v (st_graph_data ?R) + 1 / 10 \<le> get_max_speed ?R"
    by (simp add: sample_reference_line_def)
  have h2: "\<forall>problem opt_x opt_dx opt_ddx.
          speed_problem_Optimize ?E problem = Some (opt_x, opt_dx, opt_ddx) \<longrightarrow>
          (\<forall>v \<in> set opt_dx. fst (dx_bounds problem) \<le> v \<and> v \<le> snd (dx_bounds problem) + 0)"
    by (auto simp: externals_box_qp_def sample_externals_def box_qp_def split: if_splits)
  have box: "dx_bounds (speed_qp_problem ?E sample_config (snd ?SU) rough_profile) = (0, 10)"
    using c h1 by (simp add: sample_reference_line_def)
  have qp: "OptimizeByQP ?E sample_config (snd ?SU) rough_profile ([], [], [])
              = (Status_OK, ([0, 0, 0], [10, 10, 10], [0, 0, 0]))"
    by code_simp
  have all: "\<forall>v \<in> set [10, 10, 10 :: real].
               0 \<le> v \<and> v \<le> max (get_max_speed ?R) (init_point_v (st_graph_data ?R) + 1 / 10) + 0"
    using c h2 qp by (simp add: Status_OK_def)
  from h1 box qp all show ?thesis by simp
qed

text \<open>
  C6 as stated fails: with max speed 10 and initial speed 15 the box is \<open>[0, 15.1]\<close>, and a
  solver that stays in the box it is given returns velocities above the max speed.
\<close>

theorem speed_qp_velocity_box_exceeds_max_speed:
  "get_max_speed (sample_reference_line 15) = 10
   \<and> dx_bounds (speed_qp_problem externals_box_qp sample_config
                  (snd (SetUpStatesAndBounds externals_box_qp sample_flags sample_vehicle
                          (sample_reference_line 15) fresh_optimizer rough_profile)) rough_profile)
       = (0, 151 / 10)
   \<and> OptimizeByQP externals_box_qp sample_config
        (snd (SetUpStatesAndBounds externals_box_qp sample_flags sample_vehicle
                (sample_reference_line 15) fresh_optimizer rough_profile)) rough_profile ([], [], [])
       = (Status_OK, ([0, 0, 0], [151 / 10, 151 / 10, 151 / 10], [0, 0, 0]))
   \<and> (10 :: real) < 151 / 10"
  by code_simp

text \<open>
  C7, as the code has it. When \<open>Process\<close> returns OK and the destination is not reached, the
  speed data it hands to \<open>FillEnoughSpeedPoints\<close> is built from the arrays the NLP stage
  leaves: first the point \<open>(distance[0], 0, velocity[0], acceleration[0], 0)\<close>, then for
  \<open>i = 1, 2, ...\<close> below the number of knots, up to the first \<open>i\<close> with \<open>velocity[i] < 0\<close>,
  the point \<open>(distance[i], i * 0.1, velocity[i], acceleration[i],
  (acceleration[i] - acceleration[i-1]) / 0.1)\<close>. Every one of these points has \<open>t \<ge> 0\<close>, and
  every point after the first has \<open>v \<ge> 0\<close>.
\<close>

theorem emitted_speed_data:
  assumes "Process ext fl config veh_param rli opt path_data (Some speed_data)
             = Some (status, out, opt')"
    and "ok status"
    and "\<not> ReachedDestination rli"
  shows "\<exists>distance velocity acceleration k.
           (\<exists>speed_data'.
              optimize_speed_by_nlp_interface ext fl config
                (snd (SetUpStatesAndBounds ext fl veh_param rli opt speed_data)) path_data speed_data
                (snd (OptimizeByQP ext config
                       (snd (SetUpStatesAndBounds ext fl veh_param rli opt speed_data))
                       speed_data ([], [], [])))
              = Some (speed_data', (distance, velocity, acceleration), opt'))
         \<and> 1 \<le> k \<and> k \<le> max 1 (nat (m_num_of_knots opt'))
         \<and> out = Some (FillEnoughSpeedPoints ext
                         (\<lparr>sp_s = distance ! 0, sp_t = 0, sp_v = velocity ! 0,
                           sp_a = acceleration ! 0, sp_da = 0\<rparr>
                          # map (speed_point_at (1 / 10) distance velocity acceleration) [1..<k]))
         \<and> (k < nat (m_num_of_knots opt') \<longrightarrow> velocity ! k < 0)
         \<and> (\<forall>i. 1 \<le> i \<and> i < k \<longrightarrow> 0 \<le> velocity ! i)
         \<and> (\<forall>p \<in> set (\<lparr>sp_s = distance ! 0, sp_t = 0, sp_v = velocity ! 0,
                           sp_a = acceleration ! 0, sp_da = 0\<rparr>
                          # map (speed_point_at (1 / 10) distance velocity acceleration) [1..<k]).
               0 \<le> sp_t p)
         \<and> (\<forall>p \<in> set (map (speed_point_at (1 / 10) distance velocity acceleration) [1..<k]).
               0 \<le> sp_v p)"
proof -
  let ?o1 = "snd (SetUpStatesAndBounds ext fl veh_param rli opt speed_data)"
  let ?qp = "OptimizeByQP ext config ?o1 speed_data ([], [], [])"
  have path: "discretized_path path_data \<noteq> []"
    using assms(1,2) by (auto simp: Process_def split: if_splits)
  have su: "SetUpStatesAndBounds ext fl veh_param rli opt speed_data
              = (fst (SetUpStatesAndBounds ext fl veh_param rli opt speed_data), ?o1)" by simp
  have s_ok: "ok (fst (SetUpStatesAndBounds ext fl veh_param rli opt speed_data))"
  proof (rule ccontr)
    assume "\<not> ok (fst (SetUpStatesAndBounds ext fl veh_param rli opt speed_data))"
    with assms path show False
      by (auto simp: Process_def split: prod.splits)
  qed
  have qp: "?qp = (fst ?qp, snd ?qp)" by simp
  have q_ok: "ok (fst ?qp)"
  proof (rule ccontr)
    assume "\<not> ok (fst ?qp)"
    with assms path s_ok show False
      by (auto simp: Process_def split: prod.splits)
  qed
  note after = Process_after_qp [OF path assms(3) su s_ok qp q_ok]
  from assms(1) obtain speed_data' arrays emitted where
    stage: "optimize_speed_by_nlp_interface ext fl config ?o1 path_data speed_data (snd ?qp)
              = Some (speed_data', arrays, opt')"
    and emit: "emit_speed_data (m_num_of_knots opt') (m_delta_t opt') arrays = Some emitted"
    and out: "out = Some (FillEnoughSpeedPoints ext emitted)"
    unfolding after by (auto split: option.splits)
  obtain distance velocity acceleration where arr: "arrays = (distance, velocity, acceleration)"
    by (cases arrays) auto
  have dt: "m_delta_t opt' = 1 / 10"
    using nlp_stage_keeps [OF stage] by (simp add: SetUpStatesAndBounds_fields)
  let ?first = "\<lparr>sp_s = distance ! 0, sp_t = 0, sp_v = velocity ! 0,
                           sp_a = acceleration ! 0, sp_da = 0\<rparr>"
  let ?pt = "speed_point_at (1 / 10) distance velocity acceleration"
  from emit_speed_data_shape [OF emit [unfolded arr dt]] obtain k where
    k: "1 \<le> k" "k \<le> max 1 (nat (m_num_of_knots opt'))"
    and shape: "emitted = ?first # map ?pt [1..<k]"
    and stop: "k < nat (m_num_of_knots opt') \<longrightarrow> velocity ! k < 0"
    and pos: "\<forall>i. 1 \<le> i \<and> i < k \<longrightarrow> 0 \<le> velocity ! i"
    by blast
  have times: "\<forall>p \<in> set (?first # map ?pt [1..<k]). 0 \<le> sp_t p"
    by (auto simp: speed_point_at_def)
  have speeds: "\<forall>p \<in> set (map ?pt [1..<k]). 0 \<le> sp_v p"
    using pos by (auto simp: speed_point_at_def)
  from stage [unfolded arr] k out [unfolded shape] stop pos times speeds
  show ?thesis by blast
qed

theorem emitted_speed_data_witness:
  "Process externals_nlp_fails sample_flags sample_config sample_vehicle (sample_reference_line 5)
       fresh_optimizer sample_path (Some rough_profile)
     = Some (Status_OK,
             Some [\<lparr>sp_s = 0, sp_t = 0, sp_v = 5, sp_a = 0, sp_da = 0\<rparr>,
                   \<lparr>sp_s = 1 / 2, sp_t = 1 / 10, sp_v = 5, sp_a = 0, sp_da = 0\<rparr>,
                   \<lparr>sp_s = 1, sp_t = 1 / 5, sp_v = 5, sp_a = 0, sp_da = 0\<rparr>,
                   \<lparr>sp_s = 1, sp_t = 7, sp_v = 0, sp_a = 0, sp_da = 0\<rparr>],
             snd (snd (the (Process externals_nlp_fails sample_flags sample_config sample_vehicle
                              (sample_reference_line 5) fresh_optimizer sample_path
                              (Some rough_profile)))))
   \<and> ok Status_OK
   \<and> \<not> ReachedDestination (sample_reference_line 5)
   \<and> (\<exists>distance velocity acceleration k.
         1 \<le> k
         \<and> Some [\<lparr>sp_s = 0, sp_t = 0, sp_v = 5, sp_a = 0, sp_da = 0\<rparr>,
                  \<lparr>sp_s = 1 / 2, sp_t = 1 / 10, sp_v = 5, sp_a = 0, sp_da = 0\<rparr>,
                  \<lparr>sp_s = 1, sp_t = 1 / 5, sp_v = 5, sp_a = 0, sp_da = 0\<rparr>,
                  \<lparr>sp_s = 1, sp_t = 7, sp_v = 0, sp_a = 0, sp_da = 0\<rparr>]
             = Some (FillEnoughSpeedPoints externals_nlp_fails
                       (\<lparr>sp_s = distance ! 0, sp_t = 0, sp_v = velocity ! 0,
                         sp_a = acceleration ! 0, sp_da = 0\<rparr>
                        # map (speed_point_at (1 / 10) distance velocity acceleration) [1..<k]))
         \<and> (\<forall>i. 1 \<le> i \<and> i < k \<longrightarrow> 0 \<le> velocity ! i))"
proof -
  let ?P = "Process externals_nlp_fails sample_flags sample_config sample_vehicle
              (sample_reference_line 5) fresh_optimizer sample_path (Some rough_profile)"
  let ?OUT = "[\<lparr>sp_s = 0, sp_t = 0, sp_v = 5, sp_a = 0, sp_da = 0\<rparr>,
                   \<lparr>sp_s = 1 / 2, sp_t = 1 / 10, sp_v = 5, sp_a = 0, sp_da = 0\<rparr>,
                   \<lparr>sp_s = 1, sp_t = 1 / 5, sp_v = 5, sp_a = 0, sp_da = 0\<rparr>,
                   \<lparr>sp_s = 1, sp_t = 7, sp_v = 0, sp_a = 0, sp_da = 0\<rparr>]"
  have run: "case ?P of None \<Rightarrow> False
             | Some (st, out, o') \<Rightarrow> st = Status_OK \<and> out = Some ?OUT"
    by code_simp
  have h1: "?P = Some (Status_OK, Some ?OUT, snd (snd (the ?P)))"
    using run by (cases ?P) auto
  have h2: "ok Status_OK" by (simp add: Status_OK_def)
  have h3: "\<not> ReachedDestination (sample_reference_line 5)"
    by (simp add: sample_reference_line_def)
  from emitted_speed_data [OF h1 h2 h3] obtain distance velocity acceleration k where
    "1 \<le> k"
    "Some ?OUT = Some (FillEnoughSpeedPoints externals_nlp_fails
                       (\<lparr>sp_s = distance ! 0, sp_t = 0, sp_v = velocity ! 0,
                         sp_a = acceleration ! 0, sp_da = 0\<rparr>
                        # map (speed_point_at (1 / 10) distance velocity acceleration) [1..<k]))"
    "\<forall>i. 1 \<le> i \<and> i < k \<longrightarrow> 0 \<le> velocity ! i"
    by blast
  with h1 h2 h3 show ?thesis by blast
qed

text \<open>
  C7 as stated fails twice: when the destination is reached \<open>Process\<close> returns OK with the
  output as it was at the call (here empty: no first point); and the first point's speed is
  \<open>velocity[0]\<close> unchecked, here negative.
\<close>

theorem success_without_the_emitted_points:
  "Process externals_nlp_fails sample_flags sample_config sample_vehicle
       ((sample_reference_line 5)\<lparr>ReachedDestination := True\<rparr>)
       fresh_optimizer sample_path (Some [])
     = Some (Status_OK, Some [], fresh_optimizer)
   \<and> ok Status_OK
   \<and> fst (the
        (Process (externals_smoothing_fails ([0, 0, 0], [- (1 / 100000), 0, 0], [0, 0, 0]))
           sample_flags sample_config sample_vehicle (sample_reference_line (- (1 / 100000)))
           fresh_optimizer sample_path (Some rough_profile)))
     = Status_OK
   \<and> fst (snd (the
        (Process (externals_smoothing_fails ([0, 0, 0], [- (1 / 100000), 0, 0], [0, 0, 0]))
           sample_flags sample_config sample_vehicle (sample_reference_line (- (1 / 100000)))
           fresh_optimizer sample_path (Some rough_profile))))
     = Some [\<lparr>sp_s = 0, sp_t = 0, sp_v = - (1 / 100000), sp_a = 0, sp_da = 0\<rparr>,
                   \<lparr>sp_s = 0, sp_t = 1 / 10, sp_v = 0, sp_a = 0, sp_da = 0\<rparr>,
                   \<lparr>sp_s = 0, sp_t = 1 / 5, sp_v = 0, sp_a = 0, sp_da = 0\<rparr>,
                   \<lparr>sp_s = 0, sp_t = 7, sp_v = 0, sp_a = 0, sp_da = 0\<rparr>]
   \<and> sp_v \<lparr>sp_s = 0, sp_t = 0, sp_v = - (1 / 100000), sp_a = 0, sp_da = 0\<rparr> < 0"
proof -
  have a: "Process externals_nlp_fails sample_flags sample_config sample_vehicle
       ((sample_reference_line 5)\<lparr>ReachedDestination := True\<rparr>)
       fresh_optimizer sample_path (Some [])
     = Some (Status_OK, Some [], fresh_optimizer)"
    by (simp add: Process_def sample_path_def sample_reference_line_def)
  have b: "ok Status_OK" by (simp add: Status_OK_def)
  have c: "fst (snd (the
        (Process (externals_smoothing_fails ([0, 0, 0], [- (1 / 100000), 0, 0], [0, 0, 0]))
           sample_flags sample_config sample_vehicle (sample_reference_line (- (1 / 100000)))
           fresh_optimizer sample_path (Some rough_profile))))
     = Some [\<lparr>sp_s = 0, sp_t = 0, sp_v = - (1 / 100000), sp_a = 0, sp_da = 0\<rparr>,
                   \<lparr>sp_s = 0, sp_t = 1 / 10, sp_v = 0, sp_a = 0, sp_da = 0\<rparr>,
                   \<lparr>sp_s = 0, sp_t = 1 / 5, sp_v = 0, sp_a = 0, sp_da = 0\<rparr>,
                   \<lparr>sp_s = 0, sp_t = 7, sp_v = 0, sp_a = 0, sp_da = 0\<rparr>]"
    by code_simp
  have c': "fst (the
        (Process (externals_smoothing_fails ([0, 0, 0], [- (1 / 100000), 0, 0], [0, 0, 0]))
           sample_flags sample_config sample_vehicle (sample_reference_line (- (1 / 100000)))
           fresh_optimizer sample_path (Some rough_profile)))
     = Status_OK"
    by code_simp
  have d: "sp_v \<lparr>sp_s = 0, sp_t = 0, sp_v = - (1 / 100000), sp_a = 0, sp_da = 0\<rparr> < 0" by simp
  from a b c c' d show ?thesis by blast
qed

end
